theory Spec2Isabelle
  imports Main
begin

section \<open>Data model (types/game.ts as gameLogic.ts and cards.ts use it)\<close>

text \<open>
  The declarations of \<^verbatim>\<open>types/game.ts\<close> are read off the object literals and field
  accesses of \<^verbatim>\<open>cards.ts\<close> and \<^verbatim>\<open>gameLogic.ts\<close>. A card is the tagged union of the
  source: the tag \<^verbatim>\<open>type\<close> and the fields that exist only under that tag are the
  constructor of \<open>CardFace\<close>. The display strings of a card (\<^verbatim>\<open>name\<close>, \<^verbatim>\<open>image\<close>) and
  the copy \<^verbatim>\<open>rentValues\<close> of the rent table are read by no rule and are left out.
  Identifiers come from \<^verbatim>\<open>uuidv4()\<close>, times from \<^verbatim>\<open>new Date()\<close> and the shuffle from
  \<^verbatim>\<open>Math.random()\<close>: each is a parameter of the operation that asks for it.
\<close>

datatype PropertyColor =
  brown | lightBlue | pink | orange | red | yellow | green | darkBlue | railroad | utility

datatype ActionType =
  passGo | birthday | debtCollector | slyDeal | forcedDeal | dealBreaker
  | house | hotel | doubleRent | justSayNo

datatype CardFace =
    Property PropertyColor bool "PropertyColor list option"
  | Money
  | Action ActionType
  | Rent "PropertyColor list" bool

record Card =
  card_id :: string
  card_value :: nat
  face :: CardFace

record PropertySet =
  color :: PropertyColor
  cards :: "Card list"
  hasHouse :: bool
  hasHotel :: bool
  isComplete :: bool

record Player =
  player_id :: string
  player_name :: string
  hand :: "Card list"
  properties :: "PropertySet list"
  bank :: "Card list"
  isConnected :: bool
  socketId :: "string option"

datatype PendingType = ByAction ActionType | ByRent

record PendingAction =
  pa_type :: PendingType
  fromPlayerId :: string
  toPlayerId :: "string option"
  targetSet :: "PropertyColor option"
  giveCardId :: "string option"
  giveFromSet :: "PropertyColor option"
  amount :: "nat option"
  pa_card :: Card
  canSayNo :: bool
  respondedPlayers :: "string list option"
  isDoubleRent :: "bool option"

datatype Phase = waiting | playing | finished

datatype TurnPhase = draw | action | responding | finishing | discard

record GameState =
  game_id :: string
  roomCode :: string
  players :: "Player list"
  currentPlayerIndex :: nat
  deck :: "Card list"
  discardPile :: "Card list"
  phase :: Phase
  turnPhase :: TurnPhase
  actionsRemaining :: int
  pendingAction :: "PendingAction option"
  winner :: "string option"
  createdAt :: nat
  updatedAt :: nat

record PlayCardTarget =
  tgt_asBank :: "bool option"
  tgt_propertySetColor :: "PropertyColor option"
  tgt_playerId :: "string option"
  tgt_giveCardId :: "string option"
  tgt_giveFromSet :: "PropertyColor option"
  tgt_useDoubleRent :: "bool option"

record ActionResponse =
  accept :: bool
  useJustSayNo :: "bool option"
  paymentCardIds :: "string list option"
  selectedCardId :: "string option"

text \<open>Every \<^verbatim>\<open>throw new Error(...)\<close> of the source, one constructor per message;
  \<open>TypeError\<close> is what JavaScript raises on \<^verbatim>\<open>undefined.id\<close>.\<close>

datatype error =
    NeedAtLeast2Players | Maximum5Players | PlayerNotFound | NotYourTurn
  | CannotDrawNow | CannotPlayNow | NoActionsRemaining | CardNotInHand
  | InvalidColorForWildcard | MustSelectPlayer | MustSelectPlayerAndSet
  | MustSelectExchange | MustSelectPlayerAndCompleteSet | OnlyCompleteSets
  | MustSelectPropertySet | SetMustBeComplete | SetAlreadyHasHouse
  | MustHaveHouseFirst | SetAlreadyHasHotel | DoubleRentNeedsRent
  | JustSayNoOnlyInResponse | NeedMatchingProperty | MustSelectPlayerForWildRent
  | NoPendingAction | InitiatorNotFound | AlreadyResponded | NoJustSayNoCard
  | MustPayAtLeast nat nat | NotInDiscardPhase | MustDiscardExactly int
  | CannotEndTurnNow | MustResolvePending | CannotRearrangeNow
  | SourceSetNotFound | CardNotInSourceSet | OnlyWildcards | WildcardCannotGoThere
  | TypeError

text \<open>An operation mutates the state in place and may throw after it has already
  written: its model returns the error or the value together with the state as the
  caller finds it afterwards.\<close>

type_synonym 'a outcome = "(error + 'a) \<times> GameState"

definition andThen :: "unit outcome \<Rightarrow> (GameState \<Rightarrow> 'a outcome) \<Rightarrow> 'a outcome" where
  "andThen r f = (case r of (Inl e, st) \<Rightarrow> (Inl e, st) | (Inr u, st) \<Rightarrow> f st)"

definition andThenWith :: "'a outcome \<Rightarrow> ('a \<Rightarrow> GameState \<Rightarrow> 'b outcome) \<Rightarrow> 'b outcome" where
  "andThenWith r f = (case r of (Inl e, st) \<Rightarrow> (Inl e, st) | (Inr v, st) \<Rightarrow> f v st)"

section \<open>JavaScript array helpers\<close>

fun findIndex :: "('a \<Rightarrow> bool) \<Rightarrow> 'a list \<Rightarrow> nat option" where
  "findIndex P [] = None"
| "findIndex P (x # xs) = (if P x then Some 0 else map_option Suc (findIndex P xs))"

definition find_js :: "('a \<Rightarrow> bool) \<Rightarrow> 'a list \<Rightarrow> 'a option" where
  "find_js P xs = map_option (\<lambda>i. xs ! i) (findIndex P xs)"

definition splice1 :: "nat \<Rightarrow> 'a list \<Rightarrow> 'a list" where
  "splice1 i xs = take i xs @ drop (Suc i) xs"

text \<open>\<^verbatim>\<open>xs.pop()\<close> takes the last element; \<open>None\<close> is \<^verbatim>\<open>undefined\<close> on an empty array.\<close>

definition pop :: "'a list \<Rightarrow> ('a \<times> 'a list) option" where
  "pop xs = (if xs = [] then None else Some (last xs, butlast xs))"

definition truthy :: "string option \<Rightarrow> bool" where
  "truthy s = (case s of None \<Rightarrow> False | Some t \<Rightarrow> t \<noteq> [])"

section \<open>cards.ts\<close>

fun PROPERTY_SET_REQUIREMENTS :: "PropertyColor \<Rightarrow> nat" where
  "PROPERTY_SET_REQUIREMENTS brown = 2"
| "PROPERTY_SET_REQUIREMENTS lightBlue = 3"
| "PROPERTY_SET_REQUIREMENTS pink = 3"
| "PROPERTY_SET_REQUIREMENTS orange = 3"
| "PROPERTY_SET_REQUIREMENTS red = 3"
| "PROPERTY_SET_REQUIREMENTS yellow = 3"
| "PROPERTY_SET_REQUIREMENTS green = 3"
| "PROPERTY_SET_REQUIREMENTS darkBlue = 2"
| "PROPERTY_SET_REQUIREMENTS railroad = 4"
| "PROPERTY_SET_REQUIREMENTS utility = 2"

fun RENT_VALUES :: "PropertyColor \<Rightarrow> nat list" where
  "RENT_VALUES brown = [1, 2]"
| "RENT_VALUES lightBlue = [1, 2, 3]"
| "RENT_VALUES pink = [1, 2, 4]"
| "RENT_VALUES orange = [1, 3, 5]"
| "RENT_VALUES red = [2, 3, 6]"
| "RENT_VALUES yellow = [2, 4, 6]"
| "RENT_VALUES green = [2, 4, 7]"
| "RENT_VALUES darkBlue = [3, 8]"
| "RENT_VALUES railroad = [1, 2, 3, 4]"
| "RENT_VALUES utility = [1, 2]"

definition allColors :: "PropertyColor list" where
  "allColors = [brown, lightBlue, pink, orange, red, yellow, green, darkBlue, railroad, utility]"

text \<open>The four constructors of \<^verbatim>\<open>cards.ts\<close> without the identifier: \<open>createDeck\<close>
  numbers the cards in push order and asks \<open>uuid\<close> for the identifier of each.\<close>

definition createPropertyCard :: "PropertyColor \<Rightarrow> nat \<Rightarrow> nat \<times> CardFace" where
  "createPropertyCard c v = (v, Property c False None)"

definition createWildcard :: "PropertyColor \<Rightarrow> nat \<Rightarrow> PropertyColor list \<Rightarrow> nat \<times> CardFace" where
  "createWildcard c v cs = (v, Property c True (Some cs))"

definition createMoneyCard :: "nat \<Rightarrow> nat \<times> CardFace" where
  "createMoneyCard v = (v, Money)"

definition createActionCard :: "ActionType \<Rightarrow> nat \<Rightarrow> nat \<times> CardFace" where
  "createActionCard a v = (v, Action a)"

definition createRentCard :: "PropertyColor list \<Rightarrow> nat \<Rightarrow> bool \<Rightarrow> nat \<times> CardFace" where
  "createRentCard cs v w = (v, Rent cs w)"

definition deckFaces :: "(nat \<times> CardFace) list" where
  "deckFaces =
     [createPropertyCard brown 1, createPropertyCard brown 1,
      createPropertyCard lightBlue 1, createPropertyCard lightBlue 1, createPropertyCard lightBlue 1,
      createPropertyCard pink 2, createPropertyCard pink 2, createPropertyCard pink 2,
      createPropertyCard orange 2, createPropertyCard orange 2, createPropertyCard orange 2,
      createPropertyCard red 3, createPropertyCard red 3, createPropertyCard red 3,
      createPropertyCard yellow 3, createPropertyCard yellow 3, createPropertyCard yellow 3,
      createPropertyCard green 4, createPropertyCard green 4, createPropertyCard green 4,
      createPropertyCard darkBlue 4, createPropertyCard darkBlue 4,
      createPropertyCard railroad 2, createPropertyCard railroad 2,
      createPropertyCard railroad 2, createPropertyCard railroad 2,
      createPropertyCard utility 2, createPropertyCard utility 2,
      createWildcard brown 1 [brown, lightBlue],
      createWildcard pink 2 [pink, orange],
      createWildcard red 3 [red, yellow],
      createWildcard green 4 [green, darkBlue],
      createWildcard green 4 [green, railroad],
      createWildcard lightBlue 4 [lightBlue, railroad],
      createWildcard utility 2 [utility, railroad],
      createWildcard railroad 0 allColors,
      createWildcard railroad 0 allColors]
     @ replicate 6 (createMoneyCard 1) @ replicate 5 (createMoneyCard 2)
     @ replicate 3 (createMoneyCard 3) @ replicate 3 (createMoneyCard 4)
     @ replicate 2 (createMoneyCard 5) @ [createMoneyCard 10]
     @ replicate 2 (createActionCard dealBreaker 5)
     @ replicate 3 (createActionCard justSayNo 4)
     @ replicate 3 (createActionCard slyDeal 3)
     @ replicate 4 (createActionCard forcedDeal 3)
     @ replicate 3 (createActionCard debtCollector 3)
     @ replicate 3 (createActionCard birthday 2)
     @ replicate 10 (createActionCard passGo 1)
     @ replicate 3 (createActionCard house 3)
     @ replicate 2 (createActionCard hotel 4)
     @ replicate 2 (createActionCard doubleRent 1)
     @ replicate 2 (createRentCard [brown, lightBlue] 1 False)
     @ replicate 2 (createRentCard [pink, orange] 1 False)
     @ replicate 2 (createRentCard [red, yellow] 1 False)
     @ replicate 2 (createRentCard [green, darkBlue] 1 False)
     @ replicate 2 (createRentCard [railroad, utility] 1 False)
     @ replicate 3 (createRentCard allColors 3 True)"

definition createDeck :: "(nat \<Rightarrow> string) \<Rightarrow> Card list" where
  "createDeck uuid =
     map (\<lambda>(k, (v, f)). \<lparr>card_id = uuid k, card_value = v, face = f\<rparr>)
         (enumerate 0 deckFaces)"

text \<open>Fisher-Yates, \<^verbatim>\<open>for (i = length - 1; i > 0; i--)\<close>. \<open>r i\<close> is the value of
  \<^verbatim>\<open>Math.floor(Math.random() * (i + 1))\<close> in the round for \<open>i\<close>, which lies in \<open>0..i\<close>;
  the model reduces \<open>r i\<close> modulo \<open>i + 1\<close> so that every \<open>r\<close> is a possible run.\<close>

fun shuffleLoop :: "(nat \<Rightarrow> nat) \<Rightarrow> nat \<Rightarrow> 'a list \<Rightarrow> 'a list" where
  "shuffleLoop r 0 xs = xs"
| "shuffleLoop r (Suc i) xs =
     (let j = r (Suc i) mod (Suc i + 1)
      in shuffleLoop r i (xs[Suc i := xs ! j, j := xs ! Suc i]))"

definition shuffleDeck :: "(nat \<Rightarrow> nat) \<Rightarrow> 'a list \<Rightarrow> 'a list" where
  "shuffleDeck r xs = shuffleLoop r (length xs - 1) xs"

section \<open>gameLogic.ts: set-up, drawing\<close>

text \<open>A \<^verbatim>\<open>Player\<close> or \<^verbatim>\<open>PropertySet\<close> variable of the source is a reference into
  \<^verbatim>\<open>state.players\<close>; the model keeps its index and writes through it, so two variables
  that alias (the responder and the initiator being the same participant) update the
  same entry, in the order of the source's statements.\<close>

definition modPlayer :: "nat \<Rightarrow> (Player \<Rightarrow> Player) \<Rightarrow> GameState \<Rightarrow> GameState" where
  "modPlayer i f st = st\<lparr>players := (players st)[i := f (players st ! i)]\<rparr>"

definition modSet :: "nat \<Rightarrow> nat \<Rightarrow> (PropertySet \<Rightarrow> PropertySet) \<Rightarrow> GameState \<Rightarrow> GameState" where
  "modSet i k f st =
     modPlayer i (\<lambda>p. p\<lparr>properties := (properties p)[k := f (properties p ! k)]\<rparr>) st"

definition findPlayer :: "GameState \<Rightarrow> string \<Rightarrow> nat option" where
  "findPlayer st playerId = findIndex (\<lambda>p. player_id p = playerId) (players st)"

definition createGameState ::
  "nat \<Rightarrow> string \<Rightarrow> (nat \<Rightarrow> string) \<Rightarrow> (nat \<Rightarrow> nat) \<Rightarrow> string \<Rightarrow> GameState" where
  "createGameState now gid uuid r room =
     \<lparr>game_id = gid, roomCode = room, players = [], currentPlayerIndex = 0,
      deck = shuffleDeck r (createDeck uuid), discardPile = [], phase = waiting,
      turnPhase = draw, actionsRemaining = 3, pendingAction = None, winner = None,
      createdAt = now, updatedAt = now\<rparr>"

definition addPlayer ::
  "nat \<Rightarrow> string \<Rightarrow> GameState \<Rightarrow> string \<Rightarrow> string \<Rightarrow> Player \<times> GameState" where
  "addPlayer now pid st name sock =
     (let player = \<lparr>player_id = pid, player_name = name, hand = [], properties = [],
                     bank = [], isConnected = True, socketId = Some sock\<rparr>
      in (player, st\<lparr>players := players st @ [player], updatedAt := now\<rparr>))"

definition removePlayer :: "nat \<Rightarrow> GameState \<Rightarrow> string \<Rightarrow> GameState" where
  "removePlayer now st playerId =
     (case findPlayer st playerId of
        None \<Rightarrow> st
      | Some index \<Rightarrow>
          let st1 = st\<lparr>players := splice1 index (players st)\<rparr>;
              st2 = (if currentPlayerIndex st1 \<ge> length (players st1)
                     then st1\<lparr>currentPlayerIndex := 0\<rparr> else st1)
          in st2\<lparr>updatedAt := now\<rparr>)"

fun dealHand :: "nat \<Rightarrow> nat \<Rightarrow> GameState \<Rightarrow> GameState" where
  "dealHand 0 i st = st"
| "dealHand (Suc n) i st =
     dealHand n i
       (case pop (deck st) of
          None \<Rightarrow> st
        | Some (c, d) \<Rightarrow> modPlayer i (\<lambda>p. p\<lparr>hand := hand p @ [c]\<rparr>) (st\<lparr>deck := d\<rparr>))"

text \<open>The body of the dealing loop of \<^verbatim>\<open>startGame\<close> for the participant at index \<open>i\<close>.\<close>

definition dealPlayer :: "GameState \<Rightarrow> nat \<Rightarrow> GameState" where
  "dealPlayer s i =
     dealHand 5 i (modPlayer i (\<lambda>p. p\<lparr>hand := [], properties := [], bank := []\<rparr>) s)"

definition startGame ::
  "nat \<Rightarrow> (nat \<Rightarrow> string) \<Rightarrow> (nat \<Rightarrow> nat) \<Rightarrow> GameState \<Rightarrow> unit outcome" where
  "startGame now uuid r st =
     (if length (players st) < 2 then (Inl NeedAtLeast2Players, st)
      else if length (players st) > 5 then (Inl Maximum5Players, st)
      else
        let st1 = st\<lparr>deck := shuffleDeck r (createDeck uuid), discardPile := [],
                     phase := playing, turnPhase := draw, currentPlayerIndex := 0,
                     actionsRemaining := 3\<rparr>;
            st2 = foldl dealPlayer st1 [0..<length (players st1)]
        in (Inr (), st2\<lparr>updatedAt := now\<rparr>))"

text \<open>The draw loop of \<^verbatim>\<open>drawCards\<close>, which \<^verbatim>\<open>passGo\<close> repeats without the list of
  drawn cards. Only the first reshuffle of a call can meet a non-empty discard pile, so
  one random run \<open>r\<close> serves the call.\<close>

fun drawLoop ::
  "(nat \<Rightarrow> nat) \<Rightarrow> nat \<Rightarrow> nat \<Rightarrow> GameState \<Rightarrow> Card list \<Rightarrow> Card list \<times> GameState" where
  "drawLoop r 0 i st acc = (acc, st)"
| "drawLoop r (Suc n) i st acc =
     (let st1 = (if deck st = []
                 then st\<lparr>deck := shuffleDeck r (discardPile st), discardPile := []\<rparr>
                 else st)
      in case pop (deck st1) of
           None \<Rightarrow> drawLoop r n i st1 acc
         | Some (c, d) \<Rightarrow>
             drawLoop r n i (modPlayer i (\<lambda>p. p\<lparr>hand := hand p @ [c]\<rparr>) (st1\<lparr>deck := d\<rparr>))
                      (acc @ [c]))"

text \<open>\<^verbatim>\<open>state.players[state.currentPlayerIndex].id !== playerId\<close>: reading \<^verbatim>\<open>.id\<close> of
  \<^verbatim>\<open>undefined\<close> raises a TypeError when the index is out of range.\<close>

definition turnCheck :: "GameState \<Rightarrow> string \<Rightarrow> error option" where
  "turnCheck st playerId =
     (if \<not> currentPlayerIndex st < length (players st) then Some TypeError
      else if player_id (players st ! currentPlayerIndex st) \<noteq> playerId then Some NotYourTurn
      else None)"

definition drawCards ::
  "nat \<Rightarrow> (nat \<Rightarrow> nat) \<Rightarrow> GameState \<Rightarrow> string \<Rightarrow> (Card list) outcome" where
  "drawCards now r st playerId =
     (case findPlayer st playerId of
        None \<Rightarrow> (Inl PlayerNotFound, st)
      | Some i \<Rightarrow>
         (case turnCheck st playerId of
            Some e \<Rightarrow> (Inl e, st)
          | None \<Rightarrow>
             if turnPhase st \<noteq> draw then (Inl CannotDrawNow, st)
             else
               let cardsToDraw = (if length (hand (players st ! i)) = 0 then 5 else 2);
                   (drawn, st1) = drawLoop r cardsToDraw i st []
               in (Inr drawn, st1\<lparr>turnPhase := action, updatedAt := now\<rparr>)))"

section \<open>gameLogic.ts: the property ledger\<close>

definition isPropertyCard :: "Card \<Rightarrow> bool" where
  "isPropertyCard c = (case face c of Property _ _ _ \<Rightarrow> True | _ \<Rightarrow> False)"

text \<open>\<^verbatim>\<open>(c as PropertyCard).isWildcard\<close>: \<^verbatim>\<open>undefined\<close>, hence falsy, on the other card types.\<close>

definition isWildcard :: "Card \<Rightarrow> bool" where
  "isWildcard c = (case face c of Property _ w _ \<Rightarrow> w | _ \<Rightarrow> False)"

definition wildcardColors :: "Card \<Rightarrow> PropertyColor list option" where
  "wildcardColors c = (case face c of Property _ _ ws \<Rightarrow> ws | _ \<Rightarrow> None)"

definition isActionCard :: "ActionType \<Rightarrow> Card \<Rightarrow> bool" where
  "isActionCard a c = (face c = Action a)"

definition updatePropertySetCompletion :: "PropertySet \<Rightarrow> PropertySet" where
  "updatePropertySetCompletion s =
     s\<lparr>isComplete := (length (filter isPropertyCard (cards s)) \<ge> PROPERTY_SET_REQUIREMENTS (color s))\<rparr>"

definition emptySet :: "PropertyColor \<Rightarrow> PropertySet" where
  "emptySet c = \<lparr>color = c, cards = [], hasHouse = False, hasHotel = False, isComplete = False\<rparr>"

text \<open>\<^verbatim>\<open>playPropertyCard(state, player, card, targetColor)\<close> with \<open>i\<close> the player. Every
  call site has tested \<^verbatim>\<open>card.type === 'property'\<close>; the other faces do not reach it.\<close>

definition playPropertyCard ::
  "GameState \<Rightarrow> nat \<Rightarrow> Card \<Rightarrow> PropertyColor option \<Rightarrow> unit outcome" where
  "playPropertyCard st i c targetColor =
     (case face c of
        Property ccolor wild wcs \<Rightarrow>
          let col = (case targetColor of Some t \<Rightarrow> t | None \<Rightarrow> ccolor) in
          if wild \<and> (case wcs of Some l \<Rightarrow> col \<notin> set l | None \<Rightarrow> False)
          then (Inl InvalidColorForWildcard, st)
          else
            (case findIndex (\<lambda>s. color s = col) (properties (players st ! i)) of
               Some k \<Rightarrow>
                 (Inr (), modSet i k (\<lambda>s. updatePropertySetCompletion (s\<lparr>cards := cards s @ [c]\<rparr>)) st)
             | None \<Rightarrow>
                 (Inr (), modPlayer i (\<lambda>p. p\<lparr>properties := properties p @
                            [updatePropertySetCompletion ((emptySet col)\<lparr>cards := [c]\<rparr>)]\<rparr>) st))
      | _ \<Rightarrow> (Inr (), st))"

definition calculateRent :: "PropertySet \<Rightarrow> nat" where
  "calculateRent s =
     (let baseRent = RENT_VALUES (color s);
          propertyCount = length (filter (\<lambda>c. isPropertyCard c \<or> isWildcard c) (cards s));
          idx = min (int propertyCount - 1) (int (length baseRent) - 1);
          rent = (if 0 \<le> idx \<and> idx < int (length baseRent) then baseRent ! nat idx else 0)
      in rent + (if hasHouse s then 3 else 0) + (if hasHotel s then 4 else 0))"

definition checkWinner :: "GameState \<Rightarrow> GameState" where
  "checkWinner st =
     (case find_js (\<lambda>p. length (filter isComplete (properties p)) \<ge> 3) (players st) of
        None \<Rightarrow> st
      | Some p \<Rightarrow> st\<lparr>winner := Some (player_id p), phase := finished\<rparr>)"

section \<open>gameLogic.ts: playing a card\<close>

definition tgt :: "PlayCardTarget option \<Rightarrow> (PlayCardTarget \<Rightarrow> 'a option) \<Rightarrow> 'a option" where
  "tgt target f = (case target of None \<Rightarrow> None | Some t \<Rightarrow> f t)"

definition newPending :: "PendingType \<Rightarrow> string \<Rightarrow> Card \<Rightarrow> PendingAction" where
  "newPending ty from_id c =
     \<lparr>pa_type = ty, fromPlayerId = from_id, toPlayerId = None, targetSet = None,
      giveCardId = None, giveFromSet = None, amount = None, pa_card = c, canSayNo = True,
      respondedPlayers = None, isDoubleRent = None\<rparr>"

definition setPending :: "PendingAction \<Rightarrow> GameState \<Rightarrow> GameState" where
  "setPending pa st = st\<lparr>pendingAction := Some pa, turnPhase := responding\<rparr>"

text \<open>\<^verbatim>\<open>house\<close> and \<^verbatim>\<open>hotel\<close> differ in the flag they test and set.\<close>

definition addModifier ::
  "GameState \<Rightarrow> nat \<Rightarrow> Card \<Rightarrow> bool \<Rightarrow> PlayCardTarget option \<Rightarrow> unit outcome" where
  "addModifier st i c isHotel target =
     (case tgt target tgt_propertySetColor of
        None \<Rightarrow> (Inl MustSelectPropertySet, st)
      | Some col \<Rightarrow>
         (case findIndex (\<lambda>s. color s = col) (properties (players st ! i)) of
            None \<Rightarrow> (Inl SetMustBeComplete, st)
          | Some k \<Rightarrow>
             let s = properties (players st ! i) ! k in
             if \<not> isComplete s then (Inl SetMustBeComplete, st)
             else if \<not> isHotel then
               (if hasHouse s then (Inl SetAlreadyHasHouse, st)
                else (Inr (), modSet i k (\<lambda>s. s\<lparr>hasHouse := True, cards := cards s @ [c]\<rparr>) st))
             else
               (if \<not> hasHouse s then (Inl MustHaveHouseFirst, st)
                else if hasHotel s then (Inl SetAlreadyHasHotel, st)
                else (Inr (), modSet i k (\<lambda>s. s\<lparr>hasHotel := True, cards := cards s @ [c]\<rparr>) st))))"

definition playActionCard ::
  "(nat \<Rightarrow> nat) \<Rightarrow> GameState \<Rightarrow> nat \<Rightarrow> Card \<Rightarrow> ActionType \<Rightarrow> PlayCardTarget option \<Rightarrow> unit outcome" where
  "playActionCard r st i c act target =
     (let me = player_id (players st ! i) in
      case act of
        passGo \<Rightarrow>
          (let st1 = snd (drawLoop r 2 i st [])
           in (Inr (), st1\<lparr>discardPile := discardPile st1 @ [c]\<rparr>))
      | birthday \<Rightarrow>
          (Inr (), setPending ((newPending (ByAction birthday) me c)
                      \<lparr>amount := Some 2, respondedPlayers := Some []\<rparr>) st)
      | debtCollector \<Rightarrow>
          if \<not> truthy (tgt target tgt_playerId) then (Inl MustSelectPlayer, st)
          else (Inr (), setPending ((newPending (ByAction debtCollector) me c)
                      \<lparr>toPlayerId := tgt target tgt_playerId, amount := Some 5\<rparr>) st)
      | slyDeal \<Rightarrow>
          if \<not> truthy (tgt target tgt_playerId) \<or> tgt target tgt_propertySetColor = None
          then (Inl MustSelectPlayerAndSet, st)
          else (Inr (), setPending ((newPending (ByAction slyDeal) me c)
                      \<lparr>toPlayerId := tgt target tgt_playerId,
                       targetSet := tgt target tgt_propertySetColor\<rparr>) st)
      | forcedDeal \<Rightarrow>
          if \<not> truthy (tgt target tgt_playerId) \<or> tgt target tgt_propertySetColor = None
             \<or> \<not> truthy (tgt target tgt_giveCardId) \<or> tgt target tgt_giveFromSet = None
          then (Inl MustSelectExchange, st)
          else (Inr (), setPending ((newPending (ByAction forcedDeal) me c)
                      \<lparr>toPlayerId := tgt target tgt_playerId,
                       targetSet := tgt target tgt_propertySetColor,
                       giveCardId := tgt target tgt_giveCardId,
                       giveFromSet := tgt target tgt_giveFromSet\<rparr>) st)
      | dealBreaker \<Rightarrow>
          if \<not> truthy (tgt target tgt_playerId) \<or> tgt target tgt_propertySetColor = None
          then (Inl MustSelectPlayerAndCompleteSet, st)
          else
            (let targetPlayer = find_js (\<lambda>p. Some (player_id p) = tgt target tgt_playerId) (players st);
                 tset = (case targetPlayer of
                           None \<Rightarrow> None
                         | Some p \<Rightarrow> find_js (\<lambda>s. Some (color s) = tgt target tgt_propertySetColor)
                                             (properties p))
             in if \<not> (case tset of None \<Rightarrow> False | Some s \<Rightarrow> isComplete s)
                then (Inl OnlyCompleteSets, st)
                else (Inr (), setPending ((newPending (ByAction dealBreaker) me c)
                        \<lparr>toPlayerId := tgt target tgt_playerId,
                         targetSet := tgt target tgt_propertySetColor\<rparr>) st))
      | house \<Rightarrow> addModifier st i c False target
      | hotel \<Rightarrow> addModifier st i c True target
      | doubleRent \<Rightarrow>
          (Inl DoubleRentNeedsRent,
           (modPlayer i (\<lambda>p. p\<lparr>hand := hand p @ [c]\<rparr>) st)
             \<lparr>actionsRemaining := actionsRemaining st + 1\<rparr>)
      | justSayNo \<Rightarrow>
          (Inl JustSayNoOnlyInResponse,
           (modPlayer i (\<lambda>p. p\<lparr>hand := hand p @ [c]\<rparr>) st)
             \<lparr>actionsRemaining := actionsRemaining st + 1\<rparr>))"

definition playRentCard ::
  "GameState \<Rightarrow> nat \<Rightarrow> Card \<Rightarrow> PropertyColor list \<Rightarrow> bool \<Rightarrow> PlayCardTarget option \<Rightarrow> unit outcome" where
  "playRentCard st i c colors isWildRent target =
     (let me = player_id (players st ! i);
          matchingSet =
            (case tgt target tgt_propertySetColor of
               Some tc \<Rightarrow> find_js (\<lambda>s. color s = tc \<and> color s \<in> set colors) (properties (players st ! i))
             | None \<Rightarrow> find_js (\<lambda>s. color s \<in> set colors) (properties (players st ! i)))
      in case matchingSet of
           None \<Rightarrow> (Inl NeedMatchingProperty, st)
         | Some ms \<Rightarrow>
            let rent0 = calculateRent ms;
                (rentAmount, st1) =
                  (if tgt target tgt_useDoubleRent = Some True
                   then (case findIndex (isActionCard doubleRent) (hand (players st ! i)) of
                           None \<Rightarrow> (rent0, st)
                         | Some d \<Rightarrow>
                            let dc = hand (players st ! i) ! d;
                                sa = modPlayer i (\<lambda>p. p\<lparr>hand := splice1 d (hand p)\<rparr>) st
                            in (rent0 * 2,
                                sa\<lparr>discardPile := discardPile sa @ [dc],
                                   actionsRemaining := actionsRemaining sa - 1\<rparr>))
                   else (rent0, st))
            in if isWildRent \<and> \<not> truthy (tgt target tgt_playerId)
               then (Inl MustSelectPlayerForWildRent, st1)
               else
                 let pa = (if isWildRent
                           then (newPending ByRent me c)
                                  \<lparr>toPlayerId := tgt target tgt_playerId, amount := Some rentAmount,
                                   isDoubleRent := tgt target tgt_useDoubleRent\<rparr>
                           else (newPending ByRent me c)
                                  \<lparr>amount := Some rentAmount, respondedPlayers := Some [],
                                   isDoubleRent := tgt target tgt_useDoubleRent\<rparr>);
                     st2 = setPending pa st1
                 in (Inr (), st2\<lparr>discardPile := discardPile st2 @ [c]\<rparr>))"

definition playDispatch ::
  "(nat \<Rightarrow> nat) \<Rightarrow> GameState \<Rightarrow> nat \<Rightarrow> Card \<Rightarrow> PlayCardTarget option \<Rightarrow> unit outcome" where
  "playDispatch r st i c target =
     (if tgt target tgt_asBank = Some True \<or> face c = Money
      then (Inr (), modPlayer i (\<lambda>p. p\<lparr>bank := bank p @ [c]\<rparr>) st)
      else case face c of
             Property _ _ _ \<Rightarrow> playPropertyCard st i c (tgt target tgt_propertySetColor)
           | Action act \<Rightarrow> playActionCard r st i c act target
           | Rent colors w \<Rightarrow> playRentCard st i c colors w target
           | Money \<Rightarrow> (Inr (), st))"

definition playCard ::
  "nat \<Rightarrow> (nat \<Rightarrow> nat) \<Rightarrow> GameState \<Rightarrow> string \<Rightarrow> string \<Rightarrow> PlayCardTarget option \<Rightarrow> unit outcome" where
  "playCard now r st playerId cardId target =
     (case findPlayer st playerId of
        None \<Rightarrow> (Inl PlayerNotFound, st)
      | Some i \<Rightarrow>
         (case turnCheck st playerId of
            Some e \<Rightarrow> (Inl e, st)
          | None \<Rightarrow>
             if turnPhase st \<noteq> action then (Inl CannotPlayNow, st)
             else if actionsRemaining st \<le> 0 then (Inl NoActionsRemaining, st)
             else
               (case findIndex (\<lambda>c. card_id c = cardId) (hand (players st ! i)) of
                  None \<Rightarrow> (Inl CardNotInHand, st)
                | Some k \<Rightarrow>
                   let c = hand (players st ! i) ! k;
                       st1 = modPlayer i (\<lambda>p. p\<lparr>hand := splice1 k (hand p)\<rparr>) st
                   in andThen (playDispatch r st1 i c target)
                        (\<lambda>st2.
                           let st3 = checkWinner (st2\<lparr>actionsRemaining := actionsRemaining st2 - 1\<rparr>);
                               st4 = (if actionsRemaining st3 \<le> 0 \<and> pendingAction st3 = None
                                      then st3\<lparr>turnPhase :=
                                              (if length (hand (players st3 ! i)) > 7
                                               then discard else finishing)\<rparr>
                                      else st3)
                           in (Inr (), st4\<lparr>updatedAt := now\<rparr>)))))"

section \<open>gameLogic.ts: responding to the pending action\<close>

definition pruneEmpty :: "nat \<Rightarrow> GameState \<Rightarrow> GameState" where
  "pruneEmpty i st =
     modPlayer i (\<lambda>p. p\<lparr>properties := filter (\<lambda>s. length (cards s) > 0) (properties p)\<rparr>) st"

text \<open>The block that ends each resolving path of \<^verbatim>\<open>respondToAction\<close>: clear the
  pending action, then choose the turn phase from the budget and the current
  participant's hand. \<^verbatim>\<open>currentPlayer.hand\<close> is read only when the budget is used up.\<close>

definition resolvePending :: "nat \<Rightarrow> GameState \<Rightarrow> unit outcome" where
  "resolvePending now st =
     (let st1 = st\<lparr>pendingAction := None\<rparr> in
      if actionsRemaining st1 \<le> 0 then
        (if currentPlayerIndex st1 < length (players st1)
         then (Inr (), st1\<lparr>turnPhase :=
                            (if length (hand (players st1 ! currentPlayerIndex st1)) > 7
                             then discard else finishing),
                          updatedAt := now\<rparr>)
         else (Inl TypeError, st1))
      else (Inr (), st1\<lparr>turnPhase := action, updatedAt := now\<rparr>))"

definition allResponded :: "GameState \<Rightarrow> PendingAction \<Rightarrow> string list \<Rightarrow> bool" where
  "allResponded st pa rs =
     list_all (\<lambda>p. player_id p \<in> set rs)
              (filter (\<lambda>p. player_id p \<noteq> fromPlayerId pa) (players st))"

definition respondJustSayNo ::
  "nat \<Rightarrow> GameState \<Rightarrow> PendingAction \<Rightarrow> nat \<Rightarrow> nat \<Rightarrow> string \<Rightarrow> unit outcome" where
  "respondJustSayNo now st pa i j playerId =
     (case findIndex (isActionCard justSayNo) (hand (players st ! i)) of
        None \<Rightarrow> (Inl NoJustSayNoCard, st)
      | Some k \<Rightarrow>
         let jsn = hand (players st ! i) ! k;
             st1 = modPlayer i (\<lambda>p. p\<lparr>hand := splice1 k (hand p)\<rparr>) st;
             st2 = st1\<lparr>discardPile := discardPile st1 @ [jsn]\<rparr>
         in (case respondedPlayers pa of
               Some rs \<Rightarrow>
                 let rs' = rs @ [playerId];
                     st3 = st2\<lparr>pendingAction := Some (pa\<lparr>respondedPlayers := Some rs'\<rparr>)\<rparr>
                 in if allResponded st3 pa rs' then resolvePending now st3
                    else (Inr (), st3\<lparr>updatedAt := now\<rparr>)
             | None \<Rightarrow>
                 if findIndex (isActionCard justSayNo) (hand (players st2 ! j)) \<noteq> None
                 then (Inr (), st2\<lparr>pendingAction :=
                                     Some (pa\<lparr>fromPlayerId := playerId,
                                              toPlayerId := Some (fromPlayerId pa),
                                              canSayNo := True\<rparr>),
                                   updatedAt := now\<rparr>)
                 else resolvePending now st2))"

definition allSetCards :: "Player \<Rightarrow> Card list" where
  "allSetCards p = concat (map cards (properties p))"

definition totalAssets :: "Player \<Rightarrow> nat" where
  "totalAssets p = sum_list (map card_value (bank p)) + sum_list (map card_value (allSetCards p))"

text \<open>\<^verbatim>\<open>bankCard?.value || propCard?.value || 0\<close>: a value of 0 is falsy and falls through.\<close>

definition offeredValue :: "Player \<Rightarrow> string \<Rightarrow> nat" where
  "offeredValue p cardId =
     (let bankCard = find_js (\<lambda>c. card_id c = cardId) (bank p);
          propCard = find_js (\<lambda>c. card_id c = cardId) (allSetCards p);
          pv = (case propCard of Some c \<Rightarrow> card_value c | None \<Rightarrow> 0)
      in case bankCard of
           Some b \<Rightarrow> (if card_value b \<noteq> 0 then card_value b else pv)
         | None \<Rightarrow> pv)"

definition paymentValue :: "Player \<Rightarrow> string list \<Rightarrow> nat" where
  "paymentValue p ids = foldl (\<lambda>acc cardId. acc + offeredValue p cardId) 0 ids"

text \<open>One round of the transfer loop: \<open>i\<close> is the responder, \<open>j\<close> the initiator. The inner
  \<^verbatim>\<open>for (const set of player.properties)\<close> stops at the first set that holds the card.\<close>

definition payOne :: "GameState \<Rightarrow> nat \<Rightarrow> nat \<Rightarrow> string \<Rightarrow> unit outcome" where
  "payOne st i j cardId =
     (case findIndex (\<lambda>c. card_id c = cardId) (bank (players st ! i)) of
        Some b \<Rightarrow>
          let c = bank (players st ! i) ! b;
              st1 = modPlayer i (\<lambda>p. p\<lparr>bank := splice1 b (bank p)\<rparr>) st
          in (Inr (), modPlayer j (\<lambda>p. p\<lparr>bank := bank p @ [c]\<rparr>) st1)
      | None \<Rightarrow>
         (case findIndex (\<lambda>s. findIndex (\<lambda>c. card_id c = cardId) (cards s) \<noteq> None)
                         (properties (players st ! i)) of
            None \<Rightarrow> (Inr (), st)
          | Some k \<Rightarrow>
             (case findIndex (\<lambda>c. card_id c = cardId) (cards (properties (players st ! i) ! k)) of
                None \<Rightarrow> (Inr (), st)
              | Some m \<Rightarrow>
                 let c = cards (properties (players st ! i) ! k) ! m;
                     st1 = modSet i k (\<lambda>s. s\<lparr>cards := splice1 m (cards s)\<rparr>) st
                 in andThen
                      (if isPropertyCard c then playPropertyCard st1 j c None
                       else (Inr (), modPlayer j (\<lambda>p. p\<lparr>bank := bank p @ [c]\<rparr>) st1))
                      (\<lambda>st2. (Inr (), modSet i k updatePropertySetCompletion st2)))))"

fun payAll :: "GameState \<Rightarrow> nat \<Rightarrow> nat \<Rightarrow> string list \<Rightarrow> unit outcome" where
  "payAll st i j [] = (Inr (), st)"
| "payAll st i j (cardId # rest) = andThen (payOne st i j cardId) (\<lambda>st1. payAll st1 i j rest)"

definition settlePayment ::
  "GameState \<Rightarrow> nat \<Rightarrow> nat \<Rightarrow> nat \<Rightarrow> ActionResponse \<Rightarrow> unit outcome" where
  "settlePayment st requiredAmount i j response =
     (let player = players st ! i;
          total = totalAssets player;
          ids = (case paymentCardIds response of Some l \<Rightarrow> l | None \<Rightarrow> []);
          paid = paymentValue player ids
      in if total > 0 \<and> paid < min requiredAmount total
         then (Inl (MustPayAtLeast (min requiredAmount total) paid), st)
         else andThen (payAll st i j ids) (\<lambda>st1. (Inr (), pruneEmpty i st1)))"

text \<open>\<^verbatim>\<open>cardIndex\<close> of the steal and swap effects: the named card if the identifier is
  truthy and found, else the last card; \<open>None\<close> is index \<^verbatim>\<open>-1\<close> on an empty set, where
  \<^verbatim>\<open>splice(-1, 1)[0]\<close> is \<^verbatim>\<open>undefined\<close>.\<close>

definition pickCard :: "string option \<Rightarrow> Card list \<Rightarrow> nat option" where
  "pickCard targetCardId cs =
     (case (case targetCardId of
              Some t \<Rightarrow> (if t \<noteq> [] then findIndex (\<lambda>c. card_id c = t) cs else None)
            | None \<Rightarrow> None) of
        Some idx \<Rightarrow> Some idx
      | None \<Rightarrow> (if cs = [] then None else Some (length cs - 1)))"

definition executeSlyDeal ::
  "GameState \<Rightarrow> nat \<Rightarrow> nat \<Rightarrow> PropertyColor option \<Rightarrow> string option \<Rightarrow> unit outcome" where
  "executeSlyDeal st j i targetColor targetCardId =
     (case targetColor of
        None \<Rightarrow> (Inr (), st)
      | Some tc \<Rightarrow>
         (case findIndex (\<lambda>s. color s = tc) (properties (players st ! i)) of
            None \<Rightarrow> (Inr (), st)
          | Some k \<Rightarrow>
             let s = properties (players st ! i) ! k in
             if isComplete s then (Inr (), st)
             else
               (case pickCard targetCardId (cards s) of
                  None \<Rightarrow> (Inr (), pruneEmpty i (modSet i k updatePropertySetCompletion st))
                | Some m \<Rightarrow>
                   let c = cards s ! m;
                       st1 = modSet i k (\<lambda>s. s\<lparr>cards := splice1 m (cards s)\<rparr>) st
                   in andThen
                        (if isPropertyCard c then playPropertyCard st1 j c (Some tc)
                         else (Inr (), st1))
                        (\<lambda>st2. (Inr (), pruneEmpty i (modSet i k updatePropertySetCompletion st2))))))"

text \<open>The give-back half of \<^verbatim>\<open>executeForcedDeal\<close>. It reassigns
  \<^verbatim>\<open>fromPlayer.properties\<close> to a filtered copy; when initiator and responder are the
  same participant this moves or drops the set \<^verbatim>\<open>targetSet\<close> still refers to, so the
  step returns where that set now sits in the responder's list (\<open>None\<close>: no longer in it).\<close>

definition forcedDealGive ::
  "GameState \<Rightarrow> nat \<Rightarrow> nat \<Rightarrow> nat \<Rightarrow> string option \<Rightarrow> PropertyColor option \<Rightarrow> (nat option) outcome" where
  "forcedDealGive st j i k giveId giveFrom =
     (case giveFrom of
        None \<Rightarrow> (Inr (Some k), st)
      | Some gf \<Rightarrow>
         if \<not> truthy giveId then (Inr (Some k), st)
         else
           (case findIndex (\<lambda>s. color s = gf) (properties (players st ! j)) of
              None \<Rightarrow> (Inr (Some k), st)
            | Some g \<Rightarrow>
               let gs = properties (players st ! j) ! g in
               if isComplete gs then (Inr (Some k), st)
               else
                 (case findIndex (\<lambda>c. Some (card_id c) = giveId) (cards gs) of
                    None \<Rightarrow> (Inr (Some k), st)
                  | Some m \<Rightarrow>
                     let given = cards gs ! m;
                         st1 = modSet j g (\<lambda>s. s\<lparr>cards := splice1 m (cards s)\<rparr>) st
                     in andThen
                          (if isPropertyCard given then playPropertyCard st1 i given (Some gf)
                           else (Inr (), st1))
                          (\<lambda>st2.
                             let st3 = modSet j g updatePropertySetCompletion st2;
                                 ps = properties (players st3 ! i);
                                 k' = (if i = j
                                       then (if length (cards (ps ! k)) > 0
                                             then Some (length (filter (\<lambda>s. length (cards s) > 0) (take k ps)))
                                             else None)
                                       else Some k)
                             in (Inr k', pruneEmpty j st3)))))"

definition executeForcedDeal ::
  "GameState \<Rightarrow> nat \<Rightarrow> nat \<Rightarrow> PropertyColor option \<Rightarrow> string option \<Rightarrow> string option
     \<Rightarrow> PropertyColor option \<Rightarrow> unit outcome" where
  "executeForcedDeal st j i targetColor targetCardId giveId giveFrom =
     (case targetColor of
        None \<Rightarrow> (Inr (), st)
      | Some tc \<Rightarrow>
         (case findIndex (\<lambda>s. color s = tc) (properties (players st ! i)) of
            None \<Rightarrow> (Inr (), st)
          | Some k \<Rightarrow>
             let s = properties (players st ! i) ! k in
             if isComplete s then (Inr (), st)
             else
               let taken = map_option (\<lambda>m. cards s ! m) (pickCard targetCardId (cards s));
                   st1 = (case pickCard targetCardId (cards s) of
                            None \<Rightarrow> st
                          | Some m \<Rightarrow> modSet i k (\<lambda>s. s\<lparr>cards := splice1 m (cards s)\<rparr>) st)
               in andThenWith (forcedDealGive st1 j i k giveId giveFrom)
                    (\<lambda>k' st2.
                       andThen
                         (case taken of
                            Some c \<Rightarrow> (if isPropertyCard c then playPropertyCard st2 j c (Some tc)
                                       else (Inr (), st2))
                          | None \<Rightarrow> (Inr (), st2))
                         (\<lambda>st3. (Inr (), pruneEmpty i
                                   (case k' of
                                      Some n \<Rightarrow> modSet i n updatePropertySetCompletion st3
                                    | None \<Rightarrow> st3))))))"

definition executeDealBreaker ::
  "GameState \<Rightarrow> nat \<Rightarrow> nat \<Rightarrow> PropertyColor option \<Rightarrow> GameState" where
  "executeDealBreaker st j i targetColor =
     (case targetColor of
        None \<Rightarrow> st
      | Some tc \<Rightarrow>
         (case findIndex (\<lambda>s. color s = tc) (properties (players st ! i)) of
            None \<Rightarrow> st
          | Some k \<Rightarrow>
             let s = properties (players st ! i) ! k;
                 st1 = modPlayer i (\<lambda>p. p\<lparr>properties := splice1 k (properties p)\<rparr>) st
             in modPlayer j (\<lambda>p. p\<lparr>properties := properties p @ [s]\<rparr>) st1))"

definition executeEffect ::
  "GameState \<Rightarrow> PendingAction \<Rightarrow> nat \<Rightarrow> nat \<Rightarrow> ActionResponse \<Rightarrow> unit outcome" where
  "executeEffect st pa j i response =
     (case pa_type pa of
        ByAction slyDeal \<Rightarrow> executeSlyDeal st j i (targetSet pa) (selectedCardId response)
      | ByAction forcedDeal \<Rightarrow>
          executeForcedDeal st j i (targetSet pa) (selectedCardId response)
                            (giveCardId pa) (giveFromSet pa)
      | ByAction dealBreaker \<Rightarrow> (Inr (), executeDealBreaker st j i (targetSet pa))
      | _ \<Rightarrow> (Inr (), st))"

definition finishResponse :: "nat \<Rightarrow> GameState \<Rightarrow> PendingAction \<Rightarrow> string \<Rightarrow> unit outcome" where
  "finishResponse now st pa playerId =
     (case respondedPlayers pa of
        Some rs \<Rightarrow>
          let rs' = rs @ [playerId];
              st1 = st\<lparr>pendingAction := Some (pa\<lparr>respondedPlayers := Some rs'\<rparr>)\<rparr>
          in if \<not> allResponded st1 pa rs' then (Inr (), st1\<lparr>updatedAt := now\<rparr>)
             else resolvePending now st1
      | None \<Rightarrow> resolvePending now st)"

definition respondToAction ::
  "nat \<Rightarrow> GameState \<Rightarrow> string \<Rightarrow> ActionResponse \<Rightarrow> unit outcome" where
  "respondToAction now st playerId response =
     (case pendingAction st of
        None \<Rightarrow> (Inl NoPendingAction, st)
      | Some pa \<Rightarrow>
         (case findPlayer st playerId of
            None \<Rightarrow> (Inl PlayerNotFound, st)
          | Some i \<Rightarrow>
             (case findPlayer st (fromPlayerId pa) of
                None \<Rightarrow> (Inl InitiatorNotFound, st)
              | Some j \<Rightarrow>
                 if (case respondedPlayers pa of Some rs \<Rightarrow> playerId \<in> set rs | None \<Rightarrow> False)
                 then (Inl AlreadyResponded, st)
                 else if useJustSayNo response = Some True
                 then respondJustSayNo now st pa i j playerId
                 else
                   andThen
                     (case amount pa of
                        Some a \<Rightarrow> (if accept response \<and> a \<noteq> 0
                                   then settlePayment st a i j response else (Inr (), st))
                      | None \<Rightarrow> (Inr (), st))
                     (\<lambda>st1. andThen
                        (if accept response \<and> respondedPlayers pa = None
                         then executeEffect st1 pa j i response else (Inr (), st1))
                        (\<lambda>st2. finishResponse now st2 pa playerId)))))"

section \<open>gameLogic.ts: ending the turn, rearranging, projecting\<close>

fun discardLoop :: "GameState \<Rightarrow> nat \<Rightarrow> string list \<Rightarrow> unit outcome" where
  "discardLoop st i [] = (Inr (), st)"
| "discardLoop st i (cardId # rest) =
     (case findIndex (\<lambda>c. card_id c = cardId) (hand (players st ! i)) of
        None \<Rightarrow> (Inl CardNotInHand, st)
      | Some k \<Rightarrow>
         let c = hand (players st ! i) ! k;
             st1 = modPlayer i (\<lambda>p. p\<lparr>hand := splice1 k (hand p)\<rparr>) st
         in discardLoop (st1\<lparr>discardPile := discardPile st1 @ [c]\<rparr>) i rest)"

text \<open>\<^verbatim>\<open>endTurn\<close> is reached only after a participant was found, so the list it takes
  the remainder by is not empty.\<close>

definition endTurn :: "GameState \<Rightarrow> GameState" where
  "endTurn st =
     st\<lparr>currentPlayerIndex := (currentPlayerIndex st + 1) mod length (players st),
        turnPhase := draw, actionsRemaining := 3, pendingAction := None\<rparr>"

definition discardCards :: "nat \<Rightarrow> GameState \<Rightarrow> string \<Rightarrow> string list \<Rightarrow> unit outcome" where
  "discardCards now st playerId cardIds =
     (case findPlayer st playerId of
        None \<Rightarrow> (Inl PlayerNotFound, st)
      | Some i \<Rightarrow>
         (case turnCheck st playerId of
            Some e \<Rightarrow> (Inl e, st)
          | None \<Rightarrow>
             if turnPhase st \<noteq> discard then (Inl NotInDiscardPhase, st)
             else
               let cardsToDiscard = int (length (hand (players st ! i))) - 7 in
               if int (length cardIds) \<noteq> cardsToDiscard
               then (Inl (MustDiscardExactly cardsToDiscard), st)
               else andThen (discardLoop st i cardIds)
                      (\<lambda>st1. (Inr (), (endTurn st1)\<lparr>updatedAt := now\<rparr>))))"

definition endTurnEarly :: "nat \<Rightarrow> GameState \<Rightarrow> string \<Rightarrow> unit outcome" where
  "endTurnEarly now st playerId =
     (case findPlayer st playerId of
        None \<Rightarrow> (Inl PlayerNotFound, st)
      | Some i \<Rightarrow>
         (case turnCheck st playerId of
            Some e \<Rightarrow> (Inl e, st)
          | None \<Rightarrow>
             if turnPhase st \<noteq> action \<and> turnPhase st \<noteq> finishing then (Inl CannotEndTurnNow, st)
             else if pendingAction st \<noteq> None then (Inl MustResolvePending, st)
             else if length (hand (players st ! i)) > 7
             then (Inr (), st\<lparr>turnPhase := discard, updatedAt := now\<rparr>)
             else (Inr (), (endTurn st)\<lparr>updatedAt := now\<rparr>)))"

definition rearrangeProperty ::
  "nat \<Rightarrow> GameState \<Rightarrow> string \<Rightarrow> string \<Rightarrow> PropertyColor \<Rightarrow> PropertyColor \<Rightarrow> unit outcome" where
  "rearrangeProperty now st playerId cardId fromColor toColor =
     (case findPlayer st playerId of
        None \<Rightarrow> (Inl PlayerNotFound, st)
      | Some i \<Rightarrow>
         (case turnCheck st playerId of
            Some e \<Rightarrow> (Inl e, st)
          | None \<Rightarrow>
             if turnPhase st \<noteq> action \<and> turnPhase st \<noteq> finishing then (Inl CannotRearrangeNow, st)
             else
               (case findIndex (\<lambda>s. color s = fromColor) (properties (players st ! i)) of
                  None \<Rightarrow> (Inl SourceSetNotFound, st)
                | Some f \<Rightarrow>
                   (case findIndex (\<lambda>c. card_id c = cardId) (cards (properties (players st ! i) ! f)) of
                      None \<Rightarrow> (Inl CardNotInSourceSet, st)
                    | Some m \<Rightarrow>
                       let c = cards (properties (players st ! i) ! f) ! m in
                       if \<not> isWildcard c then (Inl OnlyWildcards, st)
                       else if (case wildcardColors c of Some l \<Rightarrow> toColor \<notin> set l | None \<Rightarrow> False)
                       then (Inl WildcardCannotGoThere, st)
                       else
                         let st1 = modSet i f (\<lambda>s. updatePropertySetCompletion
                                                      (s\<lparr>cards := splice1 m (cards s)\<rparr>)) st;
                             st2 = (case findIndex (\<lambda>s. color s = toColor) (properties (players st1 ! i)) of
                                      Some t \<Rightarrow> modSet i t (\<lambda>s. updatePropertySetCompletion
                                                                 (s\<lparr>cards := cards s @ [c]\<rparr>)) st1
                                    | None \<Rightarrow> modPlayer i (\<lambda>p. p\<lparr>properties := properties p @
                                                 [updatePropertySetCompletion ((emptySet toColor)\<lparr>cards := [c]\<rparr>)]\<rparr>) st1);
                             st3 = checkWinner (pruneEmpty i st2)
                         in (Inr (), st3\<lparr>updatedAt := now\<rparr>)))))"

definition hiddenCard :: Card where
  "hiddenCard = \<lparr>card_id = ''hidden'', card_value = 0, face = Money\<rparr>"

definition getPublicGameState :: "GameState \<Rightarrow> string option \<Rightarrow> GameState" where
  "getPublicGameState st forPlayerId =
     st\<lparr>players :=
          map (\<lambda>p. p\<lparr>hand := (if Some (player_id p) = forPlayerId then hand p
                              else map (\<lambda>_. hiddenCard) (hand p))\<rparr>)
              (players st)\<rparr>"

section \<open>Notions the properties are stated with\<close>

text \<open>The number of cards \<^verbatim>\<open>calculateRent\<close> counts in a set.\<close>

definition qualifyingCount :: "PropertySet \<Rightarrow> nat" where
  "qualifyingCount s = length (filter (\<lambda>c. isPropertyCard c \<or> isWildcard c) (cards s))"

text \<open>Two states that differ at most in what the hands of the participants other than
  \<open>v\<close> hold, card for card.\<close>

definition sameButOtherHands :: "string \<Rightarrow> GameState \<Rightarrow> GameState \<Rightarrow> bool" where
  "sameButOtherHands v st st' =
     (st'\<lparr>players := players st\<rparr> = st \<and>
      list_all2 (\<lambda>p q. if player_id p = v then q = p
                        else q\<lparr>hand := hand p\<rparr> = p \<and> length (hand q) = length (hand p))
                (players st) (players st'))"

definition countFaces :: "(CardFace \<Rightarrow> bool) \<Rightarrow> Card list \<Rightarrow> nat" where
  "countFaces P cs = length (filter (\<lambda>c. P (face c)) cs)"

definition plainProperty :: "CardFace \<Rightarrow> bool" where
  "plainProperty f = (case f of Property _ w _ \<Rightarrow> \<not> w | _ \<Rightarrow> False)"

definition wildProperty :: "CardFace \<Rightarrow> bool" where
  "wildProperty f = (case f of Property _ w _ \<Rightarrow> w | _ \<Rightarrow> False)"

definition anyAction :: "CardFace \<Rightarrow> bool" where
  "anyAction f = (case f of Action _ \<Rightarrow> True | _ \<Rightarrow> False)"

definition anyRent :: "CardFace \<Rightarrow> bool" where
  "anyRent f = (case f of Rent _ _ \<Rightarrow> True | _ \<Rightarrow> False)"

definition wildRent :: "CardFace \<Rightarrow> bool" where
  "wildRent f = (case f of Rent _ w \<Rightarrow> w | _ \<Rightarrow> False)"

subsection \<open>Small concrete tables\<close>

definition money :: "string \<Rightarrow> nat \<Rightarrow> Card" where
  "money i v = \<lparr>card_id = i, card_value = v, face = Money\<rparr>"

definition street :: "string \<Rightarrow> PropertyColor \<Rightarrow> nat \<Rightarrow> Card" where
  "street i c v = \<lparr>card_id = i, card_value = v, face = Property c False None\<rparr>"

definition act :: "string \<Rightarrow> ActionType \<Rightarrow> nat \<Rightarrow> Card" where
  "act i a v = \<lparr>card_id = i, card_value = v, face = Action a\<rparr>"

definition mkSet :: "PropertyColor \<Rightarrow> Card list \<Rightarrow> bool \<Rightarrow> bool \<Rightarrow> bool \<Rightarrow> PropertySet" where
  "mkSet c cs h t f = \<lparr>color = c, cards = cs, hasHouse = h, hasHotel = t, isComplete = f\<rparr>"

definition mkPlayer :: "string \<Rightarrow> Card list \<Rightarrow> PropertySet list \<Rightarrow> Card list \<Rightarrow> Player" where
  "mkPlayer i h ps b =
     \<lparr>player_id = i, player_name = i, hand = h, properties = ps, bank = b,
      isConnected = True, socketId = None\<rparr>"

definition mkState ::
  "Player list \<Rightarrow> nat \<Rightarrow> TurnPhase \<Rightarrow> int \<Rightarrow> PendingAction option \<Rightarrow> GameState" where
  "mkState ps idx tp n pa =
     \<lparr>game_id = ''g'', roomCode = ''room'', players = ps, currentPlayerIndex = idx,
      deck = [], discardPile = [], phase = playing, turnPhase = tp, actionsRemaining = n,
      pendingAction = pa, winner = None, createdAt = 0, updatedAt = 0\<rparr>"

text \<open>A lobby of three participants on a fresh game.\<close>

definition lobby3 :: "nat \<Rightarrow> (nat \<Rightarrow> string) \<Rightarrow> (nat \<Rightarrow> nat) \<Rightarrow> GameState" where
  "lobby3 now uuid r =
     snd (addPlayer now ''p3''
       (snd (addPlayer now ''p2''
         (snd (addPlayer now ''p1'' (createGameState now ''g'' uuid r ''room'') ''A'' ''s1''))
        ''B'' ''s2''))
      ''C'' ''s3'')"

text \<open>One lightBlue street alone; both brown streets with house and hotel.\<close>

definition oneLightBlue :: PropertySet where
  "oneLightBlue = mkSet lightBlue [street ''o1'' lightBlue 1] False False False"

definition brownStacked :: PropertySet where
  "brownStacked =
     mkSet brown [street ''b1'' brown 1, street ''b2'' brown 1, act ''h1'' house 3, act ''h2'' hotel 4]
           True True True"

text \<open>Two tables that differ in the card B holds.\<close>

definition viewTable :: "Card \<Rightarrow> GameState" where
  "viewTable c =
     mkState [mkPlayer ''A'' [money ''m1'' 1] [] [], mkPlayer ''B'' [c] [] []] 0 action 3 None"

text \<open>The turn phase every resolving path chooses once the pending action is gone.\<close>

definition nextPhase :: "GameState \<Rightarrow> TurnPhase" where
  "nextPhase st =
     (if actionsRemaining st \<le> 0
      then (if length (hand (players st ! currentPlayerIndex st)) > 7 then discard else finishing)
      else action)"

text \<open>The refusal cards in all hands, a response that plays one, and the number of
  responses that succeed when the listed participants refuse one after the other.\<close>

definition refusalCards :: "GameState \<Rightarrow> nat" where
  "refusalCards st =
     sum_list (map (\<lambda>p. length (filter (isActionCard justSayNo) (hand p))) (players st))"

definition refuse :: ActionResponse where
  "refuse = \<lparr>accept = False, useJustSayNo = Some True, paymentCardIds = None, selectedCardId = None\<rparr>"

fun refusalChain :: "nat \<Rightarrow> GameState \<Rightarrow> string list \<Rightarrow> nat" where
  "refusalChain now st [] = 0"
| "refusalChain now st (p # ps) =
     (case respondToAction now st p refuse of
        (Inl e, st') \<Rightarrow> 0
      | (Inr u, st') \<Rightarrow> Suc (refusalChain now st' ps))"

text \<open>The state once the refusal card at position \<open>k\<close> of participant \<open>i\<close>'s hand has
  gone to the discard pile.\<close>

definition discardRefusal :: "nat \<Rightarrow> nat \<Rightarrow> GameState \<Rightarrow> GameState" where
  "discardRefusal i k st =
     (modPlayer i (\<lambda>p. p\<lparr>hand := splice1 k (hand p)\<rparr>) st)
       \<lparr>discardPile := discardPile st @ [hand (players st ! i) ! k]\<rparr>"

text \<open>A has played a debt collector on B, who holds 2 in the bank and a 1-value
  street; \<open>debtTable\<close> gives A's and B's hands.\<close>

definition debtPending :: PendingAction where
  "debtPending =
     (newPending (ByAction debtCollector) ''A'' (act ''d1'' debtCollector 3))
       \<lparr>toPlayerId := Some ''B'', amount := Some 5\<rparr>"

definition debtTable :: "Card list \<Rightarrow> Card list \<Rightarrow> GameState" where
  "debtTable ha hb =
     mkState [mkPlayer ''A'' ha [] [],
              mkPlayer ''B'' hb [mkSet lightBlue [street ''o1'' lightBlue 1] False False False]
                       [money ''m2'' 2]]
             0 responding 2 (Some debtPending)"

definition declineAll :: ActionResponse where
  "declineAll = \<lparr>accept = False, useJustSayNo = None, paymentCardIds = None, selectedCardId = None\<rparr>"

definition acceptAll :: ActionResponse where
  "acceptAll = \<lparr>accept = True, useJustSayNo = None, paymentCardIds = None, selectedCardId = None\<rparr>"

definition payWith :: "string list \<Rightarrow> ActionResponse" where
  "payWith ids = \<lparr>accept = True, useJustSayNo = None, paymentCardIds = Some ids, selectedCardId = None\<rparr>"

text \<open>A owns the complete brown and dark blue sets and has played a deal breaker on
  B's complete utility set.\<close>

definition brownSet :: PropertySet where
  "brownSet = mkSet brown [street ''b1'' brown 1, street ''b2'' brown 1] False False True"

definition darkBlueSet :: PropertySet where
  "darkBlueSet = mkSet darkBlue [street ''k1'' darkBlue 4, street ''k2'' darkBlue 4] False False True"

definition utilitySet :: PropertySet where
  "utilitySet = mkSet utility [street ''u1'' utility 2, street ''u2'' utility 2] False False True"

definition stealTable :: GameState where
  "stealTable =
     mkState [mkPlayer ''A'' [] [brownSet, darkBlueSet] [], mkPlayer ''B'' [] [utilitySet] []]
             0 responding 2
             (Some ((newPending (ByAction dealBreaker) ''A'' (act ''x1'' dealBreaker 5))
                      \<lparr>toPlayerId := Some ''B'', targetSet := Some utility\<rparr>))"

text \<open>A owns the complete brown and dark blue sets and one utility; B, who owes A 5
  after a debt collector, holds the other utility and nothing else.\<close>

definition rentTable :: GameState where
  "rentTable =
     mkState [mkPlayer ''A'' []
                [brownSet, darkBlueSet, mkSet utility [street ''u1'' utility 2] False False False] [],
              mkPlayer ''B'' [] [mkSet utility [street ''u2'' utility 2] False False False] []]
             0 responding 2 (Some debtPending)"

text \<open>A, to move with three actions left, holds a refusal card, a double-rent card and
  a coin.\<close>

definition actionTable :: GameState where
  "actionTable =
     mkState [mkPlayer ''A'' [act ''j1'' justSayNo 4, act ''r1'' doubleRent 1, money ''m1'' 1] [] [],
              mkPlayer ''B'' [] [] []]
             0 action 3 None"

text \<open>A, to move, holds a debt collector only.\<close>

definition collectorTable :: GameState where
  "collectorTable =
     mkState [mkPlayer ''A'' [act ''d1'' debtCollector 3] [] [], mkPlayer ''B'' [] [] []]
             0 action 3 None"

section \<open>The exported operations as one transition function\<close>

text \<open>One constructor per exported operation that takes a state, with the arguments of
  the call and what the call draws from \<^verbatim>\<open>uuidv4\<close> and \<^verbatim>\<open>Math.random\<close>. \<open>perform\<close> is
  the state the caller holds after the call, whether it returned or threw.\<close>

datatype Operation =
    AddPlayer string string string
  | RemovePlayer string
  | StartGame "nat \<Rightarrow> string" "nat \<Rightarrow> nat"
  | DrawCards "nat \<Rightarrow> nat" string
  | PlayCard "nat \<Rightarrow> nat" string string "PlayCardTarget option"
  | RespondToAction string ActionResponse
  | DiscardCards string "string list"
  | EndTurnEarly string
  | RearrangeProperty string string PropertyColor PropertyColor

fun perform :: "nat \<Rightarrow> Operation \<Rightarrow> GameState \<Rightarrow> GameState" where
  "perform now (AddPlayer pid name sock) st = snd (addPlayer now pid st name sock)"
| "perform now (RemovePlayer p) st = removePlayer now st p"
| "perform now (StartGame uuid r) st = snd (startGame now uuid r st)"
| "perform now (DrawCards r p) st = snd (drawCards now r st p)"
| "perform now (PlayCard r p c target) st = snd (playCard now r st p c target)"
| "perform now (RespondToAction p response) st = snd (respondToAction now st p response)"
| "perform now (DiscardCards p ids) st = snd (discardCards now st p ids)"
| "perform now (EndTurnEarly p) st = snd (endTurnEarly now st p)"
| "perform now (RearrangeProperty p c fromColor toColor) st =
     snd (rearrangeProperty now st p c fromColor toColor)"

definition endsTurn :: "Operation \<Rightarrow> bool" where
  "endsTurn op = (case op of DiscardCards _ _ \<Rightarrow> True | EndTurnEarly _ \<Rightarrow> True | _ \<Rightarrow> False)"

definition resetsTurn :: "Operation \<Rightarrow> bool" where
  "resetsTurn op = (case op of RemovePlayer _ \<Rightarrow> True | StartGame _ _ \<Rightarrow> True | _ \<Rightarrow> False)"

text \<open>The fields that the helpers moving cards between participants leave alone.\<close>

definition ctl :: "GameState \<Rightarrow> nat \<times> TurnPhase \<times> PendingAction option \<times> nat \<times> int" where
  "ctl st = (currentPlayerIndex st, turnPhase st, pendingAction st, length (players st),
             actionsRemaining st)"

text \<open>Three participants, B to move; and the same table with C to move.\<close>

definition turnTable :: "nat \<Rightarrow> GameState" where
  "turnTable idx =
     mkState [mkPlayer ''A'' [] [] [], mkPlayer ''B'' [money ''m1'' 1] [] [],
              mkPlayer ''C'' [] [] []] idx action 3 None"

text \<open>Identifiers and a random run for concrete calls: every card gets the identifier
  \<open>''u''\<close>, and every round of the shuffle swaps a position with itself.\<close>

definition fixedIds :: "nat \<Rightarrow> string" where
  "fixedIds k = ''u''"

definition noShuffle :: "nat \<Rightarrow> nat" where
  "noShuffle i = i"

text \<open>The pending action exists exactly in the responding phase, and the turn index
  points at a participant (or is 0 while there is none).\<close>

definition coherent :: "GameState \<Rightarrow> bool" where
  "coherent st =
     (((pendingAction st \<noteq> None) = (turnPhase st = responding))
      \<and> (currentPlayerIndex st < length (players st) \<or> currentPlayerIndex st = 0))"

definition restartsWhilePending :: "Operation \<Rightarrow> GameState \<Rightarrow> bool" where
  "restartsWhilePending op st =
     (case op of StartGame _ _ \<Rightarrow> pendingAction st \<noteq> None | _ \<Rightarrow> False)"

text \<open>What a participant can pay with, the colour printed on a property card, and the
  condition under which \<^verbatim>\<open>playPropertyCard\<close> accepts a card on its own colour (every
  card of \<^verbatim>\<open>createDeck\<close> meets it).\<close>

definition holdings :: "Player \<Rightarrow> Card list" where
  "holdings p = bank p @ allSetCards p"

definition cardColor :: "Card \<Rightarrow> PropertyColor option" where
  "cardColor c = (case face c of Property col _ _ \<Rightarrow> Some col | _ \<Rightarrow> None)"

definition ownColourLegal :: "Card \<Rightarrow> bool" where
  "ownColourLegal c =
     (case face c of
        Property col w wcs \<Rightarrow> \<not> (w \<and> (case wcs of Some l \<Rightarrow> col \<notin> set l | None \<Rightarrow> False))
      | _ \<Rightarrow> True)"

definition offeredIds :: "ActionResponse \<Rightarrow> string list" where
  "offeredIds response = (case paymentCardIds response of Some l \<Rightarrow> l | None \<Rightarrow> [])"

text \<open>The pending actions that the source creates with an amount.\<close>

definition paymentAction :: "PendingAction \<Rightarrow> bool" where
  "paymentAction pa = (pa_type pa \<in> {ByAction birthday, ByAction debtCollector, ByRent})"

text \<open>Participant \<open>q'\<close> holds at least what \<open>q\<close> holds, bank and sets colour by colour.\<close>

definition grows :: "Player \<Rightarrow> Player \<Rightarrow> bool" where
  "grows q q' =
     (set (bank q) \<subseteq> set (bank q') \<and>
      (\<forall>s \<in> set (properties q). \<exists>s' \<in> set (properties q').
          color s' = color s \<and> set (cards s) \<subseteq> set (cards s')))"

text \<open>Card \<open>c\<close> lies in a property set of participant \<open>q\<close> whose colour is the one
  printed on the card.\<close>

definition landed :: "Player \<Rightarrow> Card \<Rightarrow> bool" where
  "landed q c = (\<exists>s \<in> set (properties q). Some (color s) = cardColor c \<and> c \<in> set (cards s))"

text \<open>The worth of the cards a participant owns that a list of identifiers names.\<close>

definition offeredWorth :: "Player \<Rightarrow> string list \<Rightarrow> nat" where
  "offeredWorth p ids =
     sum_list (map card_value (filter (\<lambda>c. card_id c \<in> set ids) (holdings p)))"

text \<open>B owes A 5 and holds 3 and 4 in the bank.\<close>

definition richDebtTable :: GameState where
  "richDebtTable =
     mkState [mkPlayer ''A'' [] [] [],
              mkPlayer ''B'' [] [] [money ''m3'' 3, money ''m4'' 4]]
             0 responding 2 (Some debtPending)"

section \<open>States reachable through the exported operations\<close>

inductive reachable :: "GameState \<Rightarrow> bool" where
  created: "reachable (createGameState now gid uuid r room)"
| performed: "reachable st \<Longrightarrow> reachable (perform now op st)"

text \<open>The same, without any \<^verbatim>\<open>startGame\<close> while an action is pending.\<close>

inductive reachableCalmly :: "GameState \<Rightarrow> bool" where
  created: "reachableCalmly (createGameState now gid uuid r room)"
| performed: "reachableCalmly st \<Longrightarrow> \<not> restartsWhilePending op st \<Longrightarrow>
              reachableCalmly (perform now op st)"

text \<open>A match of two, with card identifiers that differ from card to card: the shuffle
  of the first start swaps the top card (position 104) with the first birthday card
  (position 72) and nothing else, so A is dealt the birthday card first; A draws, plays
  it, and the host starts the match again.\<close>

definition topBirthday :: "nat \<Rightarrow> nat" where
  "topBirthday i = (if i = 104 then 72 else i)"

definition serialIds :: "nat \<Rightarrow> string" where
  "serialIds k = replicate k (CHR ''i'')"

definition lobbyOfTwo :: GameState where
  "lobbyOfTwo =
     perform 2 (AddPlayer ''B'' ''Bob'' ''s2'')
       (perform 1 (AddPlayer ''A'' ''Ann'' ''s1'')
          (createGameState 0 ''g'' serialIds noShuffle ''room''))"

definition matchOfTwo :: GameState where
  "matchOfTwo = perform 3 (StartGame serialIds topBirthday) lobbyOfTwo"

definition birthdayPlayed :: GameState where
  "birthdayPlayed =
     perform 5 (PlayCard noShuffle ''A'' (serialIds 72) None)
       (perform 4 (DrawCards noShuffle ''A'') matchOfTwo)"

definition restarted :: GameState where
  "restarted = perform 6 (StartGame serialIds noShuffle) birthdayPlayed"

text \<open>Whether the call returns normally rather than throwing. \<^verbatim>\<open>addPlayer\<close> and
  \<^verbatim>\<open>removePlayer\<close> have no \<^verbatim>\<open>throw\<close>.\<close>

fun returns :: "nat \<Rightarrow> Operation \<Rightarrow> GameState \<Rightarrow> bool" where
  "returns now (AddPlayer pid name sock) st = True"
| "returns now (RemovePlayer p) st = True"
| "returns now (StartGame uuid r) st = (fst (startGame now uuid r st) = Inr ())"
| "returns now (DrawCards r p) st = (\<not> isl (fst (drawCards now r st p)))"
| "returns now (PlayCard r p c target) st = (fst (playCard now r st p c target) = Inr ())"
| "returns now (RespondToAction p response) st = (fst (respondToAction now st p response) = Inr ())"
| "returns now (DiscardCards p ids) st = (fst (discardCards now st p ids) = Inr ())"
| "returns now (EndTurnEarly p) st = (fst (endTurnEarly now st p) = Inr ())"
| "returns now (RearrangeProperty p c fromColor toColor) st =
     (fst (rearrangeProperty now st p c fromColor toColor) = Inr ())"

text \<open>B owes A 5 and owns the three green streets with a house on them; the same set
  once the three streets are gone.\<close>

definition greenWithHouse :: PropertySet where
  "greenWithHouse =
     mkSet green [street ''g1'' green 4, street ''g2'' green 4, street ''g3'' green 4,
                  act ''h1'' house 3] True False True"

definition houseAlone :: PropertySet where
  "houseAlone = mkSet green [act ''h1'' house 3] True False False"

definition houseTable :: GameState where
  "houseTable =
     mkState [mkPlayer ''A'' [] [] [], mkPlayer ''B'' [] [greenWithHouse] []]
             0 responding 2 (Some debtPending)"

text \<open>A, to move in the discard phase, holds eight coins.\<close>

definition discardTable :: GameState where
  "discardTable =
     mkState [mkPlayer ''A'' [money ''c1'' 1, money ''c2'' 1, money ''c3'' 1, money ''c4'' 1,
                             money ''c5'' 1, money ''c6'' 1, money ''c7'' 1, money ''c8'' 1] [] [],
              mkPlayer ''B'' [] [] []]
             0 discard 0 None"

text \<open>What a property set records besides its completeness flag, and a list of cards
  without those that a list of identifiers names.\<close>

definition ledger :: "PropertySet \<Rightarrow> PropertyColor \<times> Card list \<times> bool \<times> bool" where
  "ledger s = (color s, cards s, hasHouse s, hasHotel s)"

definition without :: "string list \<Rightarrow> Card list \<Rightarrow> Card list" where
  "without ids cs = filter (\<lambda>c. card_id c \<notin> set ids) cs"

section \<open>Card catalog\<close>

lemma length_shuffleLoop: "length (shuffleLoop r n xs) = length xs"
  by (induction r n xs rule: shuffleLoop.induct) (auto simp: Let_def)

lemma length_shuffleDeck: "length (shuffleDeck r xs) = length xs"
  by (simp add: shuffleDeck_def length_shuffleLoop)

lemma length_deckFaces: "length deckFaces = 105"
  by (simp add: deckFaces_def)

lemma length_createDeck: "length (createDeck uuid) = 105"
  by (simp add: createDeck_def length_deckFaces)

lemma countFaces_createDeck:
  "countFaces P (createDeck uuid) = length (filter (\<lambda>(v, f). P f) deckFaces)"
proof -
  have "length (filter (\<lambda>c. P (face c))
          (map (\<lambda>(k, (v, f)). \<lparr>card_id = uuid k, card_value = v, face = f\<rparr>) (enumerate n xs)))
        = length (filter (\<lambda>(v, f). P f) xs)" for xs n
    by (induction xs arbitrary: n) auto
  then show ?thesis by (simp add: countFaces_def createDeck_def)
qed

lemmas face_defs =
  deckFaces_def createPropertyCard_def createWildcard_def createMoneyCard_def
  createActionCard_def createRentCard_def plainProperty_def wildProperty_def anyAction_def
  anyRent_def wildRent_def

lemma deck_composition:
  "countFaces plainProperty (createDeck uuid) = 28"
  "countFaces wildProperty (createDeck uuid) = 9"
  "countFaces (\<lambda>f. f = Property railroad True (Some allColors)) (createDeck uuid) = 2"
  "countFaces (\<lambda>f. f = Money) (createDeck uuid) = 20"
  "countFaces anyAction (createDeck uuid) = 35"
  "countFaces anyRent (createDeck uuid) = 13"
  "countFaces wildRent (createDeck uuid) = 3"
  unfolding countFaces_createDeck by (simp_all add: face_defs)

lemma modPlayer_fields:
  "deck (modPlayer i f st) = deck st"
  "length (players (modPlayer i f st)) = length (players st)"
  "players (modPlayer i f st) = (players st)[i := f (players st ! i)]"
  by (simp_all add: modPlayer_def)

lemma dealHand_deck: "length (deck (dealHand n i st)) = length (deck st) - n"
  by (induction n arbitrary: st) (auto simp: pop_def modPlayer_fields)

lemma dealHand_players_length: "length (players (dealHand n i st)) = length (players st)"
  by (induction n arbitrary: st) (auto simp: pop_def modPlayer_fields split: option.splits)

lemma dealHand_hand:
  "i < length (players st) \<Longrightarrow> n \<le> length (deck st) \<Longrightarrow>
   length (hand (players (dealHand n i st) ! i)) = length (hand (players st ! i)) + n"
proof (induction n arbitrary: st)
  case 0
  then show ?case by simp
next
  case (Suc n)
  then have ne: "deck st \<noteq> []" by auto
  let ?st = "modPlayer i (\<lambda>p. p\<lparr>hand := hand p @ [last (deck st)]\<rparr>) (st\<lparr>deck := butlast (deck st)\<rparr>)"
  have "length (hand (players (dealHand n i ?st) ! i)) = length (hand (players ?st ! i)) + n"
    using Suc.prems by (intro Suc.IH) (simp_all add: modPlayer_fields)
  then show ?case using ne Suc.prems by (simp add: pop_def modPlayer_fields)
qed

lemma dealHand_other: "k \<noteq> i \<Longrightarrow> players (dealHand n i st) ! k = players st ! k"
  by (induction n arbitrary: st) (auto simp: pop_def modPlayer_fields)

lemma dealPlayer_deck: "length (deck (dealPlayer s i)) = length (deck s) - 5"
  by (simp add: dealPlayer_def dealHand_deck modPlayer_fields)

lemma dealPlayer_players_length: "length (players (dealPlayer s i)) = length (players s)"
  by (simp add: dealPlayer_def dealHand_players_length modPlayer_fields)

lemma dealPlayer_hand:
  "i < length (players s) \<Longrightarrow> 5 \<le> length (deck s) \<Longrightarrow>
   length (hand (players (dealPlayer s i) ! i)) = 5"
  unfolding dealPlayer_def
  by (subst dealHand_hand) (simp_all add: modPlayer_fields)

lemma dealPlayer_other: "k \<noteq> i \<Longrightarrow> players (dealPlayer s i) ! k = players s ! k"
  by (simp add: dealPlayer_def dealHand_other modPlayer_fields)

lemma upt_three: "[0..<3] = [0, 1, (2::nat)]"
  by (simp add: upt_rec)

lemma list_of_three: "xs = [xs ! 0, xs ! 1, xs ! 2]" if "length xs = 3"
proof -
  from that obtain a b c where "xs = [a, b, c]"
    by (auto simp: numeral_3_eq_3 length_Suc_conv)
  then show ?thesis by simp
qed

lemma startGame_three:
  assumes "length (players st) = 3"
  shows "fst (startGame now uuid r st) = Inr ()"
    and "length (deck (snd (startGame now uuid r st))) = 90"
    and "map (\<lambda>p. length (hand p)) (players (snd (startGame now uuid r st))) = [5, 5, 5]"
proof -
  define st1 where "st1 = st\<lparr>deck := shuffleDeck r (createDeck uuid), discardPile := [],
                     phase := playing, turnPhase := draw, currentPlayerIndex := 0,
                     actionsRemaining := 3\<rparr>"
  define a where "a = dealPlayer st1 0"
  define b where "b = dealPlayer a 1"
  define c where "c = dealPlayer b 2"
  have l1: "length (players st1) = 3" "length (deck st1) = 105"
    using assms by (simp_all add: st1_def length_shuffleDeck length_createDeck)
  have sg: "startGame now uuid r st = (Inr (), c\<lparr>updatedAt := now\<rparr>)"
    using assms l1 unfolding startGame_def Let_def st1_def[symmetric]
    by (simp add: upt_three a_def b_def c_def)
  have la: "length (players a) = 3" "length (deck a) = 100"
    using l1 by (simp_all add: a_def dealPlayer_players_length dealPlayer_deck)
  have lb: "length (players b) = 3" "length (deck b) = 95"
    using la by (simp_all add: b_def dealPlayer_players_length dealPlayer_deck)
  have lc: "length (players c) = 3" "length (deck c) = 90"
    using lb by (simp_all add: c_def dealPlayer_players_length dealPlayer_deck)
  have ha: "length (hand (players a ! 0)) = 5"
    unfolding a_def using l1 by (intro dealPlayer_hand) simp_all
  have hb: "length (hand (players b ! 1)) = 5"
    unfolding b_def using la by (intro dealPlayer_hand) simp_all
  have hc: "length (hand (players c ! 2)) = 5"
    unfolding c_def using lb by (intro dealPlayer_hand) simp_all
  have hb0: "players b ! 0 = players a ! 0"
    by (simp add: b_def dealPlayer_other)
  have hc1: "players c ! 1 = players b ! 1" and hc0: "players c ! 0 = players b ! 0"
    by (simp_all add: c_def dealPlayer_other)
  show "fst (startGame now uuid r st) = Inr ()" by (simp add: sg)
  show "length (deck (snd (startGame now uuid r st))) = 90" using lc by (simp add: sg)
  have "map (\<lambda>p. length (hand p)) [players c ! 0, players c ! 1, players c ! 2] = [5, 5, 5]"
    unfolding list.map hc hc1 hb hc0 hb0 ha ..
  then have "map (\<lambda>p. length (hand p)) (players c) = [5, 5, 5]"
    unfolding list_of_three[OF lc(1), symmetric] .
  then show "map (\<lambda>p. length (hand p)) (players (snd (startGame now uuid r st))) = [5, 5, 5]"
    by (simp add: sg)
qed

lemma lobby3_players: "length (players (lobby3 now uuid r)) = 3"
  by (simp add: lobby3_def addPlayer_def createGameState_def Let_def)

text \<open>
  C4. \<^verbatim>\<open>createDeck\<close> pushes 105 cards, not 110: 28 plain properties, 9 property
  wildcards (two of them unrestricted) where its own comment announces 11, 20 money
  cards, 35 action cards where its comment announces 34, and 13 rent cards (three of
  them wild). Starting a match of three participants therefore deals 15 cards and
  leaves 90 in the draw pile.
\<close>

theorem createDeck_pushes_105_cards:
  "length (createDeck uuid) = 105
   \<and> countFaces plainProperty (createDeck uuid) = 28
   \<and> countFaces wildProperty (createDeck uuid) = 9
   \<and> countFaces (\<lambda>f. f = Property railroad True (Some allColors)) (createDeck uuid) = 2
   \<and> countFaces (\<lambda>f. f = Money) (createDeck uuid) = 20
   \<and> countFaces anyAction (createDeck uuid) = 35
   \<and> countFaces anyRent (createDeck uuid) = 13
   \<and> countFaces wildRent (createDeck uuid) = 3
   \<and> fst (startGame now uuid r (lobby3 now uuid r)) = Inr ()
   \<and> map (\<lambda>p. length (hand p)) (players (snd (startGame now uuid r (lobby3 now uuid r)))) = [5, 5, 5]
   \<and> length (deck (snd (startGame now uuid r (lobby3 now uuid r)))) = 90"
  using startGame_three[OF lobby3_players, of now uuid r]
  by (simp add: length_createDeck deck_composition)

section \<open>Rent\<close>

lemma RENT_VALUES_length: "length (RENT_VALUES c) = PROPERTY_SET_REQUIREMENTS c"
  by (cases c) simp_all

lemma calculateRent_counted:
  assumes "1 \<le> qualifyingCount s"
  shows "calculateRent s =
           RENT_VALUES (color s) ! min (qualifyingCount s - 1) (length (RENT_VALUES (color s)) - 1)
           + ((if hasHouse s then 3 else 0) + (if hasHotel s then 4 else 0))"
proof -
  let ?t = "RENT_VALUES (color s)"
  let ?n = "qualifyingCount s"
  have len: "0 < length ?t" by (cases "color s") simp_all
  have "\<And>n l::nat. 1 \<le> n \<Longrightarrow> 0 < l \<Longrightarrow> min (int n - 1) (int l - 1) = int (min (n - 1) (l - 1))"
    by linarith
  from this[OF assms len]
  have idx: "min (int ?n - 1) (int (length ?t) - 1) = int (min (?n - 1) (length ?t - 1))" .
  have lt: "min (?n - 1) (length ?t - 1) < length ?t" using len by linarith
  show ?thesis
    unfolding calculateRent_def Let_def qualifyingCount_def[symmetric] idx
    using lt by simp
qed

lemma calculateRent_bare:
  assumes "qualifyingCount s = 0"
  shows "calculateRent s = (if hasHouse s then 3 else 0) + (if hasHotel s then 4 else 0)"
  using assms unfolding calculateRent_def Let_def qualifyingCount_def[symmetric] by simp

text \<open>
  C8 (amended). The rent of a property set is a base plus 3 for a house and plus 4 for a
  hotel. For a set that holds at least one qualifying card the base is the entry of the
  colour's table at index count - 1, clamped to the last index; for a set that holds
  none it is 0. A colour that needs three cards and holds one, without modifiers, yields
  the first entry; a set with at least the required number of cards, a house and a
  hotel yields the last entry + 3 + 4.
\<close>

theorem rent_table_lookup:
  "calculateRent s =
      (if qualifyingCount s = 0 then 0
       else RENT_VALUES (color s) ! min (qualifyingCount s - 1) (length (RENT_VALUES (color s)) - 1))
      + (if hasHouse s then 3 else 0) + (if hasHotel s then 4 else 0)
   \<and> (PROPERTY_SET_REQUIREMENTS (color s) = 3 \<and> qualifyingCount s = 1
        \<and> \<not> hasHouse s \<and> \<not> hasHotel s \<longrightarrow>
      calculateRent s = hd (RENT_VALUES (color s)))
   \<and> (PROPERTY_SET_REQUIREMENTS (color s) \<le> qualifyingCount s \<and> hasHouse s \<and> hasHotel s \<longrightarrow>
      calculateRent s = last (RENT_VALUES (color s)) + 3 + 4)"
proof (intro conjI impI)
  show "calculateRent s =
      (if qualifyingCount s = 0 then 0
       else RENT_VALUES (color s) ! min (qualifyingCount s - 1) (length (RENT_VALUES (color s)) - 1))
      + (if hasHouse s then 3 else 0) + (if hasHotel s then 4 else 0)"
  proof (cases "qualifyingCount s = 0")
    case True
    then show ?thesis using calculateRent_bare[OF True] by simp
  next
    case False
    then have "1 \<le> qualifyingCount s" by simp
    from calculateRent_counted[OF this] False show ?thesis by simp
  qed
next
  assume a: "PROPERTY_SET_REQUIREMENTS (color s) = 3 \<and> qualifyingCount s = 1
              \<and> \<not> hasHouse s \<and> \<not> hasHotel s"
  then have "1 \<le> qualifyingCount s" by simp
  from calculateRent_counted[OF this] a
  have "calculateRent s = RENT_VALUES (color s) ! 0"
    by simp
  moreover have "RENT_VALUES (color s) \<noteq> []" by (cases "color s") simp_all
  ultimately show "calculateRent s = hd (RENT_VALUES (color s))"
    by (simp add: hd_conv_nth)
next
  assume a: "PROPERTY_SET_REQUIREMENTS (color s) \<le> qualifyingCount s \<and> hasHouse s \<and> hasHotel s"
  have pos: "0 < PROPERTY_SET_REQUIREMENTS (color s)" by (cases "color s") simp_all
  have ne: "RENT_VALUES (color s) \<noteq> []" by (cases "color s") simp_all
  from a pos have one: "1 \<le> qualifyingCount s" by simp
  have "min (qualifyingCount s - 1) (length (RENT_VALUES (color s)) - 1)
          = length (RENT_VALUES (color s)) - 1"
    using a unfolding RENT_VALUES_length by linarith
  with calculateRent_counted[OF one] a ne
  show "calculateRent s = last (RENT_VALUES (color s)) + 3 + 4"
    by (simp add: last_conv_nth)
qed

lemmas table_defs =
  money_def street_def act_def mkSet_def mkPlayer_def mkState_def
  isPropertyCard_def isWildcard_def isActionCard_def qualifyingCount_def

lemmas respond_defs =
  respondToAction_def andThen_def settlePayment_def payOne_def playPropertyCard_def
  executeEffect_def executeDealBreaker_def finishResponse_def resolvePending_def
  pruneEmpty_def modSet_def modPlayer_def splice1_def findPlayer_def totalAssets_def
  allSetCards_def paymentValue_def offeredValue_def find_js_def updatePropertySetCompletion_def
  emptySet_def newPending_def checkWinner_def Let_def

theorem rent_table_lookup_witness:
  "PROPERTY_SET_REQUIREMENTS (color oneLightBlue) = 3 \<and> qualifyingCount oneLightBlue = 1
   \<and> calculateRent oneLightBlue = 1
   \<and> PROPERTY_SET_REQUIREMENTS (color brownStacked) \<le> qualifyingCount brownStacked
   \<and> calculateRent brownStacked = 2 + 3 + 4
   \<and> qualifyingCount houseAlone = 0
   \<and> calculateRent houseAlone = 0 + 3"
  using rent_table_lookup[of oneLightBlue] rent_table_lookup[of brownStacked]
    rent_table_lookup[of houseAlone]
  by (simp add: oneLightBlue_def brownStacked_def houseAlone_def table_defs)

text \<open>
  C8 as stated fails on a set without qualifying cards. B, owing A 5, pays with the
  three green streets that carry a house; the call returns normally and B keeps the set
  with the house card alone. Its rent is 3, the house's share on a base of 0, and 3 is
  no entry of the green table (2, 4, 7) plus 3.
\<close>

theorem rent_without_streets_counterexample:
  "fst (respondToAction 7 houseTable ''B'' (payWith [''g1'', ''g2'', ''g3''])) = Inr ()
   \<and> properties (players (snd (respondToAction 7 houseTable ''B''
                                   (payWith [''g1'', ''g2'', ''g3'']))) ! 1) = [houseAlone]
   \<and> qualifyingCount houseAlone = 0
   \<and> hasHouse houseAlone \<and> \<not> hasHotel houseAlone
   \<and> RENT_VALUES (color houseAlone) = [2, 4, 7]
   \<and> calculateRent houseAlone = 3
   \<and> calculateRent houseAlone \<notin> set (map ((+) 3) (RENT_VALUES (color houseAlone)))"
  by (simp add: houseTable_def greenWithHouse_def houseAlone_def debtPending_def payWith_def
        respond_defs table_defs calculateRent_def)

section \<open>The per-viewer projection\<close>

lemma redact_same:
  assumes "list_all2 (\<lambda>p q. if player_id p = v then q = p
                        else q\<lparr>hand := hand p\<rparr> = p \<and> length (hand q) = length (hand p)) ps qs"
  shows "map (\<lambda>p. p\<lparr>hand := (if Some (player_id p) = Some v then hand p
                              else map (\<lambda>_. hiddenCard) (hand p))\<rparr>) ps
       = map (\<lambda>p. p\<lparr>hand := (if Some (player_id p) = Some v then hand p
                              else map (\<lambda>_. hiddenCard) (hand p))\<rparr>) qs"
  using assms
proof (induction rule: list_all2_induct)
  case Nil
  then show ?case by simp
next
  case (Cons p ps q qs)
  show ?case
  proof (cases "player_id p = v")
    case True
    with Cons show ?thesis by simp
  next
    case False
    with Cons have q: "q\<lparr>hand := hand p\<rparr> = p" and l: "length (hand q) = length (hand p)"
      by simp_all
    from q have idq: "player_id q = player_id p"
      by (metis Player.select_convs(1) Player.surjective Player.update_convs(3))
    have "q\<lparr>hand := X\<rparr> = p\<lparr>hand := X\<rparr>" for X
    proof -
      have "q\<lparr>hand := X\<rparr> = (q\<lparr>hand := hand p\<rparr>)\<lparr>hand := X\<rparr>" by simp
      then show ?thesis unfolding q .
    qed
    then have e: "q\<lparr>hand := replicate (length (hand p)) hiddenCard\<rparr>
                  = p\<lparr>hand := replicate (length (hand p)) hiddenCard\<rparr>" .
    show ?thesis using Cons.IH False idq e l by (simp add: map_replicate_const)
  qed
qed

text \<open>
  C9. The projection for a nominated participant \<open>v\<close> changes nothing but the list of
  participants; it keeps every participant whose id is \<open>v\<close> as it is and replaces the
  hand of every other one by as many copies of the placeholder card as the hand has
  cards. Two states that differ only in what the other participants' hands hold have
  the same projection. (The function is a single expression that builds new objects
  and assigns to nothing, so its model returns the view only.)
\<close>

theorem projection_hides_other_hands:
  "getPublicGameState st (Some v)\<lparr>players := players st\<rparr> = st
   \<and> length (players (getPublicGameState st (Some v))) = length (players st)
   \<and> (\<forall>k < length (players st).
         players (getPublicGameState st (Some v)) ! k =
           (if player_id (players st ! k) = v then players st ! k
            else (players st ! k)\<lparr>hand := replicate (length (hand (players st ! k))) hiddenCard\<rparr>))
   \<and> (sameButOtherHands v st st' \<longrightarrow>
         getPublicGameState st (Some v) = getPublicGameState st' (Some v))"
proof (intro conjI allI impI)
  show "getPublicGameState st (Some v)\<lparr>players := players st\<rparr> = st"
    by (simp add: getPublicGameState_def)
  show "length (players (getPublicGameState st (Some v))) = length (players st)"
    by (simp add: getPublicGameState_def)
next
  fix k assume "k < length (players st)"
  then show "players (getPublicGameState st (Some v)) ! k =
           (if player_id (players st ! k) = v then players st ! k
            else (players st ! k)\<lparr>hand := replicate (length (hand (players st ! k))) hiddenCard\<rparr>)"
    by (simp add: getPublicGameState_def map_replicate_const)
next
  assume a: "sameButOtherHands v st st'"
  then have eq: "st'\<lparr>players := players st\<rparr> = st" by (simp add: sameButOtherHands_def)
  have "getPublicGameState st' (Some v) =
          (st'\<lparr>players := players st\<rparr>)\<lparr>players :=
             map (\<lambda>p. p\<lparr>hand := (if Some (player_id p) = Some v then hand p
                                  else map (\<lambda>_. hiddenCard) (hand p))\<rparr>) (players st')\<rparr>"
    by (simp add: getPublicGameState_def)
  also have "\<dots> = st\<lparr>players :=
             map (\<lambda>p. p\<lparr>hand := (if Some (player_id p) = Some v then hand p
                                  else map (\<lambda>_. hiddenCard) (hand p))\<rparr>) (players st')\<rparr>"
    using eq by simp
  also have "\<dots> = getPublicGameState st (Some v)"
    using redact_same[of v "players st" "players st'"] a
    by (simp add: getPublicGameState_def sameButOtherHands_def)
  finally show "getPublicGameState st (Some v) = getPublicGameState st' (Some v)" by simp
qed

theorem projection_hides_other_hands_witness:
  "sameButOtherHands ''A'' (viewTable (money ''m2'' 5)) (viewTable (act ''j1'' justSayNo 4))
   \<and> getPublicGameState (viewTable (money ''m2'' 5)) (Some ''A'')
       = getPublicGameState (viewTable (act ''j1'' justSayNo 4)) (Some ''A'')
   \<and> (1::nat) < length (players (viewTable (money ''m2'' 5)))
   \<and> hand (players (getPublicGameState (viewTable (money ''m2'' 5)) (Some ''A'')) ! 1) = [hiddenCard]
   \<and> hand (players (getPublicGameState (viewTable (money ''m2'' 5)) (Some ''A'')) ! 0) = [money ''m1'' 1]"
  using projection_hides_other_hands
          [of "viewTable (money ''m2'' 5)" "''A''" "viewTable (act ''j1'' justSayNo 4)"]
  by (simp add: viewTable_def sameButOtherHands_def getPublicGameState_def hiddenCard_def table_defs)

section \<open>Responding: declining and refusing\<close>

lemma resolvePending_ok:
  "currentPlayerIndex st < length (players st) \<Longrightarrow>
   resolvePending now st = (Inr (), st\<lparr>pendingAction := None, turnPhase := nextPhase st, updatedAt := now\<rparr>)"
  by (simp add: resolvePending_def nextPhase_def Let_def)

lemma findIndex_Some:
  "findIndex P xs = Some k \<Longrightarrow> k < length xs \<and> P (xs ! k) \<and> (\<forall>m < k. \<not> P (xs ! m))"
proof (induction xs arbitrary: k)
  case Nil
  then show ?case by simp
next
  case (Cons x xs)
  show ?case
  proof (cases "P x")
    case True
    with Cons.prems show ?thesis by simp
  next
    case False
    with Cons.prems obtain k' where k': "findIndex P xs = Some k'" "k = Suc k'" by auto
    from Cons.IH[OF k'(1)] False k'(2) show ?thesis
      by (auto simp: nth_Cons split: nat.splits)
  qed
qed

lemma findIndex_None: "findIndex P xs = None \<longleftrightarrow> (\<forall>x \<in> set xs. \<not> P x)"
  by (induction xs) auto

lemma filter_splice1:
  "k < length xs \<Longrightarrow> P (xs ! k) \<Longrightarrow> Suc (length (filter P (splice1 k xs))) = length (filter P xs)"
proof -
  assume k: "k < length xs" and p: "P (xs ! k)"
  have "xs = take k xs @ xs ! k # drop (Suc k) xs" using k by (simp add: id_take_nth_drop)
  then have "filter P xs = filter P (take k xs) @ xs ! k # filter P (drop (Suc k) xs)"
    using p by (metis filter.simps(2) filter_append)
  then show ?thesis by (simp add: splice1_def)
qed

lemma sum_list_map_update:
  "i < length xs \<Longrightarrow> sum_list (map f (xs[i := y])) + f (xs ! i) = sum_list (map f xs) + (f y :: nat)"
proof (induction xs arbitrary: i)
  case Nil
  then show ?case by simp
next
  case (Cons x xs)
  then show ?case by (cases i) auto
qed

lemma refusalCards_discard:
  assumes "i < length (players st)" and "findIndex (isActionCard justSayNo) (hand (players st ! i)) = Some k"
  shows "Suc (refusalCards (discardRefusal i k st)) = refusalCards st"
proof -
  let ?f = "\<lambda>p. length (filter (isActionCard justSayNo) (hand p))"
  from findIndex_Some[OF assms(2)]
  have k: "k < length (hand (players st ! i))" "isActionCard justSayNo (hand (players st ! i) ! k)"
    by simp_all
  have "Suc (?f ((players st ! i)\<lparr>hand := splice1 k (hand (players st ! i))\<rparr>)) = ?f (players st ! i)"
    using filter_splice1[of k "hand (players st ! i)" "isActionCard justSayNo"] k by simp
  with sum_list_map_update[OF assms(1), of ?f "(players st ! i)\<lparr>hand := splice1 k (hand (players st ! i))\<rparr>"]
  show ?thesis
    by (simp add: refusalCards_def discardRefusal_def modPlayer_def)
qed

lemma findPlayer_less: "findPlayer st p = Some i \<Longrightarrow> i < length (players st)"
  by (auto simp: findPlayer_def dest: findIndex_Some)

lemma refusalCards_frame [simp]:
  "refusalCards (st\<lparr>pendingAction := x\<rparr>) = refusalCards st"
  "refusalCards (st\<lparr>turnPhase := y\<rparr>) = refusalCards st"
  "refusalCards (st\<lparr>updatedAt := z\<rparr>) = refusalCards st"
  by (simp_all add: refusalCards_def)

lemma respondJustSayNo_unfold:
  assumes "findIndex (isActionCard justSayNo) (hand (players st ! i)) = Some k"
  shows "respondJustSayNo now st pa i j playerId =
     (case respondedPlayers pa of
        Some rs \<Rightarrow>
          if allResponded (discardRefusal i k st) pa (rs @ [playerId])
          then resolvePending now
                 ((discardRefusal i k st)\<lparr>pendingAction := Some (pa\<lparr>respondedPlayers := Some (rs @ [playerId])\<rparr>)\<rparr>)
          else (Inr (), (discardRefusal i k st)
                   \<lparr>pendingAction := Some (pa\<lparr>respondedPlayers := Some (rs @ [playerId])\<rparr>),
                    updatedAt := now\<rparr>)
      | None \<Rightarrow>
          if findIndex (isActionCard justSayNo) (hand (players (discardRefusal i k st) ! j)) \<noteq> None
          then (Inr (), (discardRefusal i k st)
                   \<lparr>pendingAction := Some (pa\<lparr>fromPlayerId := playerId,
                                             toPlayerId := Some (fromPlayerId pa),
                                             canSayNo := True\<rparr>),
                    updatedAt := now\<rparr>)
          else resolvePending now (discardRefusal i k st))"
  using assms
  by (auto simp: respondJustSayNo_def discardRefusal_def modPlayer_def Let_def allResponded_def
           split: option.splits)

lemma refusalCards_players: "players s = players t \<Longrightarrow> refusalCards s = refusalCards t"
  by (simp add: refusalCards_def)

lemma resolvePending_players: "players (snd (resolvePending now st)) = players st"
  by (simp add: resolvePending_def Let_def)

lemma respondJustSayNo_state:
  assumes "respondJustSayNo now st pa i j playerId = (Inr u, st')"
  shows "\<exists>k. findIndex (isActionCard justSayNo) (hand (players st ! i)) = Some k
             \<and> refusalCards st' = refusalCards (discardRefusal i k st)"
proof (cases "findIndex (isActionCard justSayNo) (hand (players st ! i))")
  case None
  with assms show ?thesis by (simp add: respondJustSayNo_def)
next
  case (Some k)
  have "players (snd (respondJustSayNo now st pa i j playerId)) = players (discardRefusal i k st)"
    unfolding respondJustSayNo_unfold[OF Some]
    by (simp add: resolvePending_players split: option.splits)
  with assms have "players st' = players (discardRefusal i k st)" by simp
  then have "refusalCards st' = refusalCards (discardRefusal i k st)" by (rule refusalCards_players)
  with Some show ?thesis by simp
qed

lemma respondToAction_refuse:
  assumes "useJustSayNo response = Some True"
  shows "respondToAction now st p response =
     (case pendingAction st of
        None \<Rightarrow> (Inl NoPendingAction, st)
      | Some pa \<Rightarrow>
         (case findPlayer st p of
            None \<Rightarrow> (Inl PlayerNotFound, st)
          | Some i \<Rightarrow>
             (case findPlayer st (fromPlayerId pa) of
                None \<Rightarrow> (Inl InitiatorNotFound, st)
              | Some j \<Rightarrow>
                 if (case respondedPlayers pa of Some rs \<Rightarrow> p \<in> set rs | None \<Rightarrow> False)
                 then (Inl AlreadyResponded, st)
                 else respondJustSayNo now st pa i j p)))"
  unfolding respondToAction_def using assms
  by (simp cong: option.case_cong if_cong)

lemma refusal_consumes_one:
  assumes "respondToAction now st p response = (Inr u, st')" and "useJustSayNo response = Some True"
  shows "Suc (refusalCards st') = refusalCards st"
proof -
  from assms(1) obtain pa i j where
    i: "findPlayer st p = Some i" and r: "respondJustSayNo now st pa i j p = (Inr u, st')"
    unfolding respondToAction_refuse[OF assms(2)]
    by (auto split: option.splits if_splits)
  from respondJustSayNo_state[OF r] obtain k where
    "findIndex (isActionCard justSayNo) (hand (players st ! i)) = Some k"
    "refusalCards st' = refusalCards (discardRefusal i k st)" by blast
  with refusalCards_discard[OF findPlayer_less[OF i]] show ?thesis by simp
qed

lemma refusalChain_bounded: "refusalChain now st ps \<le> refusalCards st"
proof (induction ps arbitrary: st)
  case Nil
  then show ?case by simp
next
  case (Cons p ps)
  show ?case
  proof (cases "respondToAction now st p refuse")
    case (Pair res st')
    show ?thesis
    proof (cases res)
      case (Inl e)
      with Pair show ?thesis by simp
    next
      case (Inr u)
      with Pair have "Suc (refusalCards st') = refusalCards st"
        by (intro refusal_consumes_one[of now st p refuse u st']) (simp_all add: refuse_def)
      with Cons.IH[of st'] Pair Inr show ?thesis by simp
    qed
  qed
qed

text \<open>
  C10. Against a single-target pending action (a debt collector or a targeted rent among
  them), a response that neither accepts nor plays a refusal card returns normally
  and changes three fields only: the pending action is cleared, the turn phase is the
  one the budget and hand-size rule gives, and the time stamp is set. Hands, banks,
  property sets, draw pile and discard pile are as before, whatever the responder holds.
\<close>

theorem decline_clears_without_payment:
  assumes "pendingAction st = Some pa" and "respondedPlayers pa = None"
    and "findPlayer st playerId = Some i" and "findPlayer st (fromPlayerId pa) = Some j"
    and "\<not> accept response" and "useJustSayNo response \<noteq> Some True"
    and "currentPlayerIndex st < length (players st)"
  shows "respondToAction now st playerId response =
           (Inr (), st\<lparr>pendingAction := None, turnPhase := nextPhase st, updatedAt := now\<rparr>)"
  using assms
  by (simp add: respondToAction_def andThen_def finishResponse_def resolvePending_ok
           split: option.splits)

lemmas debt_defs =
  debtTable_def debtPending_def declineAll_def refuse_def newPending_def findPlayer_def nextPhase_def
  discardRefusal_def modPlayer_def splice1_def refusalCards_def

theorem decline_clears_without_payment_witness:
  "respondToAction 7 (debtTable [money ''m1'' 1] [money ''m3'' 3]) ''B'' declineAll
     = (Inr (), (debtTable [money ''m1'' 1] [money ''m3'' 3])
                  \<lparr>pendingAction := None, turnPhase := action, updatedAt := 7\<rparr>)"
  using decline_clears_without_payment
          [of "debtTable [money ''m1'' 1] [money ''m3'' 3]" debtPending "''B''" 1 0 declineAll 7]
  by (simp add: debt_defs table_defs)

text \<open>
  C2. When a participant answers a single-target pending action with a refusal card
  they hold, the first such card of their hand goes to the discard pile. If the
  initiator's hand then holds no refusal card, the pending action is cleared and the
  turn phase follows the budget and hand-size rule; if it holds one, the pending action
  stays with \<open>fromPlayerId\<close> the responder and \<open>toPlayerId\<close> the former initiator, and
  the turn phase is untouched. For a responder other than the initiator the initiator's
  hand is the one from before the call. The response lowers the number of refusal
  cards in hands by exactly one, and however the participants go on refusing, no more
  responses succeed than there are refusal cards in hands.
\<close>

theorem refusal_on_single_target:
  assumes "pendingAction st = Some pa" and "respondedPlayers pa = None"
    and "findPlayer st playerId = Some i" and "findPlayer st (fromPlayerId pa) = Some j"
    and "findIndex (isActionCard justSayNo) (hand (players st ! i)) = Some k"
    and "useJustSayNo response = Some True"
    and "currentPlayerIndex st < length (players st)"
  shows "(findIndex (isActionCard justSayNo) (hand (players (discardRefusal i k st) ! j)) = None \<longrightarrow>
            respondToAction now st playerId response =
              (Inr (), (discardRefusal i k st)
                         \<lparr>pendingAction := None, turnPhase := nextPhase (discardRefusal i k st),
                          updatedAt := now\<rparr>))
       \<and> (findIndex (isActionCard justSayNo) (hand (players (discardRefusal i k st) ! j)) \<noteq> None \<longrightarrow>
            respondToAction now st playerId response =
              (Inr (), (discardRefusal i k st)
                         \<lparr>pendingAction := Some (pa\<lparr>fromPlayerId := playerId,
                                                   toPlayerId := Some (fromPlayerId pa),
                                                   canSayNo := True\<rparr>),
                          updatedAt := now\<rparr>))
       \<and> (i \<noteq> j \<longrightarrow> hand (players (discardRefusal i k st) ! j) = hand (players st ! j))
       \<and> turnPhase (discardRefusal i k st) = turnPhase st
       \<and> Suc (refusalCards (snd (respondToAction now st playerId response))) = refusalCards st
       \<and> refusalChain now st ps \<le> refusalCards st"
proof -
  have idx: "currentPlayerIndex (discardRefusal i k st) < length (players (discardRefusal i k st))"
    using assms(7) by (simp add: discardRefusal_def modPlayer_def)
  have r: "respondToAction now st playerId response = respondJustSayNo now st pa i j playerId"
    unfolding respondToAction_refuse[OF assms(6)] using assms(1-4) by simp
  have c1: "findIndex (isActionCard justSayNo) (hand (players (discardRefusal i k st) ! j)) = None \<Longrightarrow>
            respondToAction now st playerId response =
              (Inr (), (discardRefusal i k st)
                         \<lparr>pendingAction := None, turnPhase := nextPhase (discardRefusal i k st),
                          updatedAt := now\<rparr>)"
    unfolding r respondJustSayNo_unfold[OF assms(5)] using assms(2) resolvePending_ok[OF idx]
    by simp
  have c2: "findIndex (isActionCard justSayNo) (hand (players (discardRefusal i k st) ! j)) \<noteq> None \<Longrightarrow>
            respondToAction now st playerId response =
              (Inr (), (discardRefusal i k st)
                         \<lparr>pendingAction := Some (pa\<lparr>fromPlayerId := playerId,
                                                   toPlayerId := Some (fromPlayerId pa),
                                                   canSayNo := True\<rparr>),
                          updatedAt := now\<rparr>)"
    unfolding r respondJustSayNo_unfold[OF assms(5)] using assms(2)
    by simp
  have ok: "\<exists>s. respondToAction now st playerId response = (Inr (), s)"
    using c1 c2 by blast
  then obtain s where s: "respondToAction now st playerId response = (Inr (), s)" ..
  have c5: "Suc (refusalCards (snd (respondToAction now st playerId response))) = refusalCards st"
    using refusal_consumes_one[OF s assms(6)] s by simp
  have c3: "i \<noteq> j \<Longrightarrow> hand (players (discardRefusal i k st) ! j) = hand (players st ! j)"
    by (simp add: discardRefusal_def modPlayer_def)
  have c4: "turnPhase (discardRefusal i k st) = turnPhase st"
    by (simp add: discardRefusal_def modPlayer_def)
  from c1 c2 c3 c4 c5 refusalChain_bounded show ?thesis by blast
qed

theorem refusal_on_single_target_witness:
  "respondToAction 7 (debtTable [money ''m1'' 1] [act ''j1'' justSayNo 4]) ''B'' refuse
     = (Inr (), (debtTable [money ''m1'' 1] [])
                  \<lparr>discardPile := [act ''j1'' justSayNo 4], pendingAction := None,
                   turnPhase := action, updatedAt := 7\<rparr>)
   \<and> respondToAction 7 (debtTable [act ''j2'' justSayNo 4] [act ''j1'' justSayNo 4]) ''B'' refuse
     = (Inr (), (debtTable [act ''j2'' justSayNo 4] [])
                  \<lparr>discardPile := [act ''j1'' justSayNo 4],
                   pendingAction :=
                     Some (debtPending\<lparr>fromPlayerId := ''B'', toPlayerId := Some ''A''\<rparr>),
                   updatedAt := 7\<rparr>)
   \<and> refusalCards (debtTable [act ''j2'' justSayNo 4] [act ''j1'' justSayNo 4]) = 2
   \<and> refusalChain 7 (debtTable [act ''j2'' justSayNo 4] [act ''j1'' justSayNo 4])
        [''B'', ''A'', ''B''] \<le> 2"
proof -
  note t1 = refusal_on_single_target
          [of "debtTable [money ''m1'' 1] [act ''j1'' justSayNo 4]" debtPending "''B''" 1 0 0 refuse 7 "[]"]
  note t2 = refusal_on_single_target
          [of "debtTable [act ''j2'' justSayNo 4] [act ''j1'' justSayNo 4]" debtPending "''B''" 1 0 0 refuse 7
              "[''B'', ''A'', ''B'']"]
  have a: "respondToAction 7 (debtTable [money ''m1'' 1] [act ''j1'' justSayNo 4]) ''B'' refuse
     = (Inr (), (debtTable [money ''m1'' 1] [])
                  \<lparr>discardPile := [act ''j1'' justSayNo 4], pendingAction := None,
                   turnPhase := action, updatedAt := 7\<rparr>)"
    using t1 by (simp add: debt_defs table_defs)
  have b: "respondToAction 7 (debtTable [act ''j2'' justSayNo 4] [act ''j1'' justSayNo 4]) ''B'' refuse
     = (Inr (), (debtTable [act ''j2'' justSayNo 4] [])
                  \<lparr>discardPile := [act ''j1'' justSayNo 4],
                   pendingAction :=
                     Some (debtPending\<lparr>fromPlayerId := ''B'', toPlayerId := Some ''A''\<rparr>),
                   updatedAt := 7\<rparr>)"
    using t2 by (simp add: debt_defs table_defs)
  have c: "refusalCards (debtTable [act ''j2'' justSayNo 4] [act ''j1'' justSayNo 4]) = 2"
    by (simp add: debt_defs table_defs)
  have d: "refusalChain 7 (debtTable [act ''j2'' justSayNo 4] [act ''j1'' justSayNo 4])
        [''B'', ''A'', ''B''] \<le> refusalCards (debtTable [act ''j2'' justSayNo 4] [act ''j1'' justSayNo 4])"
    using t2 by (simp add: debt_defs table_defs del: refusalChain.simps)
  from a b c d show ?thesis by simp
qed

section \<open>Win detection and failing plays, evaluated\<close>

text \<open>
  C5. \<^verbatim>\<open>respondToAction\<close> never calls \<^verbatim>\<open>checkWinner\<close>. When B accepts the deal breaker
  that hands A a third complete set, and when B settles a debt with the street that
  completes A's third set, the call returns with the match phase still \<open>playing\<close>
  and no winner recorded, although \<^verbatim>\<open>checkWinner\<close> on that very state names A.
\<close>

theorem respond_skips_win_check:
  "fst (respondToAction 7 stealTable ''B'' acceptAll) = Inr ()
   \<and> properties (players (snd (respondToAction 7 stealTable ''B'' acceptAll)) ! 0)
       = [brownSet, darkBlueSet, utilitySet]
   \<and> phase (snd (respondToAction 7 stealTable ''B'' acceptAll)) = playing
   \<and> winner (snd (respondToAction 7 stealTable ''B'' acceptAll)) = None
   \<and> winner (checkWinner (snd (respondToAction 7 stealTable ''B'' acceptAll))) = Some ''A''
   \<and> fst (respondToAction 7 rentTable ''B'' (payWith [''u2''])) = Inr ()
   \<and> properties (players (snd (respondToAction 7 rentTable ''B'' (payWith [''u2'']))) ! 0)
       = [brownSet, darkBlueSet, utilitySet]
   \<and> phase (snd (respondToAction 7 rentTable ''B'' (payWith [''u2'']))) = playing
   \<and> winner (snd (respondToAction 7 rentTable ''B'' (payWith [''u2'']))) = None"
  by (simp add: stealTable_def rentTable_def acceptAll_def payWith_def brownSet_def darkBlueSet_def
        utilitySet_def debtPending_def respond_defs table_defs)

lemmas play_defs =
  playCard_def playDispatch_def playActionCard_def turnCheck_def andThen_def findPlayer_def
  modPlayer_def splice1_def tgt_def truthy_def Let_def

text \<open>
  C6. A failing \<^verbatim>\<open>playCard\<close> does not leave the state as it was. Playing a refusal
  card or a double-rent card on its own throws after the card has been taken out of
  the hand, pushed back at the end of it and one action added to a budget that was
  never charged: the hand is reordered and the budget is 4 instead of 3. Playing a
  debt collector without a target throws after the card has left the hand, and the
  card is gone.
\<close>

theorem rejected_play_changes_state:
  "playCard 7 r actionTable ''A'' ''j1'' None
     = (Inl JustSayNoOnlyInResponse,
        actionTable\<lparr>players :=
                      [mkPlayer ''A'' [act ''r1'' doubleRent 1, money ''m1'' 1,
                                       act ''j1'' justSayNo 4] [] [],
                       mkPlayer ''B'' [] [] []],
                    actionsRemaining := 4\<rparr>)
   \<and> playCard 7 r actionTable ''A'' ''r1'' None
     = (Inl DoubleRentNeedsRent,
        actionTable\<lparr>players :=
                      [mkPlayer ''A'' [act ''j1'' justSayNo 4, money ''m1'' 1,
                                       act ''r1'' doubleRent 1] [] [],
                       mkPlayer ''B'' [] [] []],
                    actionsRemaining := 4\<rparr>)
   \<and> snd (playCard 7 r actionTable ''A'' ''j1'' None) \<noteq> actionTable
   \<and> snd (playCard 7 r actionTable ''A'' ''r1'' None) \<noteq> actionTable
   \<and> playCard 7 r collectorTable ''A'' ''d1'' None
     = (Inl MustSelectPlayer,
        collectorTable\<lparr>players := [mkPlayer ''A'' [] [] [], mkPlayer ''B'' [] [] []]\<rparr>)"
  by (simp add: actionTable_def collectorTable_def play_defs table_defs)

section \<open>Whose turn it is\<close>

lemma ctl_modPlayer [simp]: "ctl (modPlayer i f st) = ctl st"
  by (simp add: ctl_def modPlayer_def)

lemma ctl_modSet [simp]: "ctl (modSet i k f st) = ctl st"
  by (simp add: modSet_def)

lemma ctl_pruneEmpty [simp]: "ctl (pruneEmpty i st) = ctl st"
  by (simp add: pruneEmpty_def)

lemma ctl_piles [simp]:
  "ctl (st\<lparr>deck := d\<rparr>) = ctl st"
  "ctl (st\<lparr>discardPile := p\<rparr>) = ctl st"
  "ctl (st\<lparr>updatedAt := t\<rparr>) = ctl st"
  by (simp_all add: ctl_def)

lemma ctl_andThen:
  assumes "\<And>s. ctl (snd (f s)) = ctl s"
  shows "ctl (snd (andThen r f)) = ctl (snd r)"
  using assms by (cases r) (auto simp: andThen_def split: sum.splits)

lemma ctl_playPropertyCard [simp]: "ctl (snd (playPropertyCard st i c t)) = ctl st"
  by (simp add: playPropertyCard_def Let_def split: CardFace.splits option.splits)

lemma ctl_payOne [simp]: "ctl (snd (payOne st i j x)) = ctl st"
  by (simp add: payOne_def Let_def ctl_andThen split: option.splits)

lemma ctl_payAll [simp]: "ctl (snd (payAll st i j xs)) = ctl st"
  by (induction xs arbitrary: st) (simp_all add: ctl_andThen)

lemma ctl_settlePayment [simp]: "ctl (snd (settlePayment st a i j resp)) = ctl st"
  by (simp add: settlePayment_def Let_def ctl_andThen)

lemma ctl_executeSlyDeal [simp]: "ctl (snd (executeSlyDeal st j i tc tid)) = ctl st"
  by (simp add: executeSlyDeal_def Let_def ctl_andThen split: option.splits)

lemma ctl_forcedDealGive [simp]: "ctl (snd (forcedDealGive st j i k gid gf)) = ctl st"
  by (simp add: forcedDealGive_def Let_def ctl_andThen split: option.splits)


lemma ctl_andThenWith:
  assumes "\<And>v s. ctl (snd (f v s)) = ctl s"
  shows "ctl (snd (andThenWith r f)) = ctl (snd r)"
  using assms by (cases r) (auto simp: andThenWith_def split: sum.splits)

lemma ctl_executeForcedDeal [simp]: "ctl (snd (executeForcedDeal st j i tc tid gid gf)) = ctl st"
  by (simp add: executeForcedDeal_def Let_def ctl_andThen ctl_andThenWith split: option.splits)

lemma ctl_executeDealBreaker [simp]: "ctl (executeDealBreaker st j i tc) = ctl st"
  by (simp add: executeDealBreaker_def Let_def split: option.splits)

lemma ctl_executeEffect [simp]: "ctl (snd (executeEffect st pa j i resp)) = ctl st"
  by (simp add: executeEffect_def split: PendingType.splits ActionType.splits)

lemma ctl_dealHand [simp]: "ctl (dealHand n i st) = ctl st"
  by (induction n arbitrary: st) (simp_all split: option.splits)

lemma ctl_drawLoop [simp]: "ctl (snd (drawLoop r n i st acc)) = ctl st"
  by (induction n arbitrary: st acc) (simp_all add: Let_def split: option.splits)

lemma ctl_discardLoop [simp]: "ctl (snd (discardLoop st i xs)) = ctl st"
  by (induction xs arbitrary: st) (simp_all add: Let_def split: option.splits)

lemma cpi_ctl: "ctl s = ctl t \<Longrightarrow> currentPlayerIndex s = currentPlayerIndex t"
  by (simp add: ctl_def)

lemma cpi_resolvePending [simp]:
  "currentPlayerIndex (snd (resolvePending now st)) = currentPlayerIndex st"
  by (simp add: resolvePending_def Let_def)

lemma cpi_finishResponse [simp]:
  "currentPlayerIndex (snd (finishResponse now st pa p)) = currentPlayerIndex st"
  by (simp add: finishResponse_def Let_def split: option.splits)

lemma cpi_respondJustSayNo [simp]:
  "currentPlayerIndex (snd (respondJustSayNo now st pa i j p)) = currentPlayerIndex st"
  by (simp add: respondJustSayNo_def Let_def modPlayer_def split: option.splits)

lemma cpi_andThen:
  assumes "\<And>s. currentPlayerIndex (snd (f s)) = currentPlayerIndex s"
  shows "currentPlayerIndex (snd (andThen r f)) = currentPlayerIndex (snd r)"
  using assms by (cases r) (auto simp: andThen_def split: sum.splits)

lemma cpi_respondToAction:
  "currentPlayerIndex (snd (respondToAction now st p resp)) = currentPlayerIndex st"
proof -
  have a: "currentPlayerIndex (snd (settlePayment st a i j resp)) = currentPlayerIndex st" for a i j
    by (rule cpi_ctl) simp
  have b: "currentPlayerIndex (snd (executeEffect s pa j i resp)) = currentPlayerIndex s" for s pa j i
    by (rule cpi_ctl) simp
  show ?thesis
    unfolding respondToAction_def
    by (simp add: cpi_andThen a b split: option.splits)
qed


lemma cpi_drawLoop [simp]: "currentPlayerIndex (snd (drawLoop r n i st acc)) = currentPlayerIndex st"
  by (rule cpi_ctl) simp

lemma cpi_discardLoop [simp]: "currentPlayerIndex (snd (discardLoop st i xs)) = currentPlayerIndex st"
  by (rule cpi_ctl) simp

lemma cpi_playPropertyCard [simp]:
  "currentPlayerIndex (snd (playPropertyCard st i c t)) = currentPlayerIndex st"
  by (rule cpi_ctl) simp

lemma cpi_modPlayer [simp]: "currentPlayerIndex (modPlayer i f st) = currentPlayerIndex st"
  by (simp add: modPlayer_def)

lemma cpi_modSet [simp]: "currentPlayerIndex (modSet i k f st) = currentPlayerIndex st"
  by (simp add: modSet_def)

lemma cpi_pruneEmpty [simp]: "currentPlayerIndex (pruneEmpty i st) = currentPlayerIndex st"
  by (simp add: pruneEmpty_def)

lemma cpi_checkWinner [simp]: "currentPlayerIndex (checkWinner st) = currentPlayerIndex st"
  by (simp add: checkWinner_def split: option.splits)

lemma cpi_addModifier [simp]:
  "currentPlayerIndex (snd (addModifier st i c h t)) = currentPlayerIndex st"
  by (simp add: addModifier_def Let_def split: option.splits)

lemma cpi_playActionCard [simp]:
  "currentPlayerIndex (snd (playActionCard r st i c a t)) = currentPlayerIndex st"
  by (cases a) (simp_all add: playActionCard_def setPending_def Let_def)

lemma cpi_playRentCard [simp]:
  "currentPlayerIndex (snd (playRentCard st i c cs w t)) = currentPlayerIndex st"
  by (simp add: playRentCard_def setPending_def Let_def split: option.splits prod.splits)

lemma cpi_playDispatch [simp]:
  "currentPlayerIndex (snd (playDispatch r st i c t)) = currentPlayerIndex st"
  by (simp add: playDispatch_def split: CardFace.splits)

lemma cpi_playCard: "currentPlayerIndex (snd (playCard now r st p c t)) = currentPlayerIndex st"
  by (simp add: playCard_def Let_def cpi_andThen split: option.splits)

lemma cpi_drawCards: "currentPlayerIndex (snd (drawCards now r st p)) = currentPlayerIndex st"
proof -
  have "currentPlayerIndex (snd x) = currentPlayerIndex st
        \<Longrightarrow> currentPlayerIndex (snd (case x of (drawn, st1) \<Rightarrow>
               (Inr drawn :: error + Card list, st1\<lparr>turnPhase := action, updatedAt := now\<rparr>))) = currentPlayerIndex st"
    for x :: "Card list \<times> GameState"
    by (cases x) simp
  then show ?thesis
    by (simp add: drawCards_def Let_def split: option.splits)
qed

lemma cpi_rearrangeProperty:
  "currentPlayerIndex (snd (rearrangeProperty now st p c f t)) = currentPlayerIndex st"
  by (simp add: rearrangeProperty_def Let_def split: option.splits)

lemma cpi_addPlayer: "currentPlayerIndex (snd (addPlayer now pid st n s)) = currentPlayerIndex st"
  by (simp add: addPlayer_def Let_def)

lemma removePlayer_index:
  "currentPlayerIndex (removePlayer now st p) = currentPlayerIndex st
   \<or> currentPlayerIndex (removePlayer now st p) = 0
     \<and> length (players (removePlayer now st p)) \<le> currentPlayerIndex st"
  by (simp add: removePlayer_def Let_def split: option.splits)

lemma cpi_dealPlayer [simp]: "currentPlayerIndex (dealPlayer s i) = currentPlayerIndex s"
  unfolding dealPlayer_def by (rule cpi_ctl) simp

lemma cpi_foldl_dealPlayer [simp]:
  "currentPlayerIndex (foldl dealPlayer s is) = currentPlayerIndex s"
  by (induction "is" arbitrary: s) simp_all

lemma startGame_index:
  "currentPlayerIndex (snd (startGame now uuid r st)) = currentPlayerIndex st
   \<or> fst (startGame now uuid r st) = Inr ()
     \<and> currentPlayerIndex (snd (startGame now uuid r st)) = 0"
  by (simp add: startGame_def Let_def)

lemma andThen_cases:
  "andThen r f = (fst r, snd r) \<and> (\<exists>e. fst r = Inl e) \<or> andThen r f = f (snd r) \<and> fst r = Inr ()"
  by (cases r) (auto simp: andThen_def split: sum.splits)

lemma len_ctl: "ctl s = ctl t \<Longrightarrow> length (players s) = length (players t)"
  by (simp add: ctl_def)

lemma discardCards_index:
  "currentPlayerIndex (snd (discardCards now st p ids)) = currentPlayerIndex st
   \<or> fst (discardCards now st p ids) = Inr ()
     \<and> turnPhase st = discard
     \<and> currentPlayerIndex (snd (discardCards now st p ids))
          = (currentPlayerIndex st + 1) mod length (players st)"
proof (cases "findPlayer st p")
  case None
  then show ?thesis by (simp add: discardCards_def)
next
  case (Some i)
  let ?r = "discardLoop st i ids"
  let ?f = "\<lambda>st1. (Inr (), (endTurn st1)\<lparr>updatedAt := now\<rparr>) :: unit outcome"
  have l: "length (players (snd ?r)) = length (players st)"
    by (rule len_ctl) simp
  have c: "currentPlayerIndex (snd ?r) = currentPlayerIndex st" by simp
  from andThen_cases[of ?r ?f] l c
  have "currentPlayerIndex (snd (andThen ?r ?f)) = currentPlayerIndex st
        \<or> fst (andThen ?r ?f) = Inr ()
          \<and> currentPlayerIndex (snd (andThen ?r ?f)) = (currentPlayerIndex st + 1) mod length (players st)"
    by (auto simp: endTurn_def)
  with Some show ?thesis
    by (simp add: discardCards_def Let_def split: option.splits)
qed

lemma endTurnEarly_index:
  "currentPlayerIndex (snd (endTurnEarly now st p)) = currentPlayerIndex st
   \<or> pendingAction st = None
     \<and> fst (endTurnEarly now st p) = Inr ()
     \<and> currentPlayerIndex (snd (endTurnEarly now st p))
          = (currentPlayerIndex st + 1) mod length (players st)"
  by (simp add: endTurnEarly_def endTurn_def split: option.splits)

text \<open>
  C7 (amended). Whatever the operation and the state, if the call changes
  \<open>currentPlayerIndex\<close> then the call has returned normally, and either the operation is
  \<^verbatim>\<open>discardCards\<close> (called in the discard phase) or \<^verbatim>\<open>endTurnEarly\<close> (with no pending
  action) and the index has advanced by one modulo the number of participants, or the
  operation is \<^verbatim>\<open>removePlayer\<close> (the old index being no longer below the number of
  participants that remain) or \<^verbatim>\<open>startGame\<close> and the index is 0. \<^verbatim>\<open>addPlayer\<close>,
  \<^verbatim>\<open>drawCards\<close>, \<^verbatim>\<open>playCard\<close>, \<^verbatim>\<open>respondToAction\<close> and \<^verbatim>\<open>rearrangeProperty\<close> never
  change it, whether they return or throw.
\<close>

theorem index_changes_by_turn_end_or_reset:
  "currentPlayerIndex (perform now op st) \<noteq> currentPlayerIndex st \<longrightarrow>
     returns now op st
     \<and> (endsTurn op
          \<and> (\<forall>p. op = EndTurnEarly p \<longrightarrow> pendingAction st = None)
          \<and> (\<forall>p ids. op = DiscardCards p ids \<longrightarrow> turnPhase st = discard)
          \<and> currentPlayerIndex (perform now op st)
               = (currentPlayerIndex st + 1) mod length (players st)
        \<or> resetsTurn op
          \<and> (\<forall>p. op = RemovePlayer p \<longrightarrow>
                 length (players (perform now op st)) \<le> currentPlayerIndex st)
          \<and> currentPlayerIndex (perform now op st) = 0)"
proof (cases op)
  case (AddPlayer x1 x2 x3)
  then show ?thesis by (simp add: cpi_addPlayer)
next
  case (RemovePlayer x)
  then show ?thesis using removePlayer_index[of now st x] by (auto simp: resetsTurn_def)
next
  case (StartGame x1 x2)
  then show ?thesis using startGame_index[of now x1 x2 st] by (auto simp: resetsTurn_def)
next
  case (DrawCards x1 x2)
  then show ?thesis by (simp add: cpi_drawCards)
next
  case (PlayCard x1 x2 x3 x4)
  then show ?thesis by (simp add: cpi_playCard)
next
  case (RespondToAction x1 x2)
  then show ?thesis by (simp add: cpi_respondToAction)
next
  case (DiscardCards x1 x2)
  then show ?thesis using discardCards_index[of now st x1 x2] by (auto simp: endsTurn_def)
next
  case (EndTurnEarly x)
  then show ?thesis using endTurnEarly_index[of now st x] by (auto simp: endsTurn_def)
next
  case (RearrangeProperty x1 x2 x3 x4)
  then show ?thesis by (simp add: cpi_rearrangeProperty)
qed

theorem index_changes_by_turn_end_or_reset_witness:
  "currentPlayerIndex (turnTable 1) = 1 \<and> length (players (turnTable 1)) = 3
   \<and> returns 7 (EndTurnEarly ''B'') (turnTable 1)
   \<and> pendingAction (turnTable 1) = None
   \<and> currentPlayerIndex (perform 7 (EndTurnEarly ''B'') (turnTable 1)) = 2
   \<and> currentPlayerIndex (turnTable 2) = 2
   \<and> length (players (perform 7 (RemovePlayer ''A'') (turnTable 2))) = 2
   \<and> currentPlayerIndex (perform 7 (RemovePlayer ''A'') (turnTable 2)) = 0
   \<and> currentPlayerIndex discardTable = 0 \<and> length (players discardTable) = 2
   \<and> turnPhase discardTable = discard
   \<and> returns 7 (DiscardCards ''A'' [''c8'']) discardTable
   \<and> currentPlayerIndex (perform 7 (DiscardCards ''A'' [''c8'']) discardTable) = 1"
  using index_changes_by_turn_end_or_reset[of 7 "EndTurnEarly ''B''" "turnTable 1"]
    index_changes_by_turn_end_or_reset[of 7 "RemovePlayer ''A''" "turnTable 2"]
    index_changes_by_turn_end_or_reset[of 7 "DiscardCards ''A'' [''c8'']" discardTable]
  by (simp add: turnTable_def discardTable_def endTurnEarly_def endTurn_def removePlayer_def
        discardCards_def andThen_def modPlayer_def
        findPlayer_def turnCheck_def splice1_def endsTurn_def resetsTurn_def table_defs)

text \<open>
  C7 as stated fails. With three participants and B (index 1) to move, \<^verbatim>\<open>startGame\<close>
  returns normally and sets the index to 0: it is not one of the two operations the
  claim allows, and 0 is not 1 + 1 modulo 3. With C (index 2) to move, removing A
  leaves two participants and sets the index to 0.
\<close>

theorem index_changes_elsewhere_counterexample:
  "fst (startGame 7 fixedIds noShuffle (turnTable 1)) = Inr ()
   \<and> \<not> endsTurn (StartGame fixedIds noShuffle)
   \<and> currentPlayerIndex (perform 7 (StartGame fixedIds noShuffle) (turnTable 1))
        \<noteq> currentPlayerIndex (turnTable 1)
   \<and> currentPlayerIndex (perform 7 (StartGame fixedIds noShuffle) (turnTable 1))
        \<noteq> (currentPlayerIndex (turnTable 1) + 1) mod length (players (turnTable 1))
   \<and> \<not> endsTurn (RemovePlayer ''A'')
   \<and> currentPlayerIndex (perform 7 (RemovePlayer ''A'') (turnTable 2))
        \<noteq> currentPlayerIndex (turnTable 2)"
  by (simp add: turnTable_def startGame_def removePlayer_def findPlayer_def splice1_def
        endsTurn_def table_defs Let_def)

section \<open>One pending action exactly while responding\<close>

lemma coherent_ctl: "ctl s = ctl t \<Longrightarrow> coherent s = coherent t"
  by (simp add: ctl_def coherent_def)

lemma coherent_andThen:
  assumes "coherent (snd r)" and "\<And>s. coherent s \<Longrightarrow> coherent (snd (f s))"
  shows "coherent (snd (andThen r f))"
  using assms by (cases r) (auto simp: andThen_def split: sum.splits)

lemma coherent_frame [simp]:
  "coherent (st\<lparr>updatedAt := t\<rparr>) = coherent st"
  "coherent (st\<lparr>discardPile := d\<rparr>) = coherent st"
  "coherent (st\<lparr>deck := k\<rparr>) = coherent st"
  "coherent (st\<lparr>actionsRemaining := n\<rparr>) = coherent st"
  "coherent (modPlayer i f st) = coherent st"
  "coherent (modSet i k' g st) = coherent st"
  "coherent (pruneEmpty i st) = coherent st"
  "coherent (checkWinner st) = coherent st"
  by (simp_all add: coherent_def modPlayer_def modSet_def pruneEmpty_def checkWinner_def
               split: option.splits)

lemma coherent_setPending [simp]: "coherent (setPending pa st) = (currentPlayerIndex st < length (players st) \<or> currentPlayerIndex st = 0)"
  by (simp add: coherent_def setPending_def)

lemma coherent_index: "coherent st \<Longrightarrow> currentPlayerIndex st < length (players st) \<or> currentPlayerIndex st = 0"
  by (simp add: coherent_def)

lemma coherent_drawLoop [simp]: "coherent (snd (drawLoop r n i st acc)) = coherent st"
  by (rule coherent_ctl) simp

lemma coherent_playPropertyCard [simp]: "coherent (snd (playPropertyCard st i c t)) = coherent st"
  by (rule coherent_ctl) simp

lemma coherent_addModifier [simp]: "coherent (snd (addModifier st i c h t)) = coherent st"
  by (simp add: addModifier_def Let_def split: option.splits)

lemma coherent_playActionCard:
  "coherent st \<Longrightarrow> coherent (snd (playActionCard r st i c a t))"
  by (cases a) (auto simp: playActionCard_def Let_def modPlayer_fields(2) dest: coherent_index)

lemma coherent_playRentCard:
  "coherent st \<Longrightarrow> coherent (snd (playRentCard st i c cs w t))"
  by (auto simp: playRentCard_def Let_def modPlayer_fields(2) dest: coherent_index split: option.splits prod.splits)

lemma coherent_playDispatch:
  "coherent st \<Longrightarrow> coherent (snd (playDispatch r st i c t))"
  by (simp add: playDispatch_def coherent_playActionCard coherent_playRentCard split: CardFace.splits)


lemma coherent_playCard: "coherent st \<Longrightarrow> coherent (snd (playCard now r st p c t))"
proof -
  assume c: "coherent st"
  have fin: "coherent (snd ((Inr (), (if actionsRemaining s3 \<le> 0 \<and> pendingAction s3 = None
               then s3\<lparr>turnPhase := (if length (hand (players s3 ! i)) > 7 then discard else finishing)\<rparr>
               else s3)\<lparr>updatedAt := now\<rparr>) :: unit outcome))" if "coherent s3" for s3 i
    using that by (auto simp: coherent_def)
  show ?thesis
    using c
    by (auto simp: playCard_def Let_def split: option.splits
             intro!: coherent_andThen coherent_playDispatch fin)
qed

lemma coherent_resolvePending:
  "currentPlayerIndex st < length (players st) \<Longrightarrow> coherent (snd (resolvePending now st))"
  by (simp add: resolvePending_def coherent_def Let_def)

lemma coherent_found:
  "coherent st \<Longrightarrow> findPlayer st p = Some i \<Longrightarrow> currentPlayerIndex st < length (players st)"
  using findPlayer_less[of st p i] by (auto simp: coherent_def)

lemma coherent_finishResponse:
  assumes "pendingAction st = Some pa'" "coherent st" "currentPlayerIndex st < length (players st)"
  shows "coherent (snd (finishResponse now st pa p))"
  using assms
  by (auto simp: finishResponse_def Let_def coherent_resolvePending split: option.splits)
     (simp add: coherent_def)


lemma coherent_respondJustSayNo:
  assumes "pendingAction st = Some pa" "coherent st" "currentPlayerIndex st < length (players st)"
  shows "coherent (snd (respondJustSayNo now st pa i j p))"
proof (cases "findIndex (isActionCard justSayNo) (hand (players st ! i))")
  case None
  with assms show ?thesis by (simp add: respondJustSayNo_def)
next
  case (Some k)
  have d: "currentPlayerIndex (discardRefusal i k st) < length (players (discardRefusal i k st))"
    using assms(3) by (simp add: discardRefusal_def modPlayer_fields(2))
  have t: "turnPhase (discardRefusal i k st) = responding"
    using assms(1,2) by (simp add: discardRefusal_def modPlayer_def coherent_def)
  show ?thesis
    unfolding respondJustSayNo_unfold[OF Some]
    using d t
    by (auto simp: coherent_resolvePending resolvePending_def Let_def coherent_def split: option.splits)
qed

lemma coherent_respondToAction:
  assumes "coherent st"
  shows "coherent (snd (respondToAction now st p resp))"
proof (cases "pendingAction st")
  case None
  with assms show ?thesis by (simp add: respondToAction_def)
next
  case pa: (Some pa)
  show ?thesis
  proof (cases "findPlayer st p")
    case None
    with assms pa show ?thesis by (simp add: respondToAction_def)
  next
    case i: (Some i)
    from coherent_found[OF assms i] have idx: "currentPlayerIndex st < length (players st)" .
    show ?thesis
    proof (cases "findPlayer st (fromPlayerId pa)")
      case None
      with assms pa i show ?thesis by (simp add: respondToAction_def)
    next
      case j: (Some j)
      have fin: "coherent (snd (finishResponse now s pa p))" if "ctl s = ctl st" for s
      proof -
        from that have "pendingAction s = Some pa" "coherent s" "currentPlayerIndex s < length (players s)"
          using pa assms idx coherent_ctl[OF that] by (simp_all add: ctl_def)
        then show ?thesis by (rule coherent_finishResponse)
      qed
      have eff: "coherent (snd (andThen
                        (if accept resp \<and> respondedPlayers pa = None
                         then executeEffect s pa j i resp else (Inr (), s))
                        (\<lambda>st2. finishResponse now st2 pa p)))" if "ctl s = ctl st" for s
      proof -
        let ?r = "if accept resp \<and> respondedPlayers pa = None
                         then executeEffect s pa j i resp else (Inr (), s)"
        have c: "ctl (snd ?r) = ctl st" using that by simp
        from andThen_cases[of ?r "\<lambda>st2. finishResponse now st2 pa p"] fin[OF c] c
        show ?thesis
          using coherent_ctl[OF c] assms by auto
      qed
      let ?q = "case amount pa of
                        Some a \<Rightarrow> (if accept resp \<and> a \<noteq> 0
                                   then settlePayment st a i j resp else (Inr (), st))
                      | None \<Rightarrow> (Inr (), st)"
      have cq: "ctl (snd ?q) = ctl st" by (simp split: option.splits)
      have main: "coherent (snd (andThen ?q (\<lambda>st1. andThen
                        (if accept resp \<and> respondedPlayers pa = None
                         then executeEffect st1 pa j i resp else (Inr (), st1))
                        (\<lambda>st2. finishResponse now st2 pa p))))"
        using andThen_cases[of ?q "\<lambda>st1. andThen
                        (if accept resp \<and> respondedPlayers pa = None
                         then executeEffect st1 pa j i resp else (Inr (), st1))
                        (\<lambda>st2. finishResponse now st2 pa p)"] eff[OF cq] coherent_ctl[OF cq] assms
        by auto
      show ?thesis
        unfolding respondToAction_def
        using pa i j assms main coherent_respondJustSayNo[OF pa assms idx, of now i j p]
        by simp
    qed
  qed
qed

lemma coherent_drawCards: "coherent st \<Longrightarrow> coherent (snd (drawCards now r st p))"
proof -
  assume c: "coherent st"
  have "coherent (snd (case x of (drawn, st1) \<Rightarrow>
               (Inr drawn :: error + Card list, st1\<lparr>turnPhase := action, updatedAt := now\<rparr>)))"
    if "ctl (snd x) = ctl st" "turnPhase st = draw" for x :: "Card list \<times> GameState"
    using that c by (cases x) (auto simp: coherent_def ctl_def)
  then show ?thesis
    using c by (simp add: drawCards_def Let_def split: option.splits)
qed

lemma coherent_endTurn:
  "0 < length (players st) \<Longrightarrow> coherent (endTurn st)"
  by (simp add: coherent_def endTurn_def)

lemma coherent_discardCards: "coherent st \<Longrightarrow> coherent (snd (discardCards now st p ids))"
proof (cases "findPlayer st p")
  case None
  assume "coherent st"
  with None show ?thesis by (simp add: discardCards_def)
next
  case (Some i)
  assume c: "coherent st"
  let ?r = "discardLoop st i ids"
  let ?f = "\<lambda>st1. (Inr (), (endTurn st1)\<lparr>updatedAt := now\<rparr>) :: unit outcome"
  have cr: "ctl (snd ?r) = ctl st" by simp
  have l: "0 < length (players (snd ?r))"
    using len_ctl[OF cr] findPlayer_less[OF Some] by auto
  from andThen_cases[of ?r ?f] coherent_ctl[OF cr] c coherent_endTurn[OF l]
  have "coherent (snd (andThen ?r ?f))" by auto
  with Some c show ?thesis
    by (simp add: discardCards_def Let_def split: option.splits)
qed

lemma coherent_endTurnEarly: "coherent st \<Longrightarrow> coherent (snd (endTurnEarly now st p))"
proof (cases "findPlayer st p")
  case None
  assume "coherent st"
  with None show ?thesis by (simp add: endTurnEarly_def)
next
  case (Some i)
  assume c: "coherent st"
  from findPlayer_less[OF Some] have "0 < length (players st)" by auto
  from coherent_endTurn[OF this] c Some show ?thesis
    by (auto simp: endTurnEarly_def coherent_def split: option.splits)
qed

lemma coherent_rearrangeProperty:
  "coherent st \<Longrightarrow> coherent (snd (rearrangeProperty now st p c f t))"
  by (simp add: rearrangeProperty_def Let_def split: option.splits)

lemma coherent_addPlayer: "coherent st \<Longrightarrow> coherent (snd (addPlayer now pid st n s))"
  by (auto simp: addPlayer_def Let_def coherent_def)

lemma coherent_removePlayer: "coherent st \<Longrightarrow> coherent (removePlayer now st p)"
  by (auto simp: removePlayer_def Let_def coherent_def split: option.splits)

lemma ctl_dealPlayer [simp]: "ctl (dealPlayer s i) = ctl s"
  by (simp add: dealPlayer_def)

lemma ctl_foldl_dealPlayer [simp]: "ctl (foldl dealPlayer s is) = ctl s"
  by (induction "is" arbitrary: s) simp_all

lemma startGame_control:
  "pendingAction (snd (startGame now uuid r st)) = pendingAction st"
  "2 \<le> length (players st) \<Longrightarrow> length (players st) \<le> 5 \<Longrightarrow>
     fst (startGame now uuid r st) = Inr () \<and> turnPhase (snd (startGame now uuid r st)) = draw"
proof -
  let ?st1 = "st\<lparr>deck := shuffleDeck r (createDeck uuid), discardPile := [],
                     phase := playing, turnPhase := draw, currentPlayerIndex := 0,
                     actionsRemaining := 3\<rparr>"
  have c: "ctl (foldl dealPlayer ?st1 [0..<length (players st)]) = ctl ?st1" by simp
  then show "pendingAction (snd (startGame now uuid r st)) = pendingAction st"
    by (simp add: startGame_def Let_def ctl_def)
  from c show "2 \<le> length (players st) \<Longrightarrow> length (players st) \<le> 5 \<Longrightarrow>
     fst (startGame now uuid r st) = Inr () \<and> turnPhase (snd (startGame now uuid r st)) = draw"
    by (simp add: startGame_def Let_def ctl_def)
qed

lemma coherent_startGame:
  "coherent st \<Longrightarrow> pendingAction st = None \<Longrightarrow> coherent (snd (startGame now uuid r st))"
proof -
  assume c: "coherent st" and n: "pendingAction st = None"
  let ?st1 = "st\<lparr>deck := shuffleDeck r (createDeck uuid), discardPile := [],
                     phase := playing, turnPhase := draw, currentPlayerIndex := 0,
                     actionsRemaining := 3\<rparr>"
  have "ctl (foldl dealPlayer ?st1 [0..<length (players st)]) = ctl ?st1" by simp
  from coherent_ctl[OF this] have "coherent (foldl dealPlayer ?st1 [0..<length (players st)])"
    using n by (simp add: coherent_def)
  with c show ?thesis by (simp add: startGame_def Let_def)
qed

lemma coherent_perform:
  assumes "coherent st" and "\<not> restartsWhilePending op st"
  shows "coherent (perform now op st)"
  using assms
  by (cases op)
     (simp_all add: restartsWhilePending_def coherent_addPlayer coherent_removePlayer
        coherent_startGame coherent_drawCards coherent_playCard coherent_respondToAction
        coherent_discardCards coherent_endTurnEarly coherent_rearrangeProperty)

lemma coherent_created: "coherent (createGameState now gid uuid r room)"
  by (simp add: coherent_def createGameState_def)


subsection \<open>A match that is started again while a birthday card awaits its answers\<close>

lemma shuffleLoop_still:
  "(\<And>i. 1 \<le> i \<Longrightarrow> i \<le> n \<Longrightarrow> r i = i) \<Longrightarrow> shuffleLoop r n xs = xs"
proof (induction n arbitrary: xs)
  case 0
  then show ?case by simp
next
  case (Suc n)
  have "r (Suc n) = Suc n" using Suc.prems[of "Suc n"] by simp
  moreover have "shuffleLoop r n ys = ys" for ys :: "'a list"
    using Suc.prems by (intro Suc.IH) simp_all
  ultimately show ?case by (simp add: Let_def)
qed

lemma shuffle_top:
  assumes l: "length xs = 105"
  shows "shuffleDeck topBirthday xs = xs[104 := xs ! 72, 72 := xs ! 104]"
proof -
  have s: "shuffleLoop topBirthday 103 ys = ys" for ys :: "'a list"
    by (rule shuffleLoop_still) (simp add: topBirthday_def)
  have t: "topBirthday (Suc 103) mod (Suc 103 + 1) = 72" by (simp add: topBirthday_def)
  have "shuffleLoop topBirthday (Suc 103) xs = xs[Suc 103 := xs ! 72, 72 := xs ! Suc 103]"
    by (simp only: shuffleLoop.simps Let_def t s)
  then show ?thesis by (simp add: shuffleDeck_def l)
qed

lemma deckFaces_72: "deckFaces ! 72 = createActionCard birthday 2"
  by (simp add: deckFaces_def nth_append)

lemma createDeck_72:
  "createDeck uuid ! 72 = \<lparr>card_id = uuid 72, card_value = 2, face = Action birthday\<rparr>"
  using deckFaces_72
  by (simp add: createDeck_def length_deckFaces nth_enumerate_eq createActionCard_def)

lemma top_is_birthday:
  "last (shuffleDeck topBirthday (createDeck uuid))
     = \<lparr>card_id = uuid 72, card_value = 2, face = Action birthday\<rparr>"
proof -
  let ?C = "createDeck uuid"
  have l: "length ?C = 105" by (rule length_createDeck)
  have ne: "?C \<noteq> []" using l by auto
  have "last (?C[104 := ?C ! 72, 72 := ?C ! 104]) = ?C ! 72"
    using l ne by (simp add: last_conv_nth)
  then show ?thesis unfolding shuffle_top[OF l] createDeck_72 .
qed

lemma dealHand_appends:
  "i < length (players st) \<Longrightarrow>
   \<exists>zs. players (dealHand n i st) ! i = (players st ! i)\<lparr>hand := hand (players st ! i) @ zs\<rparr>"
proof (induction n arbitrary: st)
  case 0
  show ?case by (intro exI[of _ "[]"]) simp
next
  case (Suc n)
  show ?case
  proof (cases "deck st = []")
    case True
    then show ?thesis using Suc.IH[OF Suc.prems] by (simp add: pop_def)
  next
    case False
    let ?st = "modPlayer i (\<lambda>p. p\<lparr>hand := hand p @ [last (deck st)]\<rparr>)
                 (st\<lparr>deck := butlast (deck st)\<rparr>)"
    have "i < length (players ?st)" using Suc.prems by (simp add: modPlayer_fields)
    from Suc.IH[OF this] obtain zs where
      "players (dealHand n i ?st) ! i = (players ?st ! i)\<lparr>hand := hand (players ?st ! i) @ zs\<rparr>" ..
    then have "players (dealHand (Suc n) i st) ! i
                 = (players st ! i)\<lparr>hand := hand (players st ! i) @ (last (deck st) # zs)\<rparr>"
      using False Suc.prems by (simp add: pop_def modPlayer_fields)
    then show ?thesis ..
  qed
qed

lemma dealPlayer_first:
  assumes "i < length (players s)" and "deck s \<noteq> []"
  shows "\<exists>zs. players (dealPlayer s i) ! i
           = (players s ! i)\<lparr>hand := last (deck s) # zs, properties := [], bank := []\<rparr>"
proof -
  let ?s = "modPlayer i (\<lambda>p. p\<lparr>hand := [], properties := [], bank := []\<rparr>) s"
  let ?st = "modPlayer i (\<lambda>p. p\<lparr>hand := hand p @ [last (deck s)]\<rparr>)
               (?s\<lparr>deck := butlast (deck s)\<rparr>)"
  have "i < length (players ?st)" using assms by (simp add: modPlayer_fields)
  from dealHand_appends[OF this, of 4] obtain zs where
    "players (dealHand 4 i ?st) ! i = (players ?st ! i)\<lparr>hand := hand (players ?st ! i) @ zs\<rparr>" ..
  moreover have "dealPlayer s i = dealHand 4 i ?st"
    using assms by (simp add: dealPlayer_def eval_nat_numeral(3) numeral_Bit0 pop_def modPlayer_fields)
  ultimately have "players (dealPlayer s i) ! i
           = (players s ! i)\<lparr>hand := last (deck s) # zs, properties := [], bank := []\<rparr>"
    using assms by (simp add: modPlayer_fields)
  then show ?thesis ..
qed

lemma startGame_two:
  assumes "length (players st) = 2"
  shows "\<exists>zs. players (snd (startGame now uuid r st)) ! 0
           = (players st ! 0)\<lparr>hand := last (shuffleDeck r (createDeck uuid)) # zs,
                               properties := [], bank := []\<rparr>"
    and "ctl (snd (startGame now uuid r st)) = (0, draw, pendingAction st, 2, 3)"
proof -
  define st1 where "st1 = st\<lparr>deck := shuffleDeck r (createDeck uuid), discardPile := [],
                     phase := playing, turnPhase := draw, currentPlayerIndex := 0,
                     actionsRemaining := 3\<rparr>"
  define a where "a = dealPlayer st1 0"
  define b where "b = dealPlayer a 1"
  have l1: "length (players st1) = 2" "length (deck st1) = 105"
    using assms by (simp_all add: st1_def length_shuffleDeck length_createDeck)
  have u: "[0..<2] = [0, Suc 0]" by (simp add: upt_rec)
  have sg: "startGame now uuid r st = (Inr (), b\<lparr>updatedAt := now\<rparr>)"
    using assms l1 u unfolding startGame_def Let_def st1_def[symmetric]
    by (simp add: a_def b_def)
  have ne: "deck st1 \<noteq> []" using l1 by auto
  have "0 < length (players st1)" using l1 by simp
  from dealPlayer_first[OF this ne] obtain zs where
    z: "players a ! 0 = (players st1 ! 0)\<lparr>hand := last (deck st1) # zs, properties := [], bank := []\<rparr>"
    unfolding a_def ..
  have "players b ! 0 = players a ! 0" by (simp add: b_def dealPlayer_other)
  with z have "players (snd (startGame now uuid r st)) ! 0
           = (players st ! 0)\<lparr>hand := last (shuffleDeck r (createDeck uuid)) # zs,
                               properties := [], bank := []\<rparr>"
    by (simp add: sg st1_def)
  then show "\<exists>zs. players (snd (startGame now uuid r st)) ! 0
           = (players st ! 0)\<lparr>hand := last (shuffleDeck r (createDeck uuid)) # zs,
                               properties := [], bank := []\<rparr>" ..
  have "ctl b = ctl st1" by (simp add: a_def b_def)
  then show "ctl (snd (startGame now uuid r st)) = (0, draw, pendingAction st, 2, 3)"
    using assms by (simp add: sg ctl_def st1_def)
qed

lemma drawLoop_appends:
  "i < length (players st) \<Longrightarrow>
   \<exists>zs. players (snd (drawLoop r n i st acc)) ! i
           = (players st ! i)\<lparr>hand := hand (players st ! i) @ zs\<rparr>"
proof (induction n arbitrary: st acc)
  case 0
  show ?case by (intro exI[of _ "[]"]) simp
next
  case (Suc n)
  define st1 where "st1 = (if deck st = []
                 then st\<lparr>deck := shuffleDeck r (discardPile st), discardPile := []\<rparr>
                 else st)"
  have p1: "players st1 = players st" by (simp add: st1_def)
  show ?case
  proof (cases "deck st1 = []")
    case True
    have "i < length (players st1)" using Suc.prems p1 by simp
    from Suc.IH[OF this, of acc] True show ?thesis
      unfolding drawLoop.simps Let_def st1_def[symmetric] by (simp add: pop_def p1)
  next
    case False
    let ?st = "modPlayer i (\<lambda>p. p\<lparr>hand := hand p @ [last (deck st1)]\<rparr>)
                 (st1\<lparr>deck := butlast (deck st1)\<rparr>)"
    have "i < length (players ?st)" using Suc.prems p1 by (simp add: modPlayer_fields)
    from Suc.IH[OF this, of "acc @ [last (deck st1)]"] obtain zs where
      "players (snd (drawLoop r n i ?st (acc @ [last (deck st1)]))) ! i
         = (players ?st ! i)\<lparr>hand := hand (players ?st ! i) @ zs\<rparr>" ..
    then have "players (snd (drawLoop r (Suc n) i st acc)) ! i
           = (players st ! i)\<lparr>hand := hand (players st ! i) @ (last (deck st1) # zs)\<rparr>"
      unfolding drawLoop.simps Let_def st1_def[symmetric]
      using False Suc.prems p1 by (simp add: pop_def modPlayer_fields)
    then show ?thesis ..
  qed
qed

lemma lobbyOfTwo_facts:
  "length (players lobbyOfTwo) = 2"
  "player_id (players lobbyOfTwo ! 0) = ''A''"
  "pendingAction lobbyOfTwo = None"
  by (simp_all add: lobbyOfTwo_def addPlayer_def createGameState_def Let_def)

lemma matchOfTwo_facts:
  "ctl matchOfTwo = (0, draw, None, 2, 3)"
  "player_id (players matchOfTwo ! 0) = ''A''"
  "\<exists>zs. hand (players matchOfTwo ! 0) = act (serialIds 72) birthday 2 # zs"
proof -
  from startGame_two(1)[OF lobbyOfTwo_facts(1), of 3 serialIds topBirthday] obtain zs where
    z: "players matchOfTwo ! 0
          = (players lobbyOfTwo ! 0)\<lparr>hand := last (shuffleDeck topBirthday (createDeck serialIds)) # zs,
                                      properties := [], bank := []\<rparr>"
    unfolding matchOfTwo_def perform.simps ..
  show "ctl matchOfTwo = (0, draw, None, 2, 3)"
    using startGame_two(2)[OF lobbyOfTwo_facts(1), of 3 serialIds topBirthday]
    by (simp add: matchOfTwo_def lobbyOfTwo_facts(3))
  show "player_id (players matchOfTwo ! 0) = ''A''"
    by (simp add: z lobbyOfTwo_facts(2))
  have "hand (players matchOfTwo ! 0) = act (serialIds 72) birthday 2 # zs"
    by (simp add: z top_is_birthday act_def)
  then show "\<exists>zs. hand (players matchOfTwo ! 0) = act (serialIds 72) birthday 2 # zs" ..
qed

lemma drawCards_first:
  assumes c: "ctl st = (0, draw, pa, n, k)" and n: "0 < n"
    and p: "player_id (players st ! 0) = who"
    and h: "hand (players st ! 0) = c0 # zs"
  shows "ctl (snd (drawCards now r st who)) = (0, action, pa, n, k)"
    and "player_id (players (snd (drawCards now r st who)) ! 0) = who"
    and "\<exists>zs. hand (players (snd (drawCards now r st who)) ! 0) = c0 # zs"
proof -
  have l: "0 < length (players st)" and cpi: "currentPlayerIndex st = 0"
    and tp: "turnPhase st = draw"
    using c n by (simp_all add: ctl_def)
  then obtain q qs where ps: "players st = q # qs" by (cases "players st") auto
  have fp: "findPlayer st who = Some 0" using p by (simp add: findPlayer_def ps)
  have tc: "turnCheck st who = None" using l cpi p by (simp add: turnCheck_def)
  obtain drawn st1 where d: "drawLoop r 2 0 st [] = (drawn, st1)" by (cases "drawLoop r 2 0 st []")
  have dc: "snd (drawCards now r st who) = st1\<lparr>turnPhase := action, updatedAt := now\<rparr>"
    using fp tc tp h d by (simp add: drawCards_def)
  have "ctl st1 = ctl st" using ctl_drawLoop[of r 2 0 st "[]"] by (simp add: d)
  then show "ctl (snd (drawCards now r st who)) = (0, action, pa, n, k)"
    using c by (simp add: dc ctl_def)
  from drawLoop_appends[OF l, of r 2 "[]"] obtain ys where
    y: "players st1 ! 0 = (players st ! 0)\<lparr>hand := hand (players st ! 0) @ ys\<rparr>"
    by (auto simp: d)
  show "player_id (players (snd (drawCards now r st who)) ! 0) = who"
    by (simp add: dc y p)
  have "hand (players (snd (drawCards now r st who)) ! 0) = c0 # (zs @ ys)"
    by (simp add: dc y h)
  then show "\<exists>zs. hand (players (snd (drawCards now r st who)) ! 0) = c0 # zs" ..
qed

lemma playCard_birthday:
  assumes c: "ctl st = (0, action, None, n, k)" and n: "0 < n" and k: "0 < k"
    and p: "player_id (players st ! 0) = who"
    and h: "hand (players st ! 0) = c0 # zs"
    and i: "card_id c0 = cid" and f: "face c0 = Action birthday"
  shows "pendingAction (snd (playCard now r st who cid None)) \<noteq> None"
    and "turnPhase (snd (playCard now r st who cid None)) = responding"
    and "length (players (snd (playCard now r st who cid None))) = n"
proof -
  have l: "0 < length (players st)" and cpi: "currentPlayerIndex st = 0"
    and tp: "turnPhase st = action" and ar: "0 < actionsRemaining st"
    and ln: "length (players st) = n"
    using c n k by (simp_all add: ctl_def)
  then obtain q qs where ps: "players st = q # qs" by (cases "players st") auto
  have fp: "findPlayer st who = Some 0" using p by (simp add: findPlayer_def ps)
  have tc: "turnCheck st who = None" using l cpi p by (simp add: turnCheck_def)
  have fi: "findIndex (\<lambda>c. card_id c = cid) (hand (players st ! 0)) = Some 0"
    using i by (simp add: h)
  let ?st1 = "modPlayer 0 (\<lambda>p. p\<lparr>hand := splice1 0 (hand p)\<rparr>) st"
  let ?pa = "(newPending (ByAction birthday) (player_id (players ?st1 ! 0)) c0)
               \<lparr>amount := Some 2, respondedPlayers := Some []\<rparr>"
  have pd: "playDispatch r ?st1 0 c0 None = (Inr (), setPending ?pa ?st1)"
    using f by (simp add: playDispatch_def tgt_def playActionCard_def)
  have "snd (playCard now r st who cid None)
          = checkWinner ((setPending ?pa ?st1)\<lparr>actionsRemaining := actionsRemaining st - 1\<rparr>)
              \<lparr>updatedAt := now\<rparr>"
    using fp tc tp ar fi h pd
    by (simp add: playCard_def Let_def andThen_def checkWinner_def setPending_def modPlayer_def
          split: option.splits)
  then show "pendingAction (snd (playCard now r st who cid None)) \<noteq> None"
    and "turnPhase (snd (playCard now r st who cid None)) = responding"
    and "length (players (snd (playCard now r st who cid None))) = n"
    using ln
    by (simp_all add: checkWinner_def setPending_def modPlayer_def split: option.splits)
qed

lemma birthdayPlayed_facts:
  "pendingAction birthdayPlayed \<noteq> None"
  "turnPhase birthdayPlayed = responding"
  "length (players birthdayPlayed) = 2"
proof -
  let ?d = "perform 4 (DrawCards noShuffle ''A'') matchOfTwo"
  from matchOfTwo_facts(3) obtain zs where
    h: "hand (players matchOfTwo ! 0) = act (serialIds 72) birthday 2 # zs" ..
  have two: "0 < (2::nat)" by simp
  note d = drawCards_first[OF matchOfTwo_facts(1) two matchOfTwo_facts(2) h, of 4 noShuffle]
  from d(3) obtain ys where
    h': "hand (players ?d ! 0) = act (serialIds 72) birthday 2 # ys"
    unfolding perform.simps ..
  have c: "ctl ?d = (0, action, None, 2, 3)" and p: "player_id (players ?d ! 0) = ''A''"
    using d(1,2) by simp_all
  have three: "0 < (3::int)" by simp
  have i: "card_id (act (serialIds 72) birthday 2) = serialIds 72"
    and f: "face (act (serialIds 72) birthday 2) = Action birthday"
    by (simp_all add: act_def)
  note pl = playCard_birthday[OF c two three p h' i f, of 5 noShuffle]
  show "pendingAction birthdayPlayed \<noteq> None"
    "turnPhase birthdayPlayed = responding"
    "length (players birthdayPlayed) = 2"
    using pl by (simp_all add: birthdayPlayed_def)
qed

lemma reachable_restarted: "reachable restarted"
  unfolding restarted_def birthdayPlayed_def matchOfTwo_def lobbyOfTwo_def
  by (intro reachable.intros)

lemma reachableCalmly_coherent: "reachableCalmly st \<Longrightarrow> coherent st"
  by (induction rule: reachableCalmly.induct) (simp_all add: coherent_created coherent_perform)

lemma restarted_facts:
  "pendingAction restarted \<noteq> None" "turnPhase restarted = draw" "\<not> coherent restarted"
proof -
  have l: "2 \<le> length (players birthdayPlayed)" "length (players birthdayPlayed) \<le> 5"
    by (simp_all add: birthdayPlayed_facts(3))
  show a: "pendingAction restarted \<noteq> None"
    using birthdayPlayed_facts(1) by (simp add: restarted_def startGame_control(1))
  show b: "turnPhase restarted = draw"
    using startGame_control(2)[OF l, of 6 serialIds noShuffle] by (simp add: restarted_def)
  from a b show "\<not> coherent restarted" by (simp add: coherent_def)
qed

text \<open>
  C3. \<^verbatim>\<open>startGame\<close> sets the turn phase to \<open>draw\<close> and leaves \<open>pendingAction\<close> as it
  finds it, in every state. The state \<open>restarted\<close> is reachable through the exported
  operations (two participants join, the match starts, A draws and plays a birthday
  card, the match is started again, and that call returns normally); in it an action is
  pending while the turn phase is \<open>draw\<close>. The state before the second start is
  reachable too and has the pending action and the responding phase together. (Every
  other operation, and \<^verbatim>\<open>startGame\<close> itself when nothing is pending, keeps the two
  together: \<open>coherent_perform\<close>, \<open>reachableCalmly_coherent\<close>.)
\<close>

theorem restart_keeps_pending_action:
  "pendingAction (snd (startGame now uuid r st)) = pendingAction st
   \<and> reachable birthdayPlayed
   \<and> pendingAction birthdayPlayed \<noteq> None
   \<and> turnPhase birthdayPlayed = responding
   \<and> fst (startGame 6 serialIds noShuffle birthdayPlayed) = Inr ()
   \<and> reachable restarted
   \<and> pendingAction restarted \<noteq> None
   \<and> turnPhase restarted = draw
   \<and> \<not> coherent restarted"
proof -
  have l: "2 \<le> length (players birthdayPlayed)" "length (players birthdayPlayed) \<le> 5"
    by (simp_all add: birthdayPlayed_facts(3))
  have "reachable birthdayPlayed"
    unfolding birthdayPlayed_def matchOfTwo_def lobbyOfTwo_def by (intro reachable.intros)
  with startGame_control(2)[OF l, of 6 serialIds noShuffle] startGame_control(1)
       birthdayPlayed_facts(1,2) reachable_restarted restarted_facts
  show ?thesis by simp
qed

section \<open>Settling a payment\<close>

lemma set_splice1_subset: "set (splice1 k xs) \<subseteq> set xs"
  by (auto simp: splice1_def dest: in_set_takeD in_set_dropD)

lemma splice1_keeps:
  assumes "x \<in> set xs" and "x \<noteq> xs ! k"
  shows "x \<in> set (splice1 k xs)"
proof (cases "k < length xs")
  case True
  have "set xs = set (take k xs) \<union> set (drop k xs)"
    using set_append[of "take k xs" "drop k xs"] by simp
  moreover have "drop k xs = xs ! k # drop (Suc k) xs"
    using Cons_nth_drop_Suc[OF True] by simp
  ultimately show ?thesis using assms by (auto simp: splice1_def)
next
  case False
  with assms show ?thesis by (simp add: splice1_def)
qed

lemma distinct_take_drop_Suc:
  assumes "distinct ys"
  shows "distinct (take k ys @ drop (Suc k) ys)"
proof -
  from assms have "distinct (take k ys @ drop k ys)" by simp
  then have d: "distinct (take k ys)" "set (take k ys) \<inter> set (drop k ys) = {}"
    unfolding distinct_append by simp_all
  have s: "set (drop (Suc k) ys) \<subseteq> set (drop k ys)"
    by (rule set_drop_subset_set_drop) simp
  from assms have "distinct (drop (Suc k) ys)" by simp
  with d s show ?thesis unfolding distinct_append by blast
qed

lemma distinct_map_splice1:
  assumes "distinct (map f xs)"
  shows "distinct (map f (splice1 k xs))"
proof -
  have "map f (splice1 k xs) = take k (map f xs) @ drop (Suc k) (map f xs)"
    by (simp add: splice1_def take_map drop_map)
  with distinct_take_drop_Suc[OF assms, of k] show ?thesis by simp
qed

lemma splice1_removes:
  assumes "distinct (map f xs)" and "k < length xs" and "y \<in> set (splice1 k xs)"
  shows "f y \<noteq> f (xs ! k)"
proof -
  let ?ys = "map f xs"
  have k: "k < length ?ys" using assms(2) by simp
  have "distinct (take k ?ys @ drop k ?ys)" using assms(1) by simp
  moreover have dk: "drop k ?ys = f (xs ! k) # drop (Suc k) ?ys"
    using Cons_nth_drop_Suc[OF k] assms(2) by simp
  ultimately have "f (xs ! k) \<notin> set (take k ?ys) \<union> set (drop (Suc k) ?ys)"
    unfolding distinct_append by auto
  moreover have "f y \<in> set (take k ?ys) \<union> set (drop (Suc k) ?ys)"
    using assms(3) by (auto simp: splice1_def take_map drop_map)
  ultimately show ?thesis by auto
qed

lemma distinct_map_unique:
  "distinct (map f xs) \<Longrightarrow> x \<in> set xs \<Longrightarrow> y \<in> set xs \<Longrightarrow> f x = f y \<Longrightarrow> x = y"
  by (meson distinct_map inj_onD)

lemma concat_update_splice1:
  assumes "k < length ps" and "cards s' = splice1 m (cards (ps ! k))" and "m < length (cards (ps ! k))"
  shows "concat (map cards (ps[k := s'])) =
           splice1 (length (concat (map cards (take k ps))) + m) (concat (map cards ps))"
proof -
  let ?a = "concat (map cards (take k ps))"
  let ?b = "concat (map cards (drop (Suc k) ps))"
  have ps: "ps = take k ps @ ps ! k # drop (Suc k) ps" using assms(1) by (simp add: id_take_nth_drop)
  have u: "ps[k := s'] = take k ps @ s' # drop (Suc k) ps" using assms(1) by (simp add: upd_conv_take_nth_drop)
  have c: "concat (map cards ps) = ?a @ cards (ps ! k) @ ?b"
    by (subst ps) simp
  have c': "concat (map cards (ps[k := s'])) = ?a @ splice1 m (cards (ps ! k)) @ ?b"
    by (simp add: u assms(2))
  show ?thesis
    unfolding c c' using assms(3) by (simp add: splice1_def)
qed

lemma concat_nth_offset:
  assumes "k < length ps" and "m < length (cards (ps ! k))"
  shows "length (concat (map cards (take k ps))) + m < length (concat (map cards ps))
         \<and> concat (map cards ps) ! (length (concat (map cards (take k ps))) + m) = cards (ps ! k) ! m"
proof -
  let ?a = "concat (map cards (take k ps))"
  let ?b = "concat (map cards (drop (Suc k) ps))"
  have ps: "ps = take k ps @ ps ! k # drop (Suc k) ps" using assms(1) by (simp add: id_take_nth_drop)
  have c: "concat (map cards ps) = ?a @ cards (ps ! k) @ ?b"
    by (subst ps) simp
  show ?thesis unfolding c using assms(2) by (simp add: nth_append)
qed


lemma nth_modPlayer:
  "i < length (players st) \<Longrightarrow> players (modPlayer i f st) ! i = f (players st ! i)"
  "j \<noteq> i \<Longrightarrow> players (modPlayer i f st) ! j = players st ! j"
  by (simp_all add: modPlayer_def)

lemma nth_modSet:
  "i < length (players st) \<Longrightarrow>
     players (modSet i k f st) ! i =
       (players st ! i)\<lparr>properties := (properties (players st ! i))[k := f (properties (players st ! i) ! k)]\<rparr>"
  "j \<noteq> i \<Longrightarrow> players (modSet i k f st) ! j = players st ! j"
  by (simp_all add: modSet_def modPlayer_def)

lemma length_modSet [simp]: "length (players (modSet i k f st)) = length (players st)"
  by (simp add: modSet_def modPlayer_def)

lemma length_modPlayer [simp]: "length (players (modPlayer i f st)) = length (players st)"
  by (simp add: modPlayer_def)

lemma grows_refl: "grows q q"
  by (auto simp: grows_def)

lemma grows_trans:
  assumes "grows a b" and "grows b c"
  shows "grows a c"
proof -
  have "\<exists>u \<in> set (properties c). color u = color s \<and> set (cards s) \<subseteq> set (cards u)"
    if "s \<in> set (properties a)" for s
  proof -
    from assms(1) that obtain t where t: "t \<in> set (properties b)" "color t = color s"
      "set (cards s) \<subseteq> set (cards t)" unfolding grows_def by blast
    from assms(2) t(1) obtain u where "u \<in> set (properties c)" "color u = color t"
      "set (cards t) \<subseteq> set (cards u)" unfolding grows_def by blast
    with t show ?thesis by auto
  qed
  moreover have "set (bank a) \<subseteq> set (bank c)" using assms unfolding grows_def by blast
  ultimately show ?thesis unfolding grows_def by blast
qed

lemma grows_bank: "grows q (q\<lparr>bank := bank q @ [c]\<rparr>)"
  by (auto simp: grows_def)

lemma sets_grow_update:
  assumes "k < length ps" and "color s' = color (ps ! k)" and "set (cards (ps ! k)) \<subseteq> set (cards s')"
    and "s \<in> set ps"
  shows "\<exists>t \<in> set (ps[k := s']). color t = color s \<and> set (cards s) \<subseteq> set (cards t)"
proof -
  from assms(4) obtain n where n: "n < length ps" "s = ps ! n" by (auto simp: in_set_conv_nth)
  show ?thesis
  proof (cases "n = k")
    case True
    with n assms have "s' \<in> set (ps[k := s'])" "color s' = color s" "set (cards s) \<subseteq> set (cards s')"
      by (auto simp: set_update_memI)
    then show ?thesis by blast
  next
    case False
    with n have "ps[k := s'] ! n = s" "n < length (ps[k := s'])" by simp_all
    then have "s \<in> set (ps[k := s'])" by (metis nth_mem)
    then show ?thesis by blast
  qed
qed

lemma playPropertyCard_lands:
  assumes "isPropertyCard c" and "ownColourLegal c" and "j < length (players st)"
  shows "\<exists>st1. playPropertyCard st j c None = (Inr (), st1)
           \<and> length (players st1) = length (players st)
           \<and> (\<forall>q. q \<noteq> j \<longrightarrow> players st1 ! q = players st ! q)
           \<and> bank (players st1 ! j) = bank (players st ! j)
           \<and> grows (players st ! j) (players st1 ! j)
           \<and> (\<exists>s' \<in> set (properties (players st1 ! j)). Some (color s') = cardColor c \<and> c \<in> set (cards s'))"
proof -
  from assms(1) obtain col w wcs where f: "face c = Property col w wcs"
    by (auto simp: isPropertyCard_def split: CardFace.splits)
  from assms(2) f have legal: "\<not> (w \<and> (case wcs of Some l \<Rightarrow> col \<notin> set l | None \<Rightarrow> False))"
    by (simp add: ownColourLegal_def)
  let ?ps = "properties (players st ! j)"
  show ?thesis
  proof (cases "findIndex (\<lambda>s. color s = col) ?ps")
    case None
    let ?n = "updatePropertySetCompletion ((emptySet col)\<lparr>cards := [c]\<rparr>)"
    let ?st1 = "modPlayer j (\<lambda>p. p\<lparr>properties := properties p @ [?n]\<rparr>) st"
    have r: "playPropertyCard st j c None = (Inr (), ?st1)"
      using f legal None by (simp add: playPropertyCard_def Let_def)
    have pj: "players ?st1 ! j = (players st ! j)\<lparr>properties := ?ps @ [?n]\<rparr>"
      using assms(3) by (simp add: nth_modPlayer)
    have "grows (players st ! j) (players ?st1 ! j)"
      unfolding pj by (auto simp: grows_def)
    moreover have "\<exists>s' \<in> set (properties (players ?st1 ! j)). Some (color s') = cardColor c \<and> c \<in> set (cards s')"
      unfolding pj using f
      by (simp add: cardColor_def updatePropertySetCompletion_def emptySet_def)
    ultimately show ?thesis using r pj by (auto simp: nth_modPlayer)
  next
    case (Some k)
    from findIndex_Some[OF Some] have k: "k < length ?ps" "color (?ps ! k) = col" by simp_all
    let ?n = "updatePropertySetCompletion ((?ps ! k)\<lparr>cards := cards (?ps ! k) @ [c]\<rparr>)"
    let ?st1 = "modSet j k (\<lambda>s. updatePropertySetCompletion (s\<lparr>cards := cards s @ [c]\<rparr>)) st"
    have r: "playPropertyCard st j c None = (Inr (), ?st1)"
      using f legal Some by (simp add: playPropertyCard_def Let_def)
    have pj: "players ?st1 ! j = (players st ! j)\<lparr>properties := ?ps[k := ?n]\<rparr>"
      using assms(3) by (simp add: nth_modSet)
    have cn: "color ?n = color (?ps ! k)" "set (cards (?ps ! k)) \<subseteq> set (cards ?n)" "c \<in> set (cards ?n)"
      by (auto simp: updatePropertySetCompletion_def)
    have "grows (players st ! j) (players ?st1 ! j)"
      unfolding pj grows_def using sets_grow_update[OF k(1) cn(1) cn(2)] by simp
    moreover have "?n \<in> set (?ps[k := ?n])" using k(1) by (simp add: set_update_memI)
    then have "\<exists>s' \<in> set (properties (players ?st1 ! j)). Some (color s') = cardColor c \<and> c \<in> set (cards s')"
      unfolding pj using f cn k(2) by (auto simp: cardColor_def)
    ultimately show ?thesis using r pj by (auto simp: nth_modSet)
  qed
qed


lemma cards_updatePropertySetCompletion [simp]:
  "cards (updatePropertySetCompletion s) = cards s"
  "color (updatePropertySetCompletion s) = color s"
  by (simp_all add: updatePropertySetCompletion_def)

lemma payOne_step:
  assumes ij: "i \<noteq> j" and i: "i < length (players st)" and j: "j < length (players st)"
    and legal: "\<forall>c \<in> set (allSetCards (players st ! i)). ownColourLegal c"
  shows "\<exists>st1. payOne st i j x = (Inr (), st1) \<and> length (players st1) = length (players st)
     \<and> grows (players st ! j) (players st1 ! j)
     \<and> ((bank (players st1 ! i) = bank (players st ! i)
          \<and> allSetCards (players st1 ! i) = allSetCards (players st ! i)
          \<and> (\<forall>c \<in> set (holdings (players st ! i)). card_id c \<noteq> x))
        \<or> (\<exists>b < length (bank (players st ! i)).
              card_id (bank (players st ! i) ! b) = x
              \<and> bank (players st1 ! i) = splice1 b (bank (players st ! i))
              \<and> allSetCards (players st1 ! i) = allSetCards (players st ! i)
              \<and> bank (players st ! i) ! b \<in> set (bank (players st1 ! j)))
        \<or> (\<exists>n < length (allSetCards (players st ! i)).
              card_id (allSetCards (players st ! i) ! n) = x
              \<and> (\<forall>c \<in> set (bank (players st ! i)). card_id c \<noteq> x)
              \<and> bank (players st1 ! i) = bank (players st ! i)
              \<and> allSetCards (players st1 ! i) = splice1 n (allSetCards (players st ! i))
              \<and> (isPropertyCard (allSetCards (players st ! i) ! n) \<longrightarrow>
                   (\<exists>s' \<in> set (properties (players st1 ! j)).
                       Some (color s') = cardColor (allSetCards (players st ! i) ! n)
                       \<and> allSetCards (players st ! i) ! n \<in> set (cards s')))))"
proof (cases "findIndex (\<lambda>c. card_id c = x) (bank (players st ! i))")
  case (Some b)
  from findIndex_Some[OF Some] have b: "b < length (bank (players st ! i))"
    "card_id (bank (players st ! i) ! b) = x" by simp_all
  let ?c = "bank (players st ! i) ! b"
  let ?st1 = "modPlayer j (\<lambda>p. p\<lparr>bank := bank p @ [?c]\<rparr>)
                (modPlayer i (\<lambda>p. p\<lparr>bank := splice1 b (bank p)\<rparr>) st)"
  have r: "payOne st i j x = (Inr (), ?st1)" using Some by (simp add: payOne_def Let_def)
  have pi: "players ?st1 ! i = (players st ! i)\<lparr>bank := splice1 b (bank (players st ! i))\<rparr>"
    using ij i by (simp add: nth_modPlayer)
  have pj: "players ?st1 ! j = (players st ! j)\<lparr>bank := bank (players st ! j) @ [?c]\<rparr>"
    using ij j by (simp add: nth_modPlayer)
  have "grows (players st ! j) (players ?st1 ! j)" unfolding pj by (rule grows_bank)
  moreover have "allSetCards (players ?st1 ! i) = allSetCards (players st ! i)"
    unfolding pi by (simp add: allSetCards_def)
  moreover have "?c \<in> set (bank (players ?st1 ! j))" unfolding pj by simp
  ultimately show ?thesis using r b pi by auto
next
  case None
  then have nb: "\<forall>c \<in> set (bank (players st ! i)). card_id c \<noteq> x"
    by (simp add: findIndex_None)
  let ?ps = "properties (players st ! i)"
  let ?all = "allSetCards (players st ! i)"
  show ?thesis
  proof (cases "findIndex (\<lambda>s. findIndex (\<lambda>c. card_id c = x) (cards s) \<noteq> None) ?ps")
    case n2: None
    then have "\<forall>s \<in> set ?ps. \<forall>c \<in> set (cards s). card_id c \<noteq> x"
      by (simp add: findIndex_None)
    then have "\<forall>c \<in> set ?all. card_id c \<noteq> x" by (auto simp: allSetCards_def)
    with nb have "\<forall>c \<in> set (holdings (players st ! i)). card_id c \<noteq> x"
      by (auto simp: holdings_def)
    moreover have "payOne st i j x = (Inr (), st)" using None n2 by (simp add: payOne_def)
    ultimately show ?thesis by (auto simp: grows_refl)
  next
    case (Some k)
    from findIndex_Some[OF Some] have k: "k < length ?ps"
      "findIndex (\<lambda>c. card_id c = x) (cards (?ps ! k)) \<noteq> None" by simp_all
    then obtain m where m0: "findIndex (\<lambda>c. card_id c = x) (cards (?ps ! k)) = Some m" by auto
    from findIndex_Some[OF m0] have m: "m < length (cards (?ps ! k))"
      "card_id (cards (?ps ! k) ! m) = x" by simp_all
    let ?c = "cards (?ps ! k) ! m"
    let ?n = "length (concat (map cards (take k ?ps))) + m"
    from concat_nth_offset[OF k(1) m(1)] have n: "?n < length ?all" "?all ! ?n = ?c"
      by (simp_all add: allSetCards_def)
    then have "?c \<in> set ?all" by (metis nth_mem)
    with legal have lc: "ownColourLegal ?c" by blast
    let ?st1 = "modSet i k (\<lambda>s. s\<lparr>cards := splice1 m (cards s)\<rparr>) st"
    have p1i: "players ?st1 ! i = (players st ! i)\<lparr>properties := ?ps[k := (?ps ! k)\<lparr>cards := splice1 m (cards (?ps ! k))\<rparr>]\<rparr>"
      using i by (simp add: nth_modSet)
    have p1j: "players ?st1 ! j = players st ! j" using ij by (simp add: nth_modSet)
    have unf: "payOne st i j x =
          andThen (if isPropertyCard ?c then playPropertyCard ?st1 j ?c None
                   else (Inr (), modPlayer j (\<lambda>p. p\<lparr>bank := bank p @ [?c]\<rparr>) ?st1))
                  (\<lambda>st2. (Inr (), modSet i k updatePropertySetCompletion st2))"
      using None Some m0 by (simp add: payOne_def Let_def)
    have fin: "\<exists>st3. payOne st i j x = (Inr (), st3) \<and> length (players st3) = length (players st)
                 \<and> players st3 ! j = players st2 ! j
                 \<and> bank (players st3 ! i) = bank (players st ! i)
                 \<and> allSetCards (players st3 ! i) = splice1 ?n ?all"
      if a: "(if isPropertyCard ?c then playPropertyCard ?st1 j ?c None
              else (Inr (), modPlayer j (\<lambda>p. p\<lparr>bank := bank p @ [?c]\<rparr>) ?st1)) = (Inr (), st2)"
        and l2: "length (players st2) = length (players st)"
        and p2i: "players st2 ! i = players ?st1 ! i" for st2
    proof -
      let ?st3 = "modSet i k updatePropertySetCompletion st2"
      have r: "payOne st i j x = (Inr (), ?st3)" unfolding unf a by (simp add: andThen_def)
      have p3i: "players ?st3 ! i =
              (players st ! i)\<lparr>properties :=
                 ?ps[k := updatePropertySetCompletion ((?ps ! k)\<lparr>cards := splice1 m (cards (?ps ! k))\<rparr>)]\<rparr>"
        using i l2 k(1) by (simp add: nth_modSet p2i p1i)
      have "allSetCards (players ?st3 ! i) = splice1 ?n ?all"
        unfolding p3i allSetCards_def
        using concat_update_splice1[OF k(1) _ m(1),
                of "updatePropertySetCompletion ((?ps ! k)\<lparr>cards := splice1 m (cards (?ps ! k))\<rparr>)"]
        by simp
      moreover have "players ?st3 ! j = players st2 ! j" using ij by (simp add: nth_modSet)
      moreover have "bank (players ?st3 ! i) = bank (players st ! i)" unfolding p3i by simp
      ultimately show ?thesis using r l2 by auto
    qed
    show ?thesis
    proof (cases "isPropertyCard ?c")
      case True
      from playPropertyCard_lands[OF True lc, of j ?st1] j
      obtain st2 where st2: "playPropertyCard ?st1 j ?c None = (Inr (), st2)"
        "length (players st2) = length (players ?st1)"
        "\<forall>q. q \<noteq> j \<longrightarrow> players st2 ! q = players ?st1 ! q"
        "grows (players ?st1 ! j) (players st2 ! j)"
        "\<exists>s' \<in> set (properties (players st2 ! j)). Some (color s') = cardColor ?c \<and> ?c \<in> set (cards s')"
        by auto
      from st2(3) ij have p2i: "players st2 ! i = players ?st1 ! i" by simp
      from fin[of st2] True st2(1,2) p2i
      obtain st3 where st3: "payOne st i j x = (Inr (), st3)" "length (players st3) = length (players st)"
        "players st3 ! j = players st2 ! j" "bank (players st3 ! i) = bank (players st ! i)"
        "allSetCards (players st3 ! i) = splice1 ?n ?all" by auto
      have g: "grows (players st ! j) (players st3 ! j)" using st2(4) p1j st3(3) by simp
      have land: "\<exists>s' \<in> set (properties (players st3 ! j)). Some (color s') = cardColor (?all ! ?n) \<and> ?all ! ?n \<in> set (cards s')"
        using st2(5) st3(3) n(2) by simp
      from st3 g land n nb m(2) show ?thesis
        by (intro exI[of _ st3] conjI disjI2) (auto intro!: exI[of _ ?n])
    next
      case False
      let ?st2 = "modPlayer j (\<lambda>p. p\<lparr>bank := bank p @ [?c]\<rparr>) ?st1"
      have p2i: "players ?st2 ! i = players ?st1 ! i" using ij by (simp add: nth_modPlayer)
      have p2j: "players ?st2 ! j = (players st ! j)\<lparr>bank := bank (players st ! j) @ [?c]\<rparr>"
        using j p1j by (simp add: nth_modPlayer)
      from fin[of ?st2] False p2i
      obtain st3 where st3: "payOne st i j x = (Inr (), st3)" "length (players st3) = length (players st)"
        "players st3 ! j = players ?st2 ! j" "bank (players st3 ! i) = bank (players st ! i)"
        "allSetCards (players st3 ! i) = splice1 ?n ?all" by auto
      have g: "grows (players st ! j) (players st3 ! j)" unfolding st3(3) p2j by (rule grows_bank)
      from st3 g n nb m(2) False show ?thesis
        by (intro exI[of _ st3] conjI disjI2) (auto intro!: exI[of _ ?n])
    qed
  qed
qed


lemma landed_grows: "landed q c \<Longrightarrow> grows q q' \<Longrightarrow> landed q' c"
  unfolding landed_def grows_def by (metis subsetD)

lemma distinct_holdings_parts:
  assumes "distinct (map card_id (xs @ ys))"
  shows "distinct (map card_id xs)" "distinct (map card_id ys)"
    "\<And>a b. a \<in> set xs \<Longrightarrow> b \<in> set ys \<Longrightarrow> card_id a \<noteq> card_id b"
  using assms by (auto simp: distinct_append)

lemma distinct_holdings_sub:
  assumes "distinct (map card_id (xs @ ys))" and "distinct (map card_id xs')" and "distinct (map card_id ys')"
    and "set xs' \<subseteq> set xs" and "set ys' \<subseteq> set ys"
  shows "distinct (map card_id (xs' @ ys'))"
  using assms by (auto simp: distinct_append)

lemma payOne_summary:
  assumes ij: "i \<noteq> j" and i: "i < length (players st)" and j: "j < length (players st)"
    and legal: "\<forall>c \<in> set (allSetCards (players st ! i)). ownColourLegal c"
    and dist: "distinct (map card_id (holdings (players st ! i)))"
  shows "\<exists>st1. payOne st i j x = (Inr (), st1) \<and> length (players st1) = length (players st)
     \<and> grows (players st ! j) (players st1 ! j)
     \<and> set (bank (players st1 ! i)) \<subseteq> set (bank (players st ! i))
     \<and> set (allSetCards (players st1 ! i)) \<subseteq> set (allSetCards (players st ! i))
     \<and> distinct (map card_id (holdings (players st1 ! i)))
     \<and> (\<forall>c \<in> set (holdings (players st1 ! i)). card_id c \<noteq> x)
     \<and> (\<forall>c \<in> set (bank (players st ! i)). card_id c \<noteq> x \<longrightarrow> c \<in> set (bank (players st1 ! i)))
     \<and> (\<forall>c \<in> set (allSetCards (players st ! i)). card_id c \<noteq> x \<longrightarrow> c \<in> set (allSetCards (players st1 ! i)))
     \<and> (\<forall>c \<in> set (bank (players st ! i)). card_id c = x \<longrightarrow> c \<in> set (bank (players st1 ! j)))
     \<and> (\<forall>c \<in> set (allSetCards (players st ! i)). card_id c = x \<and> isPropertyCard c \<longrightarrow>
           landed (players st1 ! j) c)"
proof -
  let ?B = "bank (players st ! i)" and ?A = "allSetCards (players st ! i)"
  from dist have d: "distinct (map card_id (?B @ ?A))" by (simp add: holdings_def)
  note dp = distinct_holdings_parts[OF d]
  from payOne_step[OF ij i j legal, of x] obtain st1 where
    r: "payOne st i j x = (Inr (), st1)" "length (players st1) = length (players st)"
       "grows (players st ! j) (players st1 ! j)"
    and cases: "(bank (players st1 ! i) = ?B \<and> allSetCards (players st1 ! i) = ?A
          \<and> (\<forall>c \<in> set (holdings (players st ! i)). card_id c \<noteq> x))
        \<or> (\<exists>b < length ?B. card_id (?B ! b) = x
              \<and> bank (players st1 ! i) = splice1 b ?B
              \<and> allSetCards (players st1 ! i) = ?A
              \<and> ?B ! b \<in> set (bank (players st1 ! j)))
        \<or> (\<exists>n < length ?A. card_id (?A ! n) = x
              \<and> (\<forall>c \<in> set ?B. card_id c \<noteq> x)
              \<and> bank (players st1 ! i) = ?B
              \<and> allSetCards (players st1 ! i) = splice1 n ?A
              \<and> (isPropertyCard (?A ! n) \<longrightarrow>
                   (\<exists>s' \<in> set (properties (players st1 ! j)).
                       Some (color s') = cardColor (?A ! n) \<and> ?A ! n \<in> set (cards s'))))"
    by blast
  let ?B' = "bank (players st1 ! i)" and ?A' = "allSetCards (players st1 ! i)"
  have rest: "set ?B' \<subseteq> set ?B \<and> set ?A' \<subseteq> set ?A
     \<and> distinct (map card_id (?B' @ ?A'))
     \<and> (\<forall>c \<in> set (?B' @ ?A'). card_id c \<noteq> x)
     \<and> (\<forall>c \<in> set ?B. card_id c \<noteq> x \<longrightarrow> c \<in> set ?B')
     \<and> (\<forall>c \<in> set ?A. card_id c \<noteq> x \<longrightarrow> c \<in> set ?A')
     \<and> (\<forall>c \<in> set ?B. card_id c = x \<longrightarrow> c \<in> set (bank (players st1 ! j)))
     \<and> (\<forall>c \<in> set ?A. card_id c = x \<and> isPropertyCard c \<longrightarrow> landed (players st1 ! j) c)"
    using cases
  proof (elim disjE conjE exE)
    assume a: "?B' = ?B" "?A' = ?A" "\<forall>c \<in> set (holdings (players st ! i)). card_id c \<noteq> x"
    then show ?thesis using d by (auto simp: holdings_def)
  next
    fix b assume a: "b < length ?B" "card_id (?B ! b) = x" "?B' = splice1 b ?B" "?A' = ?A"
      "?B ! b \<in> set (bank (players st1 ! j))"
    have bm: "?B ! b \<in> set ?B" using a(1) by simp
    have s1: "set ?B' \<subseteq> set ?B" unfolding a(3) by (rule set_splice1_subset)
    have d1: "distinct (map card_id ?B')" unfolding a(3) by (rule distinct_map_splice1[OF dp(1)])
    have dd: "distinct (map card_id (?B' @ ?A'))"
      using distinct_holdings_sub[OF d d1 dp(2) s1] a(4) by simp
    have nb: "\<forall>c \<in> set ?B'. card_id c \<noteq> x"
      using splice1_removes[OF dp(1) a(1)] a(2,3) by auto
    have na: "\<forall>c \<in> set ?A. card_id c \<noteq> x" using dp(3)[OF bm] a(2) by metis
    have k: "\<forall>c \<in> set ?B. card_id c \<noteq> x \<longrightarrow> c \<in> set ?B'"
      using splice1_keeps[of _ ?B b] a(2,3) by auto
    have u: "\<forall>c \<in> set ?B. card_id c = x \<longrightarrow> c = ?B ! b"
      using distinct_map_unique[OF dp(1) _ bm] a(2) by auto
    from s1 dd nb na k u a(4,5) show ?thesis by auto
  next
    fix n assume a: "n < length ?A" "card_id (?A ! n) = x" "\<forall>c \<in> set ?B. card_id c \<noteq> x"
      "?B' = ?B" "?A' = splice1 n ?A"
      "isPropertyCard (?A ! n) \<longrightarrow>
                   (\<exists>s' \<in> set (properties (players st1 ! j)).
                       Some (color s') = cardColor (?A ! n) \<and> ?A ! n \<in> set (cards s'))"
    have am: "?A ! n \<in> set ?A" using a(1) by simp
    have s1: "set ?A' \<subseteq> set ?A" unfolding a(5) by (rule set_splice1_subset)
    have d1: "distinct (map card_id ?A')" unfolding a(5) by (rule distinct_map_splice1[OF dp(2)])
    have dd: "distinct (map card_id (?B' @ ?A'))"
      using distinct_holdings_sub[OF d dp(1) d1 _ s1] a(4) by simp
    have na: "\<forall>c \<in> set ?A'. card_id c \<noteq> x"
      using splice1_removes[OF dp(2) a(1)] a(2,5) by auto
    have k: "\<forall>c \<in> set ?A. card_id c \<noteq> x \<longrightarrow> c \<in> set ?A'"
      using splice1_keeps[of _ ?A n] a(2,5) by auto
    have u: "\<forall>c \<in> set ?A. card_id c = x \<longrightarrow> c = ?A ! n"
      using distinct_map_unique[OF dp(2) _ am] a(2) by auto
    have l: "\<forall>c \<in> set ?A. card_id c = x \<and> isPropertyCard c \<longrightarrow> landed (players st1 ! j) c"
      using u a(6) unfolding landed_def by auto
    from s1 dd na k l a(3,4) show ?thesis by auto
  qed
  with r show ?thesis unfolding holdings_def by blast
qed


lemma payAll_transfers:
  assumes "i \<noteq> j" and "i < length (players st)" and "j < length (players st)"
    and "\<forall>c \<in> set (allSetCards (players st ! i)). ownColourLegal c"
    and "distinct (map card_id (holdings (players st ! i)))"
  shows "\<exists>st'. payAll st i j ids = (Inr (), st') \<and> length (players st') = length (players st)
     \<and> grows (players st ! j) (players st' ! j)
     \<and> set (bank (players st' ! i)) \<subseteq> set (bank (players st ! i))
     \<and> set (allSetCards (players st' ! i)) \<subseteq> set (allSetCards (players st ! i))
     \<and> (\<forall>c \<in> set (holdings (players st' ! i)). card_id c \<notin> set ids)
     \<and> (\<forall>c \<in> set (bank (players st ! i)). card_id c \<in> set ids \<longrightarrow> c \<in> set (bank (players st' ! j)))
     \<and> (\<forall>c \<in> set (allSetCards (players st ! i)). card_id c \<in> set ids \<and> isPropertyCard c \<longrightarrow>
           landed (players st' ! j) c)"
  using assms
proof (induction ids arbitrary: st)
  case Nil
  then show ?case by (simp add: grows_refl)
next
  case (Cons x xs)
  from payOne_summary[OF Cons.prems, of x] obtain st1 where
    r: "payOne st i j x = (Inr (), st1)" and l1: "length (players st1) = length (players st)"
    and g1: "grows (players st ! j) (players st1 ! j)"
    and sb: "set (bank (players st1 ! i)) \<subseteq> set (bank (players st ! i))"
    and sa: "set (allSetCards (players st1 ! i)) \<subseteq> set (allSetCards (players st ! i))"
    and d1: "distinct (map card_id (holdings (players st1 ! i)))"
    and nx: "\<forall>c \<in> set (holdings (players st1 ! i)). card_id c \<noteq> x"
    and kb: "\<forall>c \<in> set (bank (players st ! i)). card_id c \<noteq> x \<longrightarrow> c \<in> set (bank (players st1 ! i))"
    and ka: "\<forall>c \<in> set (allSetCards (players st ! i)). card_id c \<noteq> x \<longrightarrow> c \<in> set (allSetCards (players st1 ! i))"
    and mb: "\<forall>c \<in> set (bank (players st ! i)). card_id c = x \<longrightarrow> c \<in> set (bank (players st1 ! j))"
    and ma: "\<forall>c \<in> set (allSetCards (players st ! i)). card_id c = x \<and> isPropertyCard c \<longrightarrow>
           landed (players st1 ! j) c"
    by blast
  have legal1: "\<forall>c \<in> set (allSetCards (players st1 ! i)). ownColourLegal c"
    using Cons.prems(4) sa by blast
  from Cons.IH[OF Cons.prems(1) _ _ legal1 d1] Cons.prems(2,3) l1 obtain st' where
    r': "payAll st1 i j xs = (Inr (), st')" and l': "length (players st') = length (players st1)"
    and g': "grows (players st1 ! j) (players st' ! j)"
    and sb': "set (bank (players st' ! i)) \<subseteq> set (bank (players st1 ! i))"
    and sa': "set (allSetCards (players st' ! i)) \<subseteq> set (allSetCards (players st1 ! i))"
    and n': "\<forall>c \<in> set (holdings (players st' ! i)). card_id c \<notin> set xs"
    and mb': "\<forall>c \<in> set (bank (players st1 ! i)). card_id c \<in> set xs \<longrightarrow> c \<in> set (bank (players st' ! j))"
    and ma': "\<forall>c \<in> set (allSetCards (players st1 ! i)). card_id c \<in> set xs \<and> isPropertyCard c \<longrightarrow>
           landed (players st' ! j) c"
    by auto
  have run: "payAll st i j (x # xs) = (Inr (), st')" using r r' by (simp add: andThen_def)
  have g: "grows (players st ! j) (players st' ! j)" using g1 g' by (rule grows_trans)
  have hs: "set (holdings (players st' ! i)) \<subseteq> set (holdings (players st1 ! i))"
    using sb' sa' by (auto simp: holdings_def)
  have none: "\<forall>c \<in> set (holdings (players st' ! i)). card_id c \<notin> set (x # xs)"
    using n' nx hs by auto
  have tb: "c \<in> set (bank (players st' ! j))"
    if "c \<in> set (bank (players st ! i))" "card_id c \<in> set (x # xs)" for c
  proof (cases "card_id c = x")
    case True
    with that mb have "c \<in> set (bank (players st1 ! j))" by blast
    with g' show ?thesis unfolding grows_def by blast
  next
    case False
    with that kb have "c \<in> set (bank (players st1 ! i))" "card_id c \<in> set xs" by auto
    with mb' show ?thesis by blast
  qed
  have ta: "landed (players st' ! j) c"
    if "c \<in> set (allSetCards (players st ! i))" "card_id c \<in> set (x # xs)" "isPropertyCard c" for c
  proof (cases "card_id c = x")
    case True
    with that ma have "landed (players st1 ! j) c" by blast
    then show ?thesis using g' by (rule landed_grows)
  next
    case False
    with that ka have "c \<in> set (allSetCards (players st1 ! i))" "card_id c \<in> set xs" by auto
    with ma' that(3) show ?thesis by blast
  qed
  from run l' l1 g sb sb' sa sa' none tb ta show ?case
    by (intro exI[of _ st']) (simp, blast)
qed

lemma allSetCards_prune:
  "concat (map cards (filter (\<lambda>s. cards s \<noteq> []) ps)) = concat (map cards ps)"
  by (induction ps) auto

lemma pruneEmpty_player:
  "i < length (players st) \<Longrightarrow>
     players (pruneEmpty i st) ! i =
       (players st ! i)\<lparr>properties := filter (\<lambda>s. length (cards s) > 0) (properties (players st ! i))\<rparr>"
  "j \<noteq> i \<Longrightarrow> players (pruneEmpty i st) ! j = players st ! j"
  by (simp_all add: pruneEmpty_def nth_modPlayer)

lemma finishResponse_ok:
  assumes "currentPlayerIndex s < length (players s)"
  shows "\<exists>s'. finishResponse now s pa p = (Inr (), s') \<and> players s' = players s"
  using assms
  by (auto simp: finishResponse_def resolvePending_def Let_def split: option.splits)

lemma executeEffect_payment:
  "paymentAction pa \<Longrightarrow> executeEffect st pa j i resp = (Inr (), st)"
  by (auto simp: paymentAction_def executeEffect_def)


lemma respondToAction_paying:
  assumes "pendingAction st = Some pa" and "amount pa = Some a" and "0 < a"
    and "findPlayer st playerId = Some i" and "findPlayer st (fromPlayerId pa) = Some j"
    and "\<forall>rs. respondedPlayers pa = Some rs \<longrightarrow> playerId \<notin> set rs"
    and "accept response" and "useJustSayNo response \<noteq> Some True"
  shows "respondToAction now st playerId response =
           andThen (settlePayment st a i j response)
             (\<lambda>st1. andThen
                (if respondedPlayers pa = None
                 then executeEffect st1 pa j i response else (Inr (), st1))
                (\<lambda>st2. finishResponse now st2 pa playerId))"
  using assms by (auto simp: respondToAction_def split: option.splits)

lemma find_js_None: "find_js P xs = None \<longleftrightarrow> (\<forall>x \<in> set xs. \<not> P x)"
  by (simp add: find_js_def findIndex_None)

lemma find_js_Some: "find_js P xs = Some y \<Longrightarrow> y \<in> set xs \<and> P y"
  by (auto simp: find_js_def dest: findIndex_Some)

lemma filter_unique:
  assumes "distinct (map f xs)" and "y \<in> set xs" and "f y = a"
  shows "filter (\<lambda>c. f c = a) xs = [y]"
  using assms
proof (induction xs)
  case Nil
  then show ?case by simp
next
  case (Cons x xs)
  show ?case
  proof (cases "x = y")
    case True
    with Cons.prems have "f y \<notin> f ` set xs" "a = f y" by auto
    then have "\<forall>c \<in> set xs. f c \<noteq> a" by (metis imageI)
    then have "filter (\<lambda>c. f c = a) xs = []" by (simp add: filter_empty_conv)
    with True Cons.prems show ?thesis by simp
  next
    case False
    with Cons.prems have "y \<in> set xs" "f x \<noteq> a" by auto
    with Cons show ?thesis by simp
  qed
qed

lemma offeredValue_worth:
  assumes "distinct (map card_id (holdings p))"
  shows "offeredValue p x = sum_list (map card_value (filter (\<lambda>c. card_id c = x) (holdings p)))"
proof -
  let ?B = "bank p" and ?A = "allSetCards p"
  from assms have d: "distinct (map card_id (?B @ ?A))" by (simp add: holdings_def)
  note dp = distinct_holdings_parts[OF d]
  have fa: "sum_list (map card_value (filter (\<lambda>c. card_id c = x) ?A))
              = (case find_js (\<lambda>c. card_id c = x) ?A of Some c \<Rightarrow> card_value c | None \<Rightarrow> 0)"
  proof (cases "find_js (\<lambda>c. card_id c = x) ?A")
    case None
    then have "filter (\<lambda>c. card_id c = x) ?A = []"
      by (simp add: find_js_None filter_empty_conv)
    with None show ?thesis by simp
  next
    case (Some c)
    from find_js_Some[OF Some] filter_unique[OF dp(2), of c x] Some show ?thesis by simp
  qed
  show ?thesis
  proof (cases "find_js (\<lambda>c. card_id c = x) ?B")
    case None
    then have "filter (\<lambda>c. card_id c = x) ?B = []"
      by (simp add: find_js_None filter_empty_conv)
    with None fa show ?thesis by (simp add: offeredValue_def holdings_def Let_def)
  next
    case (Some b)
    from find_js_Some[OF Some] have b: "b \<in> set ?B" "card_id b = x" by simp_all
    from filter_unique[OF dp(1) b] have fb: "filter (\<lambda>c. card_id c = x) ?B = [b]" .
    have "\<forall>c \<in> set ?A. card_id c \<noteq> x" using dp(3)[OF b(1)] b(2) by metis
    then have "filter (\<lambda>c. card_id c = x) ?A = []" by (simp add: filter_empty_conv)
    with fa have pv: "(case find_js (\<lambda>c. card_id c = x) ?A of Some c \<Rightarrow> card_value c | None \<Rightarrow> 0) = 0"
      by simp
    show ?thesis using Some fb pv \<open>filter (\<lambda>c. card_id c = x) ?A = []\<close>
      by (simp add: offeredValue_def holdings_def Let_def)
  qed
qed

lemma foldl_add_sum: "foldl (\<lambda>acc x. acc + g x) (n::nat) xs = n + sum_list (map g xs)"
  by (induction xs arbitrary: n) simp_all

lemma sum_once:
  "distinct ids \<Longrightarrow> sum_list (map (\<lambda>x. if a = x then (v::nat) else 0) ids) = (if a \<in> set ids then v else 0)"
  by (induction ids) auto

lemma sum_filter_by_id:
  assumes "distinct ids"
  shows "sum_list (map (\<lambda>x. sum_list (map g (filter (\<lambda>c. f c = x) H))) ids)
           = sum_list (map (g :: 'a \<Rightarrow> nat) (filter (\<lambda>c. f c \<in> set ids) H))"
proof (induction H)
  case Nil
  then show ?case by simp
next
  case (Cons c H)
  have "sum_list (map (\<lambda>x. sum_list (map g (filter (\<lambda>c. f c = x) (c # H)))) ids)
        = sum_list (map (\<lambda>x. (if f c = x then g c else 0) + sum_list (map g (filter (\<lambda>c. f c = x) H))) ids)"
    by (intro arg_cong[where f=sum_list] map_cong) auto
  also have "\<dots> = sum_list (map (\<lambda>x. if f c = x then g c else 0) ids)
                  + sum_list (map (\<lambda>x. sum_list (map g (filter (\<lambda>c. f c = x) H))) ids)"
    by (simp add: sum_list_addf)
  also have "\<dots> = (if f c \<in> set ids then g c else 0)
                  + sum_list (map g (filter (\<lambda>c. f c \<in> set ids) H))"
    using sum_once[OF assms] Cons.IH by simp
  finally show ?case by simp
qed

lemma paymentValue_worth:
  assumes "distinct (map card_id (holdings p))" and "distinct ids"
  shows "paymentValue p ids = offeredWorth p ids"
proof -
  have "paymentValue p ids = sum_list (map (offeredValue p) ids)"
    by (simp add: paymentValue_def foldl_add_sum)
  also have "\<dots> = sum_list (map (\<lambda>x. sum_list (map card_value (filter (\<lambda>c. card_id c = x) (holdings p)))) ids)"
    using offeredValue_worth[OF assms(1)] by (intro arg_cong[where f=sum_list] map_cong) simp_all
  also have "\<dots> = offeredWorth p ids"
    unfolding offeredWorth_def by (rule sum_filter_by_id[OF assms(2)])
  finally show ?thesis .
qed

text \<open>
  Settling with a list that names no card twice. Let a pending action carry a required
  amount \<open>a > 0\<close>, and let a participant whose bank and property sets are worth more than
  0 answer it with \<open>accept\<close> and without a refusal card. If the value the source computes
  for the offer is below \<open>min a total\<close>, the call throws and the state is the one before
  the call. If it reaches that minimum (the initiator being another participant, the
  pending action one of those created with an amount, the responder not having
  answered yet, the cards the responder owns having distinct identifiers and every
  wildcard among them listing its own colour), the call returns normally; every
  offered card of the responder's bank is then in the initiator's bank, every offered
  property card of the responder's sets is in a set of the initiator's of the card's
  own colour, the responder holds no offered card any more and none of the responder's
  sets is empty; a single-target action is cleared. The value the source computes is
  one summand per listed identifier; when no identifier is listed twice and the
  responder's cards have distinct identifiers, it is the worth of the responder's
  cards that the list names.
\<close>

lemma payment_settlement:
  assumes pa: "pendingAction st = Some pa" and am: "amount pa = Some a" and pos: "0 < a"
    and i: "findPlayer st playerId = Some i"
    and acc: "accept response" and nojsn: "useJustSayNo response \<noteq> Some True"
    and tot: "0 < totalAssets (players st ! i)"
  shows "(paymentValue (players st ! i) (offeredIds response) < min a (totalAssets (players st ! i)) \<longrightarrow>
            (\<exists>e. respondToAction now st playerId response = (Inl e, st)))
       \<and> (min a (totalAssets (players st ! i)) \<le> paymentValue (players st ! i) (offeredIds response)
          \<and> findPlayer st (fromPlayerId pa) = Some j \<and> i \<noteq> j
          \<and> (\<forall>rs. respondedPlayers pa = Some rs \<longrightarrow> playerId \<notin> set rs)
          \<and> paymentAction pa
          \<and> currentPlayerIndex st < length (players st)
          \<and> distinct (map card_id (holdings (players st ! i)))
          \<and> (\<forall>c \<in> set (allSetCards (players st ! i)). ownColourLegal c)
          \<longrightarrow> fst (respondToAction now st playerId response) = Inr ()
            \<and> (\<forall>c \<in> set (bank (players st ! i)). card_id c \<in> set (offeredIds response) \<longrightarrow>
                  c \<in> set (bank (players (snd (respondToAction now st playerId response)) ! j)))
            \<and> (\<forall>c \<in> set (allSetCards (players st ! i)).
                  card_id c \<in> set (offeredIds response) \<and> isPropertyCard c \<longrightarrow>
                  landed (players (snd (respondToAction now st playerId response)) ! j) c)
            \<and> (\<forall>c \<in> set (holdings (players (snd (respondToAction now st playerId response)) ! i)).
                  card_id c \<notin> set (offeredIds response))
            \<and> (\<forall>s \<in> set (properties (players (snd (respondToAction now st playerId response)) ! i)).
                  cards s \<noteq> [])
            \<and> (respondedPlayers pa = None \<longrightarrow>
                  pendingAction (snd (respondToAction now st playerId response)) = None))
       \<and> (distinct (offeredIds response) \<and> distinct (map card_id (holdings (players st ! i))) \<longrightarrow>
            paymentValue (players st ! i) (offeredIds response)
              = offeredWorth (players st ! i) (offeredIds response))"
proof (intro conjI impI)
  assume low: "paymentValue (players st ! i) (offeredIds response) < min a (totalAssets (players st ! i))"
  have sp: "settlePayment st a i j response =
          (Inl (MustPayAtLeast (min a (totalAssets (players st ! i)))
                  (paymentValue (players st ! i) (offeredIds response))), st)" for j
    using low tot by (simp add: settlePayment_def Let_def offeredIds_def)
  show "\<exists>e. respondToAction now st playerId response = (Inl e, st)"
    using pa am pos i acc nojsn sp
    by (auto simp: respondToAction_def andThen_def split: option.splits)
next
  assume h: "min a (totalAssets (players st ! i)) \<le> paymentValue (players st ! i) (offeredIds response)
          \<and> findPlayer st (fromPlayerId pa) = Some j \<and> i \<noteq> j
          \<and> (\<forall>rs. respondedPlayers pa = Some rs \<longrightarrow> playerId \<notin> set rs)
          \<and> paymentAction pa
          \<and> currentPlayerIndex st < length (players st)
          \<and> distinct (map card_id (holdings (players st ! i)))
          \<and> (\<forall>c \<in> set (allSetCards (players st ! i)). ownColourLegal c)"
  let ?ids = "offeredIds response"
  from h have j: "findPlayer st (fromPlayerId pa) = Some j" and ij: "i \<noteq> j"
    and nr: "\<forall>rs. respondedPlayers pa = Some rs \<longrightarrow> playerId \<notin> set rs"
    and pay: "paymentAction pa" and idx: "currentPlayerIndex st < length (players st)"
    and enough: "min a (totalAssets (players st ! i)) \<le> paymentValue (players st ! i) ?ids"
    and dist: "distinct (map card_id (holdings (players st ! i)))"
    and legal: "\<forall>c \<in> set (allSetCards (players st ! i)). ownColourLegal c"
    by simp_all
  note il = findPlayer_less[OF i] and jl = findPlayer_less[OF j]
  from payAll_transfers[OF ij il jl legal dist, of ?ids] obtain st' where
    r: "payAll st i j ?ids = (Inr (), st')" and l': "length (players st') = length (players st)"
    and sb: "set (bank (players st' ! i)) \<subseteq> set (bank (players st ! i))"
    and sa: "set (allSetCards (players st' ! i)) \<subseteq> set (allSetCards (players st ! i))"
    and none: "\<forall>c \<in> set (holdings (players st' ! i)). card_id c \<notin> set ?ids"
    and tb: "\<forall>c \<in> set (bank (players st ! i)). card_id c \<in> set ?ids \<longrightarrow> c \<in> set (bank (players st' ! j))"
    and ta: "\<forall>c \<in> set (allSetCards (players st ! i)). card_id c \<in> set ?ids \<and> isPropertyCard c \<longrightarrow>
           landed (players st' ! j) c"
    by blast
  let ?st1 = "pruneEmpty i st'"
  have ne: "\<not> paymentValue (players st ! i) ?ids < min a (totalAssets (players st ! i))"
    using enough by linarith
  have sp: "settlePayment st a i j response = (Inr (), ?st1)"
    using ne r unfolding settlePayment_def Let_def offeredIds_def[symmetric]
    by (simp add: andThen_def)
  have c1: "ctl ?st1 = ctl st"
    using ctl_payAll[of st i j ?ids] r by simp
  then have idx1: "currentPlayerIndex ?st1 < length (players ?st1)"
    using idx by (simp add: ctl_def)
  from finishResponse_ok[OF idx1, of now pa playerId] obtain s2 where
    f: "finishResponse now ?st1 pa playerId = (Inr (), s2)" and p2: "players s2 = players ?st1"
    by blast
  have run: "respondToAction now st playerId response = (Inr (), s2)"
    unfolding respondToAction_paying[OF pa am pos i j nr acc nojsn] sp
    using f by (simp add: andThen_def executeEffect_payment[OF pay])
  have pi: "players s2 ! i =
      (players st' ! i)\<lparr>properties := filter (\<lambda>s. length (cards s) > 0) (properties (players st' ! i))\<rparr>"
    unfolding p2 using il l' by (simp add: pruneEmpty_player)
  have pj: "players s2 ! j = players st' ! j"
    unfolding p2 using ij by (simp add: pruneEmpty_player)
  have hi: "holdings (players s2 ! i) = holdings (players st' ! i)"
    unfolding pi by (simp add: holdings_def allSetCards_def allSetCards_prune)
  show "fst (respondToAction now st playerId response) = Inr ()" by (simp add: run)
  show "\<forall>c \<in> set (bank (players st ! i)). card_id c \<in> set ?ids \<longrightarrow>
          c \<in> set (bank (players (snd (respondToAction now st playerId response)) ! j))"
    using tb by (simp add: run pj)
  show "\<forall>c \<in> set (allSetCards (players st ! i)). card_id c \<in> set ?ids \<and> isPropertyCard c \<longrightarrow>
          landed (players (snd (respondToAction now st playerId response)) ! j) c"
    using ta by (simp add: run pj)
  show "\<forall>c \<in> set (holdings (players (snd (respondToAction now st playerId response)) ! i)).
          card_id c \<notin> set ?ids"
    using none by (simp add: run hi)
  show "\<forall>s \<in> set (properties (players (snd (respondToAction now st playerId response)) ! i)).
          cards s \<noteq> []"
    by (simp add: run pi)
  show "pendingAction (snd (respondToAction now st playerId response)) = None"
    if "respondedPlayers pa = None"
    using f that by (auto simp: run finishResponse_def resolvePending_def Let_def split: if_splits)
next
  assume "distinct (offeredIds response) \<and> distinct (map card_id (holdings (players st ! i)))"
  then show "paymentValue (players st ! i) (offeredIds response)
              = offeredWorth (players st ! i) (offeredIds response)"
    using paymentValue_worth by blast
qed

text \<open>Every card of the catalog may lie on its own colour.\<close>

lemma createDeck_ownColourLegal: "\<forall>c \<in> set (createDeck uuid). ownColourLegal c"
proof
  fix c assume "c \<in> set (createDeck uuid)"
  then obtain k v f where kv: "(k, (v, f)) \<in> set (enumerate 0 deckFaces)"
    and c: "c = \<lparr>card_id = uuid k, card_value = v, face = f\<rparr>"
    by (auto simp: createDeck_def)
  from kv have k: "k < length deckFaces" and e: "deckFaces ! k = (v, f)"
    by (simp_all add: in_set_enumerate_eq)
  from nth_mem[OF k] have "(v, f) \<in> set deckFaces" unfolding e .
  moreover have "\<forall>(v, f) \<in> set deckFaces. ownColourLegal \<lparr>card_id = x, card_value = v, face = f\<rparr>" for x
    by (simp add: face_defs ownColourLegal_def allColors_def)
  ultimately show "ownColourLegal c" unfolding c by blast
qed

lemma payment_settlement_witness:
  "totalAssets (players (debtTable [] []) ! 1) = 3
   \<and> respondToAction 7 (debtTable [] []) ''B'' (payWith [''m2''])
       = (Inl (MustPayAtLeast 3 2), debtTable [] [])
   \<and> respondToAction 7 (debtTable [] []) ''B'' (payWith [''m2'', ''o1''])
       = (Inr (), mkState [mkPlayer ''A'' []
                             [mkSet lightBlue [street ''o1'' lightBlue 1] False False False]
                             [money ''m2'' 2],
                           mkPlayer ''B'' [] [] []]
                          0 action 2 None \<lparr>updatedAt := 7\<rparr>)"
proof -
  note t1 = payment_settlement
      [of "debtTable [] []" debtPending 5 "''B''" 1 "payWith [''m2'']" 7 0]
  note t2 = payment_settlement
      [of "debtTable [] []" debtPending 5 "''B''" 1 "payWith [''m2'', ''o1'']" 7 0]
  have a: "totalAssets (players (debtTable [] []) ! 1) = 3"
    by (simp add: debt_defs table_defs totalAssets_def allSetCards_def)
  have b: "\<exists>e. respondToAction 7 (debtTable [] []) ''B'' (payWith [''m2'']) = (Inl e, debtTable [] [])"
    using t1
    by (simp add: debt_defs table_defs payWith_def totalAssets_def allSetCards_def offeredIds_def
          paymentValue_def offeredValue_def find_js_def)
  have b': "respondToAction 7 (debtTable [] []) ''B'' (payWith [''m2''])
       = (Inl (MustPayAtLeast 3 2), debtTable [] [])"
    by (simp add: debt_defs payWith_def respond_defs table_defs)
  have c: "fst (respondToAction 7 (debtTable [] []) ''B'' (payWith [''m2'', ''o1''])) = Inr ()"
    using t2
    by (simp add: debt_defs table_defs payWith_def totalAssets_def allSetCards_def offeredIds_def
          paymentValue_def offeredValue_def find_js_def paymentAction_def holdings_def
          ownColourLegal_def)
  have c': "respondToAction 7 (debtTable [] []) ''B'' (payWith [''m2'', ''o1''])
       = (Inr (), mkState [mkPlayer ''A'' []
                             [mkSet lightBlue [street ''o1'' lightBlue 1] False False False]
                             [money ''m2'' 2],
                           mkPlayer ''B'' [] [] []]
                          0 action 2 None \<lparr>updatedAt := 7\<rparr>)"
    by (simp add: debt_defs payWith_def respond_defs table_defs)
  from a b b' c c' show ?thesis by simp
qed

subsection \<open>The responder's side of a settlement\<close>

lemma splice1_filter:
  assumes "distinct (map f xs)" and "k < length xs"
  shows "splice1 k xs = filter (\<lambda>c. f c \<noteq> f (xs ! k)) xs"
proof -
  let ?P = "\<lambda>c. f c \<noteq> f (xs ! k)"
  have r: "\<forall>y \<in> set (take k xs) \<union> set (drop (Suc k) xs). ?P y"
    using splice1_removes[OF assms] by (auto simp: splice1_def)
  have d: "drop k xs = xs ! k # drop (Suc k) xs"
    using Cons_nth_drop_Suc[OF assms(2)] by simp
  have "filter ?P xs = filter ?P (take k xs @ drop k xs)" by simp
  also have "\<dots> = filter ?P (take k xs) @ filter ?P (drop (Suc k) xs)"
    unfolding d by simp
  also have "filter ?P (take k xs) = take k xs" using r by (simp add: filter_id_conv)
  also have "filter ?P (drop (Suc k) xs) = drop (Suc k) xs" using r by (simp add: filter_id_conv)
  finally show ?thesis by (simp add: splice1_def)
qed

lemma distinct_concat_apart:
  assumes d: "distinct (map f (concat xss))" and nk: "n < k" and k: "k < length xss"
    and a: "a \<in> set (xss ! n)" and b: "b \<in> set (xss ! k)"
  shows "f a \<noteq> f b"
proof -
  have "xss ! n \<in> set (take k xss)"
    using nk k by (metis nth_take length_take min.absorb2 nth_mem less_imp_le_nat)
  with a have a': "a \<in> set (concat (take k xss))" by auto
  have "xss ! k \<in> set (drop k xss)"
    using k by (metis Cons_nth_drop_Suc list.set_intros(1))
  with b have b': "b \<in> set (concat (drop k xss))" by auto
  have "concat xss = concat (take k xss) @ concat (drop k xss)"
    by (metis append_take_drop_id concat_append)
  with d have "distinct (map f (concat (take k xss)) @ map f (concat (drop k xss)))" by simp
  then have "f ` set (concat (take k xss)) \<inter> f ` set (concat (drop k xss)) = {}"
    unfolding distinct_append by simp
  with a' b' show ?thesis by blast
qed

lemma distinct_concat_other:
  assumes d: "distinct (map f (concat xss))" and nk: "n \<noteq> k" and n: "n < length xss"
    and k: "k < length xss" and a: "a \<in> set (xss ! n)" and b: "b \<in> set (xss ! k)"
  shows "f a \<noteq> f b"
proof (cases "n < k")
  case True
  from distinct_concat_apart[OF d True k a b] show ?thesis .
next
  case False
  with nk have "k < n" by simp
  from distinct_concat_apart[OF d this n b a] show ?thesis by simp
qed

lemma payOne_responder:
  assumes ij: "i \<noteq> j" and i: "i < length (players st)" and j: "j < length (players st)"
    and legal: "\<forall>c \<in> set (allSetCards (players st ! i)). ownColourLegal c"
  shows "\<exists>st1. payOne st i j x = (Inr (), st1)
     \<and> (players st1 ! i = players st ! i
          \<and> (\<forall>c \<in> set (holdings (players st ! i)). card_id c \<noteq> x)
        \<or> (\<exists>b < length (bank (players st ! i)).
              card_id (bank (players st ! i) ! b) = x
              \<and> players st1 ! i = (players st ! i)\<lparr>bank := splice1 b (bank (players st ! i))\<rparr>)
        \<or> (\<exists>k < length (properties (players st ! i)).
            \<exists>m < length (cards (properties (players st ! i) ! k)).
              card_id (cards (properties (players st ! i) ! k) ! m) = x
              \<and> (\<forall>c \<in> set (bank (players st ! i)). card_id c \<noteq> x)
              \<and> players st1 ! i =
                  (players st ! i)\<lparr>properties := (properties (players st ! i))
                     [k := updatePropertySetCompletion
                            ((properties (players st ! i) ! k)
                               \<lparr>cards := splice1 m (cards (properties (players st ! i) ! k))\<rparr>)]\<rparr>))"
proof (cases "findIndex (\<lambda>c. card_id c = x) (bank (players st ! i))")
  case (Some b)
  from findIndex_Some[OF Some] have b: "b < length (bank (players st ! i))"
    "card_id (bank (players st ! i) ! b) = x" by simp_all
  let ?c = "bank (players st ! i) ! b"
  let ?st1 = "modPlayer j (\<lambda>p. p\<lparr>bank := bank p @ [?c]\<rparr>)
                (modPlayer i (\<lambda>p. p\<lparr>bank := splice1 b (bank p)\<rparr>) st)"
  have r: "payOne st i j x = (Inr (), ?st1)" using Some by (simp add: payOne_def Let_def)
  have pi: "players ?st1 ! i = (players st ! i)\<lparr>bank := splice1 b (bank (players st ! i))\<rparr>"
    using ij i by (simp add: nth_modPlayer)
  from r b pi show ?thesis by auto
next
  case None
  then have nb: "\<forall>c \<in> set (bank (players st ! i)). card_id c \<noteq> x"
    by (simp add: findIndex_None)
  let ?ps = "properties (players st ! i)"
  let ?all = "allSetCards (players st ! i)"
  show ?thesis
  proof (cases "findIndex (\<lambda>s. findIndex (\<lambda>c. card_id c = x) (cards s) \<noteq> None) ?ps")
    case n2: None
    then have "\<forall>s \<in> set ?ps. \<forall>c \<in> set (cards s). card_id c \<noteq> x"
      by (simp add: findIndex_None)
    then have "\<forall>c \<in> set ?all. card_id c \<noteq> x" by (auto simp: allSetCards_def)
    with nb have "\<forall>c \<in> set (holdings (players st ! i)). card_id c \<noteq> x"
      by (auto simp: holdings_def)
    moreover have "payOne st i j x = (Inr (), st)" using None n2 by (simp add: payOne_def)
    ultimately show ?thesis by auto
  next
    case (Some k)
    from findIndex_Some[OF Some] have k: "k < length ?ps"
      "findIndex (\<lambda>c. card_id c = x) (cards (?ps ! k)) \<noteq> None" by simp_all
    then obtain m where m0: "findIndex (\<lambda>c. card_id c = x) (cards (?ps ! k)) = Some m" by auto
    from findIndex_Some[OF m0] have m: "m < length (cards (?ps ! k))"
      "card_id (cards (?ps ! k) ! m) = x" by simp_all
    let ?c = "cards (?ps ! k) ! m"
    have "?c \<in> set (cards (?ps ! k))" using m(1) by simp
    moreover have "?ps ! k \<in> set ?ps" using k(1) by simp
    ultimately have "?c \<in> set ?all" unfolding allSetCards_def by auto
    with legal have lc: "ownColourLegal ?c" by blast
    let ?st1 = "modSet i k (\<lambda>s. s\<lparr>cards := splice1 m (cards s)\<rparr>) st"
    have p1i: "players ?st1 ! i = (players st ! i)\<lparr>properties := ?ps[k := (?ps ! k)\<lparr>cards := splice1 m (cards (?ps ! k))\<rparr>]\<rparr>"
      using i by (simp add: nth_modSet)
    have unf: "payOne st i j x =
          andThen (if isPropertyCard ?c then playPropertyCard ?st1 j ?c None
                   else (Inr (), modPlayer j (\<lambda>p. p\<lparr>bank := bank p @ [?c]\<rparr>) ?st1))
                  (\<lambda>st2. (Inr (), modSet i k updatePropertySetCompletion st2))"
      using None Some m0 by (simp add: payOne_def Let_def)
    have "\<exists>st2. (if isPropertyCard ?c then playPropertyCard ?st1 j ?c None
              else (Inr (), modPlayer j (\<lambda>p. p\<lparr>bank := bank p @ [?c]\<rparr>) ?st1)) = (Inr (), st2)
            \<and> length (players st2) = length (players st)
            \<and> players st2 ! i = players ?st1 ! i"
    proof (cases "isPropertyCard ?c")
      case True
      from playPropertyCard_lands[OF True lc, of j ?st1] j ij True show ?thesis by auto
    next
      case False
      then show ?thesis using ij by (simp add: nth_modPlayer)
    qed
    then obtain st2 where a: "(if isPropertyCard ?c then playPropertyCard ?st1 j ?c None
              else (Inr (), modPlayer j (\<lambda>p. p\<lparr>bank := bank p @ [?c]\<rparr>) ?st1)) = (Inr (), st2)"
      and l2: "length (players st2) = length (players st)"
      and p2i: "players st2 ! i = players ?st1 ! i" by blast
    let ?st3 = "modSet i k updatePropertySetCompletion st2"
    have r: "payOne st i j x = (Inr (), ?st3)" unfolding unf a by (simp add: andThen_def)
    have p3i: "players ?st3 ! i =
              (players st ! i)\<lparr>properties :=
                 ?ps[k := updatePropertySetCompletion ((?ps ! k)\<lparr>cards := splice1 m (cards (?ps ! k))\<rparr>)]\<rparr>"
      using i l2 k(1) by (simp add: nth_modSet p2i p1i)
    from k(1) m nb p3i
    have "\<exists>k < length ?ps. \<exists>m < length (cards (?ps ! k)).
              card_id (cards (?ps ! k) ! m) = x
              \<and> (\<forall>c \<in> set (bank (players st ! i)). card_id c \<noteq> x)
              \<and> players ?st3 ! i =
                  (players st ! i)\<lparr>properties := ?ps
                     [k := updatePropertySetCompletion
                            ((?ps ! k)\<lparr>cards := splice1 m (cards (?ps ! k))\<rparr>)]\<rparr>"
      by blast
    with r show ?thesis by blast
  qed
qed

lemma without_single_none:
  "\<forall>c \<in> set cs. card_id c \<noteq> x \<Longrightarrow> without [x] cs = cs"
  by (simp add: without_def filter_id_conv)

lemma payOne_keeps:
  assumes ij: "i \<noteq> j" and i: "i < length (players st)" and j: "j < length (players st)"
    and legal: "\<forall>c \<in> set (allSetCards (players st ! i)). ownColourLegal c"
    and dist: "distinct (map card_id (holdings (players st ! i)))"
  shows "hand (players (snd (payOne st i j x)) ! i) = hand (players st ! i)
     \<and> bank (players (snd (payOne st i j x)) ! i) = without [x] (bank (players st ! i))
     \<and> map ledger (properties (players (snd (payOne st i j x)) ! i))
         = map (\<lambda>s. ledger (s\<lparr>cards := without [x] (cards s)\<rparr>)) (properties (players st ! i))"
proof -
  let ?B = "bank (players st ! i)" and ?ps = "properties (players st ! i)"
  let ?A = "allSetCards (players st ! i)"
  from dist have d: "distinct (map card_id (?B @ ?A))" by (simp add: holdings_def)
  note dp = distinct_holdings_parts[OF d]
  have inA: "c \<in> set ?A" if "s \<in> set ?ps" "c \<in> set (cards s)" for s c
    using that unfolding allSetCards_def by auto
  from payOne_responder[OF ij i j legal, of x] obtain st1 where
    r: "payOne st i j x = (Inr (), st1)"
    and cases: "players st1 ! i = players st ! i
          \<and> (\<forall>c \<in> set (holdings (players st ! i)). card_id c \<noteq> x)
        \<or> (\<exists>b < length ?B. card_id (?B ! b) = x
              \<and> players st1 ! i = (players st ! i)\<lparr>bank := splice1 b ?B\<rparr>)
        \<or> (\<exists>k < length ?ps. \<exists>m < length (cards (?ps ! k)).
              card_id (cards (?ps ! k) ! m) = x
              \<and> (\<forall>c \<in> set ?B. card_id c \<noteq> x)
              \<and> players st1 ! i =
                  (players st ! i)\<lparr>properties := ?ps
                     [k := updatePropertySetCompletion
                            ((?ps ! k)\<lparr>cards := splice1 m (cards (?ps ! k))\<rparr>)]\<rparr>)"
    by blast
  from cases show ?thesis
  proof (elim disjE conjE exE)
    assume same: "players st1 ! i = players st ! i"
      and no: "\<forall>c \<in> set (holdings (players st ! i)). card_id c \<noteq> x"
    have nb: "\<forall>c \<in> set ?B. card_id c \<noteq> x" using no by (simp add: holdings_def)
    have "without [x] (cards s) = cards s" if "s \<in> set ?ps" for s
      using no inA[OF that] by (intro without_single_none) (auto simp: holdings_def)
    then have "map (\<lambda>s. ledger (s\<lparr>cards := without [x] (cards s)\<rparr>)) ?ps = map ledger ?ps"
      by (intro map_cong) (simp_all add: ledger_def)
    with same nb show ?thesis by (simp add: r without_single_none)
  next
    fix b assume b: "b < length ?B" "card_id (?B ! b) = x"
      and p: "players st1 ! i = (players st ! i)\<lparr>bank := splice1 b ?B\<rparr>"
    have "splice1 b ?B = without [x] ?B"
      using splice1_filter[OF dp(1) b(1)] b(2) by (simp add: without_def)
    moreover have "without [x] (cards s) = cards s" if "s \<in> set ?ps" for s
    proof (rule without_single_none, rule ballI)
      fix c assume "c \<in> set (cards s)"
      from dp(3)[OF nth_mem[OF b(1)] inA[OF that this]] b(2) show "card_id c \<noteq> x" by simp
    qed
    then have "map (\<lambda>s. ledger (s\<lparr>cards := without [x] (cards s)\<rparr>)) ?ps = map ledger ?ps"
      by (intro map_cong) (simp_all add: ledger_def)
    ultimately show ?thesis using p by (simp add: r)
  next
    fix k m assume k: "k < length ?ps" and m: "m < length (cards (?ps ! k))"
      and x: "card_id (cards (?ps ! k) ! m) = x"
      and nb: "\<forall>c \<in> set ?B. card_id c \<noteq> x"
      and p: "players st1 ! i =
                  (players st ! i)\<lparr>properties := ?ps
                     [k := updatePropertySetCompletion
                            ((?ps ! k)\<lparr>cards := splice1 m (cards (?ps ! k))\<rparr>)]\<rparr>"
    let ?new = "updatePropertySetCompletion ((?ps ! k)\<lparr>cards := splice1 m (cards (?ps ! k))\<rparr>)"
    have dA: "distinct (map card_id (concat (map cards ?ps)))"
      using dp(2) by (simp add: allSetCards_def)
    have dk: "distinct (map card_id (cards (?ps ! k)))"
    proof -
      have "set (cards (?ps ! k)) \<subseteq> set ?A" using inA[OF nth_mem[OF k]] by auto
      have "concat (map cards ?ps)
              = concat (map cards (take k ?ps)) @ cards (?ps ! k) @ concat (map cards (drop (Suc k) ?ps))"
        using k by (metis (no_types, lifting) id_take_nth_drop concat.simps(2) concat_append list.simps(9) map_append)
      with dA show ?thesis by simp
    qed
    have sk: "splice1 m (cards (?ps ! k)) = without [x] (cards (?ps ! k))"
      using splice1_filter[OF dk m] x by (simp add: without_def)
    have other: "without [x] (cards (?ps ! n)) = cards (?ps ! n)" if "n < length ?ps" "n \<noteq> k" for n
    proof (rule without_single_none, rule ballI)
      fix c assume c: "c \<in> set (cards (?ps ! n))"
      have "card_id c \<noteq> card_id (cards (?ps ! k) ! m)"
        using distinct_concat_other[OF dA that(2), of c "cards (?ps ! k) ! m"] that(1) k c m
        by simp
      then show "card_id c \<noteq> x" using x by simp
    qed
    have "map ledger (?ps[k := ?new]) = map (\<lambda>s. ledger (s\<lparr>cards := without [x] (cards s)\<rparr>)) ?ps"
    proof (rule nth_equalityI)
      show "length (map ledger (?ps[k := ?new]))
              = length (map (\<lambda>s. ledger (s\<lparr>cards := without [x] (cards s)\<rparr>)) ?ps)" by simp
    next
      fix n assume "n < length (map ledger (?ps[k := ?new]))"
      then have n: "n < length ?ps" by simp
      show "map ledger (?ps[k := ?new]) ! n
              = map (\<lambda>s. ledger (s\<lparr>cards := without [x] (cards s)\<rparr>)) ?ps ! n"
      proof (cases "n = k")
        case True
        then show ?thesis using k sk
          by (simp add: ledger_def updatePropertySetCompletion_def)
      next
        case False
        then show ?thesis using n other[OF n False] by (simp add: ledger_def)
      qed
    qed
    then show ?thesis using p nb by (simp add: r without_single_none)
  qed
qed

lemma without_Cons: "without xs (without [x] cs) = without (x # xs) cs"
  by (auto simp: without_def intro: filter_cong)

lemma ledger_without:
  "map (\<lambda>s. (color s, without xs (cards s), hasHouse s, hasHotel s)) ps
     = map (\<lambda>(c, cs, h, t). (c, without xs cs, h, t)) (map ledger ps)"
  by (simp add: ledger_def)

lemma payAll_keeps:
  assumes "i \<noteq> j" and "i < length (players st)" and "j < length (players st)"
    and "\<forall>c \<in> set (allSetCards (players st ! i)). ownColourLegal c"
    and "distinct (map card_id (holdings (players st ! i)))"
  shows "hand (players (snd (payAll st i j ids)) ! i) = hand (players st ! i)
     \<and> bank (players (snd (payAll st i j ids)) ! i) = without ids (bank (players st ! i))
     \<and> map ledger (properties (players (snd (payAll st i j ids)) ! i))
         = map (\<lambda>s. (color s, without ids (cards s), hasHouse s, hasHotel s))
               (properties (players st ! i))"
  using assms
proof (induction ids arbitrary: st)
  case Nil
  then show ?case by (simp add: without_def ledger_def)
next
  case (Cons x xs)
  from payOne_summary[OF Cons.prems, of x] obtain st1 where
    r: "payOne st i j x = (Inr (), st1)" and l1: "length (players st1) = length (players st)"
    and sa: "set (allSetCards (players st1 ! i)) \<subseteq> set (allSetCards (players st ! i))"
    and d1: "distinct (map card_id (holdings (players st1 ! i)))"
    by blast
  from payOne_keeps[OF Cons.prems, of x] r
  have k1: "hand (players st1 ! i) = hand (players st ! i)"
    "bank (players st1 ! i) = without [x] (bank (players st ! i))"
    "map ledger (properties (players st1 ! i))
         = map (\<lambda>s. ledger (s\<lparr>cards := without [x] (cards s)\<rparr>)) (properties (players st ! i))"
    by simp_all
  have legal1: "\<forall>c \<in> set (allSetCards (players st1 ! i)). ownColourLegal c"
    using sa Cons.prems(4) by blast
  have i1: "i < length (players st1)" and j1: "j < length (players st1)"
    using Cons.prems(2,3) l1 by simp_all
  note ih = Cons.IH[OF Cons.prems(1) i1 j1 legal1 d1]
  have step: "payAll st i j (x # xs) = payAll st1 i j xs" by (simp add: r andThen_def)
  from ih have "map ledger (properties (players (snd (payAll st1 i j xs)) ! i))
          = map (\<lambda>s. (color s, without xs (cards s), hasHouse s, hasHotel s))
                (properties (players st1 ! i))"
    by blast
  also have "\<dots> = map (\<lambda>(c, cs, h, t). (c, without xs cs, h, t))
                     (map ledger (properties (players st1 ! i)))"
    by (rule ledger_without)
  also have "\<dots> = map (\<lambda>(c, cs, h, t). (c, without xs cs, h, t))
                     (map (\<lambda>s. ledger (s\<lparr>cards := without [x] (cards s)\<rparr>))
                          (properties (players st ! i)))"
    by (simp only: k1(3))
  also have "\<dots> = map (\<lambda>s. (color s, without (x # xs) (cards s), hasHouse s, hasHotel s))
                     (properties (players st ! i))"
    by (simp add: ledger_def without_Cons)
  finally show ?case unfolding step using ih k1(1,2) by (simp add: without_Cons)
qed

lemma respondToAction_settles:
  assumes pa: "pendingAction st = Some pa" and am: "amount pa = Some a" and pos: "0 < a"
    and i: "findPlayer st playerId = Some i"
    and acc: "accept response" and nojsn: "useJustSayNo response \<noteq> Some True"
    and enough: "min a (totalAssets (players st ! i)) \<le> paymentValue (players st ! i) (offeredIds response)"
    and j: "findPlayer st (fromPlayerId pa) = Some j" and ij: "i \<noteq> j"
    and nr: "\<forall>rs. respondedPlayers pa = Some rs \<longrightarrow> playerId \<notin> set rs"
    and pay: "paymentAction pa" and idx: "currentPlayerIndex st < length (players st)"
    and dist: "distinct (map card_id (holdings (players st ! i)))"
    and legal: "\<forall>c \<in> set (allSetCards (players st ! i)). ownColourLegal c"
  shows "fst (respondToAction now st playerId response) = Inr ()
     \<and> players (snd (respondToAction now st playerId response))
         = players (pruneEmpty i (snd (payAll st i j (offeredIds response))))"
proof -
  let ?ids = "offeredIds response"
  note il = findPlayer_less[OF i] and jl = findPlayer_less[OF j]
  from payAll_transfers[OF ij il jl legal dist, of ?ids] obtain st' where
    r: "payAll st i j ?ids = (Inr (), st')" and l': "length (players st') = length (players st)"
    by blast
  let ?st1 = "pruneEmpty i st'"
  have ne: "\<not> paymentValue (players st ! i) ?ids < min a (totalAssets (players st ! i))"
    using enough by linarith
  have sp: "settlePayment st a i j response = (Inr (), ?st1)"
    using ne r unfolding settlePayment_def Let_def offeredIds_def[symmetric]
    by (simp add: andThen_def)
  have c1: "ctl ?st1 = ctl st"
    using ctl_payAll[of st i j ?ids] r by simp
  then have idx1: "currentPlayerIndex ?st1 < length (players ?st1)"
    using idx by (simp add: ctl_def)
  from finishResponse_ok[OF idx1, of now pa playerId] obtain s2 where
    f: "finishResponse now ?st1 pa playerId = (Inr (), s2)" and p2: "players s2 = players ?st1"
    by blast
  have run: "respondToAction now st playerId response = (Inr (), s2)"
    unfolding respondToAction_paying[OF pa am pos i j nr acc nojsn] sp
    using f by (simp add: andThen_def executeEffect_payment[OF pay])
  show ?thesis by (simp add: run p2 r)
qed

text \<open>
  What the responder keeps, and what the initiator had. Under the conditions of the
  accepting case above the responder's hand is untouched, the responder's bank is the
  old bank without the offered cards, and the responder's property sets are the old
  ones, in their order and with their house and hotel flags, each without the offered
  cards, those left without any card being dropped. Whatever the initiator had in the
  bank and in a set of some colour is still there.
\<close>

lemma payment_keeps:
  assumes pa: "pendingAction st = Some pa" and am: "amount pa = Some a" and pos: "0 < a"
    and i: "findPlayer st playerId = Some i"
    and acc: "accept response" and nojsn: "useJustSayNo response \<noteq> Some True"
    and enough: "min a (totalAssets (players st ! i)) \<le> paymentValue (players st ! i) (offeredIds response)"
    and j: "findPlayer st (fromPlayerId pa) = Some j" and ij: "i \<noteq> j"
    and nr: "\<forall>rs. respondedPlayers pa = Some rs \<longrightarrow> playerId \<notin> set rs"
    and pay: "paymentAction pa" and idx: "currentPlayerIndex st < length (players st)"
    and dist: "distinct (map card_id (holdings (players st ! i)))"
    and legal: "\<forall>c \<in> set (allSetCards (players st ! i)). ownColourLegal c"
  shows "hand (players (snd (respondToAction now st playerId response)) ! i) = hand (players st ! i)"
    and "bank (players (snd (respondToAction now st playerId response)) ! i)
           = without (offeredIds response) (bank (players st ! i))"
    and "map ledger (properties (players (snd (respondToAction now st playerId response)) ! i))
           = filter (\<lambda>(c, cs, h, t). cs \<noteq> [])
               (map (\<lambda>s. (color s, without (offeredIds response) (cards s), hasHouse s, hasHotel s))
                    (properties (players st ! i)))"
    and "grows (players st ! j) (players (snd (respondToAction now st playerId response)) ! j)"
proof -
  let ?ids = "offeredIds response"
  let ?st' = "snd (payAll st i j ?ids)"
  note il = findPlayer_less[OF i] and jl = findPlayer_less[OF j]
  from respondToAction_settles[OF assms, of now]
  have p: "players (snd (respondToAction now st playerId response)) = players (pruneEmpty i ?st')"
    by simp
  from payAll_transfers[OF ij il jl legal dist, of ?ids]
  have l': "length (players ?st') = length (players st)"
    and g: "grows (players st ! j) (players ?st' ! j)" by auto
  have pi: "players (pruneEmpty i ?st') ! i =
      (players ?st' ! i)\<lparr>properties := filter (\<lambda>s. length (cards s) > 0) (properties (players ?st' ! i))\<rparr>"
    using il l' by (simp add: pruneEmpty_player)
  have pj: "players (pruneEmpty i ?st') ! j = players ?st' ! j"
    using ij by (simp add: pruneEmpty_player)
  note k = payAll_keeps[OF ij il jl legal dist, of ?ids]
  show "hand (players (snd (respondToAction now st playerId response)) ! i) = hand (players st ! i)"
    using k by (simp add: p pi)
  show "bank (players (snd (respondToAction now st playerId response)) ! i)
           = without ?ids (bank (players st ! i))"
    using k by (simp add: p pi)
  have "map ledger (filter (\<lambda>s. length (cards s) > 0) (properties (players ?st' ! i)))
          = filter (\<lambda>(c, cs, h, t). cs \<noteq> []) (map ledger (properties (players ?st' ! i)))"
    by (simp add: filter_map comp_def ledger_def)
  then show "map ledger (properties (players (snd (respondToAction now st playerId response)) ! i))
           = filter (\<lambda>(c, cs, h, t). cs \<noteq> [])
               (map (\<lambda>s. (color s, without ?ids (cards s), hasHouse s, hasHotel s))
                    (properties (players st ! i)))"
    using k by (simp add: p pi)
  show "grows (players st ! j) (players (snd (respondToAction now st playerId response)) ! j)"
    using g by (simp add: p pj)
qed

lemma payment_keeps_example:
  "hand (players (snd (respondToAction 7 houseTable ''B'' (payWith [''g1'', ''g2'']))) ! 1) = []
   \<and> bank (players (snd (respondToAction 7 houseTable ''B'' (payWith [''g1'', ''g2'']))) ! 1) = []
   \<and> map ledger (properties (players (snd (respondToAction 7 houseTable ''B''
                                              (payWith [''g1'', ''g2'']))) ! 1))
       = [(green, [street ''g3'' green 4, act ''h1'' house 3], True, False)]"
  using payment_keeps(1,2,3)[where st = houseTable and pa = debtPending and a = 5
          and playerId = "''B''" and i = 1 and response = "payWith [''g1'', ''g2'']"
          and j = 0 and now = 7]
  by (simp add: houseTable_def greenWithHouse_def debtPending_def table_defs payWith_def
        totalAssets_def allSetCards_def offeredIds_def paymentValue_def offeredValue_def
        find_js_def paymentAction_def holdings_def ownColourLegal_def findPlayer_def
        newPending_def without_def)

section \<open>An identifier offered twice\<close>

text \<open>
  C1. The value \<^verbatim>\<open>respondToAction\<close> compares with the minimum has one summand per
  listed identifier, while the transfer loop moves each card once. B owes A 5 and holds
  a 3 and a 4 in the bank, 7 in all, so the minimum is 5. Offering the 3 is rejected
  with the state unchanged; offering the 3 twice is valued 6 and accepted, and B has
  settled the debt with cards worth 3.
\<close>

theorem repeated_id_underpays:
  "amount debtPending = Some 5
   \<and> totalAssets (players richDebtTable ! 1) = 7
   \<and> offeredWorth (players richDebtTable ! 1) [''m3'', ''m3''] = 3
   \<and> respondToAction 7 richDebtTable ''B'' (payWith [''m3''])
       = (Inl (MustPayAtLeast 5 3), richDebtTable)
   \<and> paymentValue (players richDebtTable ! 1) [''m3'', ''m3''] = 6
   \<and> respondToAction 7 richDebtTable ''B'' (payWith [''m3'', ''m3''])
       = (Inr (), mkState [mkPlayer ''A'' [] [] [money ''m3'' 3],
                           mkPlayer ''B'' [] [] [money ''m4'' 4]]
                          0 action 2 None \<lparr>updatedAt := 7\<rparr>)"
  by (simp add: richDebtTable_def debtPending_def payWith_def respond_defs table_defs
        offeredWorth_def holdings_def newPending_def)

end
